theory Spec2Isabelle
  imports Complex_Main "HOL-Library.AList" "HOL-Library.Multiset"
begin

section \<open>JavaScript values\<close>

text \<open>
  A JavaScript number is a finite real, one of the two infinities, or NaN. Rounding to
  double precision and the sign of zero are not modelled: \<open>Fin 0\<close> stands for both zeros.
\<close>

datatype jsnum = Fin real | PInf | NInf | NaN

fun jsadd :: "jsnum \<Rightarrow> jsnum \<Rightarrow> jsnum" where
  "jsadd (Fin a) (Fin b) = Fin (a + b)"
| "jsadd NaN y = NaN"
| "jsadd x NaN = NaN"
| "jsadd PInf NInf = NaN"
| "jsadd NInf PInf = NaN"
| "jsadd PInf y = PInf"
| "jsadd x PInf = PInf"
| "jsadd NInf y = NInf"
| "jsadd x NInf = NInf"

fun jsmul :: "jsnum \<Rightarrow> jsnum \<Rightarrow> jsnum" where
  "jsmul (Fin a) (Fin b) = Fin (a * b)"
| "jsmul NaN y = NaN"
| "jsmul x NaN = NaN"
| "jsmul PInf (Fin b) = (if b = 0 then NaN else if 0 < b then PInf else NInf)"
| "jsmul NInf (Fin b) = (if b = 0 then NaN else if 0 < b then NInf else PInf)"
| "jsmul (Fin a) PInf = (if a = 0 then NaN else if 0 < a then PInf else NInf)"
| "jsmul (Fin a) NInf = (if a = 0 then NaN else if 0 < a then NInf else PInf)"
| "jsmul PInf PInf = PInf"
| "jsmul PInf NInf = NInf"
| "jsmul NInf PInf = NInf"
| "jsmul NInf NInf = PInf"

fun jsdiv :: "jsnum \<Rightarrow> jsnum \<Rightarrow> jsnum" where
  "jsdiv (Fin a) (Fin b) =
     (if b = 0 then (if a = 0 then NaN else if 0 < a then PInf else NInf) else Fin (a / b))"
| "jsdiv NaN y = NaN"
| "jsdiv x NaN = NaN"
| "jsdiv (Fin a) PInf = Fin 0"
| "jsdiv (Fin a) NInf = Fin 0"
| "jsdiv PInf (Fin b) = (if 0 \<le> b then PInf else NInf)"
| "jsdiv NInf (Fin b) = (if 0 \<le> b then NInf else PInf)"
| "jsdiv PInf PInf = NaN"
| "jsdiv PInf NInf = NaN"
| "jsdiv NInf PInf = NaN"
| "jsdiv NInf NInf = NaN"

text \<open>\<^verbatim>\<open>Math.sqrt\<close> and \<^verbatim>\<open>Math.log\<close> (natural logarithm).\<close>

fun Math_sqrt :: "jsnum \<Rightarrow> jsnum" where
  "Math_sqrt (Fin a) = (if a < 0 then NaN else Fin (sqrt a))"
| "Math_sqrt PInf = PInf"
| "Math_sqrt NInf = NaN"
| "Math_sqrt NaN = NaN"

fun Math_log :: "jsnum \<Rightarrow> jsnum" where
  "Math_log (Fin a) = (if a < 0 then NaN else if a = 0 then NInf else Fin (ln a))"
| "Math_log PInf = PInf"
| "Math_log NInf = NaN"
| "Math_log NaN = NaN"

text \<open>The relational operator \<^verbatim>\<open><\<close> on numbers: every comparison with NaN is false.\<close>

fun jslt :: "jsnum \<Rightarrow> jsnum \<Rightarrow> bool" where
  "jslt (Fin a) (Fin b) = (a < b)"
| "jslt NaN y = False"
| "jslt x NaN = False"
| "jslt x NInf = False"
| "jslt PInf y = False"
| "jslt NInf y = True"
| "jslt x PInf = True"

text \<open>
  The values the two programs handle: \<^verbatim>\<open>undefined\<close>, \<^verbatim>\<open>null\<close>, numbers, strings, arrays
  and plain objects. An object is the list of its own enumerable properties in enumeration
  order; every key the programs use (field names, tokens, MD5 digests) is a string that is
  not an array index, so enumeration order is insertion order. What an object inherits from
  \<^verbatim>\<open>Object.prototype\<close> is part of the model of the in-memory engine, which keeps tokens and
  field names as keys; the persistent engine puts only document identifiers, MD5 digests,
  in the objects it parses, and none of these is the name of an inherited property.
\<close>

datatype jsval =
    Undefined
  | Null
  | Number jsnum
  | Str string
  | Arr "jsval list"
  | Obj "(string \<times> jsval) list"

text \<open>
  The libraries and built-ins the programs call but do not define: the MD5 digest of
  \<^verbatim>\<open>crypto\<close>, \<^verbatim>\<open>JSON.stringify\<close> and \<^verbatim>\<open>JSON.parse\<close>, the term normaliser of \<^verbatim>\<open>compromise\<close>
  (\<^verbatim>\<open>nlp(s).terms().data().map(d => d.normal)\<close>), the English stopword list of
  \<^verbatim>\<open>stopwords\<close>, the conversion to a number of a value that is a string or an object, the
  conversion of a value to a string, and what \<^verbatim>\<open>level\<close> does with a value to store that is
  not a string (it rejects the write, or stores a string of its own making).
  \<^verbatim>\<open>JSON.parse\<close> takes any value and returns the parsed value or throws a SyntaxError.
\<close>

datatype js_error = TypeError | SyntaxError | NotFoundError | IOError

record externals =
  md5 :: "string \<Rightarrow> string"
  JSON_stringify :: "jsval \<Rightarrow> string"
  JSON_parse :: "jsval \<Rightarrow> js_error + jsval"
  nlp_terms :: "string \<Rightarrow> string list"
  stopwords :: "string list"
  ToNumber_other :: "jsval \<Rightarrow> jsnum"
  ToString :: "jsval \<Rightarrow> string"
  level_put_other :: "jsval \<Rightarrow> js_error + string"

definition ToNumber :: "externals \<Rightarrow> jsval \<Rightarrow> jsnum" where
  "ToNumber env v =
     (case v of Undefined \<Rightarrow> NaN | Null \<Rightarrow> Fin 0 | Number n \<Rightarrow> n | _ \<Rightarrow> ToNumber_other env v)"

text \<open>Truthiness, as \<^verbatim>\<open>!x\<close>, \<^verbatim>\<open>x || y\<close> and \<^verbatim>\<open>x ? a : b\<close> test it.\<close>

definition truthy :: "jsval \<Rightarrow> bool" where
  "truthy v =
     (case v of Undefined \<Rightarrow> False | Null \<Rightarrow> False
      | Number n \<Rightarrow> n \<noteq> NaN \<and> n \<noteq> Fin 0
      | Str s \<Rightarrow> s \<noteq> [] | _ \<Rightarrow> True)"

text \<open>Reading index \<open>i\<close> of an array: \<^verbatim>\<open>undefined\<close> out of range.\<close>

definition arr_get :: "jsval list \<Rightarrow> nat \<Rightarrow> jsval" where
  "arr_get xs i = (if i < length xs then xs ! i else Undefined)"

text \<open>
  The operator \<^verbatim>\<open>+\<close>: addition of numbers when both operands are \<^verbatim>\<open>undefined\<close>, \<^verbatim>\<open>null\<close>
  or a number, concatenation of strings otherwise.
\<close>

definition js_plus :: "externals \<Rightarrow> jsval \<Rightarrow> jsval \<Rightarrow> jsval" where
  "js_plus env a b =
     (let numeric = (\<lambda>v. case v of Undefined \<Rightarrow> True | Null \<Rightarrow> True | Number n \<Rightarrow> True | _ \<Rightarrow> False)
      in if numeric a \<and> numeric b then Number (jsadd (ToNumber env a) (ToNumber env b))
         else Str (ToString env a @ ToString env b))"

section \<open>The in-memory engine (index.bak.js)\<close>

type_synonym posting = "jsval list"
type_synonym document = "(string \<times> jsval) list"

text \<open>
  The engine uses objects made by \<^verbatim>\<open>{}\<close> as dictionaries, under keys it does not check:
  field names, tokens and document identifiers. Each of these objects inherits from
  \<^verbatim>\<open>Object.prototype\<close>. The operator \<^verbatim>\<open>in\<close> and a property read see the inherited
  properties too; \<^verbatim>\<open>for ... in\<close> visits the enumerable ones after the object's own;
  \<^verbatim>\<open>Object.keys\<close> and the sort of \<^verbatim>\<open>search\<close> see own properties only.

  \<open>Object_prototype_names\<close> are the built-in properties of \<^verbatim>\<open>Object.prototype\<close>. They are
  not enumerable. Each holds a function object, except \<^verbatim>\<open>__proto__\<close>, an accessor: read on
  an object made by \<^verbatim>\<open>{}\<close> it gives \<^verbatim>\<open>Object.prototype\<close> itself, and assigning an object to
  it replaces the prototype of the object assigned to.
\<close>

definition Object_prototype_names :: "string list" where
  "Object_prototype_names =
     [''constructor'', ''__defineGetter__'', ''__defineSetter__'', ''hasOwnProperty'',
      ''__lookupGetter__'', ''__lookupSetter__'', ''isPrototypeOf'', ''propertyIsEnumerable'',
      ''toString'', ''valueOf'', ''__proto__'', ''toLocaleString'']"

text \<open>
  The instance fields set by the constructor, and \<open>Object_prototype\<close>: the enumerable
  properties that have been added to \<^verbatim>\<open>Object.prototype\<close>, in the order in which they were
  added. It belongs to the realm and not to the instance; it is kept here because the
  engine writes it (line 44, when the token is \<^verbatim>\<open>__proto__\<close>): what the engine adds is an
  array of postings under a document identifier. The model is of one engine in a realm in
  which nothing else extends the built-in objects; the name of an added property is not
  one of \<open>Object_prototype_names\<close>.

  \<open>fieldBoosts\<close> is an array written by index; an index never written reads \<^verbatim>\<open>undefined\<close>.

  A result \<open>None\<close> of a function below says that the run leaves what the model covers:
  from there the program goes on with a built-in function object, with
  \<^verbatim>\<open>Object.prototype\<close> or with an inherited array in the place of one of its own records or
  values, or throws the TypeError of calling \<^verbatim>\<open>push\<close> on such an object.
\<close>

record NodeSearch =
  invertedIndex :: "(string \<times> (string \<times> posting list) list) list"
  documentStore :: "(string \<times> document) list"
  fields' :: "(string \<times> nat) list"
  fieldsCount :: nat
  fieldBoosts :: "nat \<Rightarrow> jsval"
  Object_prototype :: "(string \<times> posting list) list"

text \<open>
  \<^verbatim>\<open>new NodeSearch()\<close> in a realm whose \<^verbatim>\<open>Object.prototype\<close> has been given the properties
  \<open>added\<close>.
\<close>

definition constructor :: "(string \<times> posting list) list \<Rightarrow> NodeSearch" where
  "constructor added =
     \<lparr>invertedIndex = [], documentStore = [], fields' = [], fieldsCount = 0,
      fieldBoosts = (\<lambda>i. Undefined), Object_prototype = added\<rparr>"

text \<open>
  What \<^verbatim>\<open>obj[k]\<close> finds, for an object \<open>obj\<close> made by \<^verbatim>\<open>{}\<close>: an own property, a property
  added to \<^verbatim>\<open>Object.prototype\<close>, a built-in property of \<^verbatim>\<open>Object.prototype\<close>, or nothing
  (\<^verbatim>\<open>undefined\<close>). \<^verbatim>\<open>k in obj\<close> is true unless it finds nothing.
\<close>

datatype 'a property = Own 'a | Added "posting list" | Builtin string | Absent

definition get_property :: "NodeSearch \<Rightarrow> (string \<times> 'a) list \<Rightarrow> string \<Rightarrow> 'a property" where
  "get_property st obj k =
     (case map_of obj k of
        Some v \<Rightarrow> Own v
      | None \<Rightarrow>
          (case map_of (Object_prototype st) k of
             Some ps \<Rightarrow> Added ps
           | None \<Rightarrow> if k \<in> set Object_prototype_names then Builtin k else Absent))"

text \<open>
  The properties \<^verbatim>\<open>for (let k in obj)\<close> visits, with what \<^verbatim>\<open>obj[k]\<close> reads: the own
  properties in the order of their creation, then the properties added to
  \<^verbatim>\<open>Object.prototype\<close> that no own property hides.
\<close>

definition for_in :: "NodeSearch \<Rightarrow> (string \<times> posting list) list \<Rightarrow> (string \<times> posting list) list" where
  "for_in st obj = obj @ filter (\<lambda>(k, ps). k \<notin> set (map fst obj)) (Object_prototype st)"

text \<open>A loop whose body can leave the model.\<close>

fun foreach :: "('s \<Rightarrow> 'a \<Rightarrow> 's option) \<Rightarrow> 's \<Rightarrow> 'a list \<Rightarrow> 's option" where
  "foreach body s [] = Some s"
| "foreach body s (x # xs) = (case body s x of None \<Rightarrow> None | Some s' \<Rightarrow> foreach body s' xs)"

definition tokenizeNormalize :: "externals \<Rightarrow> string \<Rightarrow> string list" where
  "tokenizeNormalize env s = nlp_terms env s"

definition termFrequency :: "string \<Rightarrow> string list \<Rightarrow> jsnum" where
  "termFrequency term' tokenizedDocument =
     (let frequency = length (filter (\<lambda>token. token = term') tokenizedDocument)
      in Math_sqrt (Fin (real frequency)))"

text \<open>
  \<^verbatim>\<open>inverseDocumentFrequency\<close>. \<^verbatim>\<open>Object.keys(this.invertedIndex[term])\<close> are the own enumerable
  properties of what the read finds: the documents of an own record, the indices of an
  added array, the added properties when the read gives \<^verbatim>\<open>Object.prototype\<close> itself
  (\<^verbatim>\<open>__proto__\<close>), none for a built-in function.
\<close>

definition inverseDocumentFrequency :: "NodeSearch \<Rightarrow> string \<Rightarrow> jsnum" where
  "inverseDocumentFrequency st term' =
     (let numDocuments = length (map fst (documentStore st));
          numDocumentsContainTerm =
            (case get_property st (invertedIndex st) term' of
               Own r \<Rightarrow> length (map fst r)
             | Added ps \<Rightarrow> length ps
             | Builtin b \<Rightarrow>
                 (if b = ''__proto__'' then length (map fst (Object_prototype st)) else 0)
             | Absent \<Rightarrow> 0)
      in jsadd (Fin 1)
           (Math_log (jsdiv (Fin (real numDocuments)) (Fin (real (numDocumentsContainTerm + 1))))))"

definition fieldLengthNormalization :: "string list \<Rightarrow> jsnum" where
  "fieldLengthNormalization tokenizedDocument =
     jsdiv (Fin 1) (Math_sqrt (Fin (real (length tokenizedDocument))))"

text \<open>
  \<^verbatim>\<open>queryIdfs.reduce((total, idf) => total + Math.sqrt(idf, 2))\<close>: \<^verbatim>\<open>reduce\<close> without an
  initial value starts from the first element and throws a TypeError on an empty array;
  \<^verbatim>\<open>Math.sqrt\<close> ignores its second argument.
\<close>

definition queryNormalization :: "jsnum list \<Rightarrow> js_error + jsnum" where
  "queryNormalization queryIdfs =
     (case queryIdfs of
        [] \<Rightarrow> Inl TypeError
      | first # rest \<Rightarrow>
          (let sumOfSquaredWeights = foldl (\<lambda>total idf. jsadd total (Math_sqrt idf)) first rest
           in Inr (jsdiv (Fin 1) (Math_sqrt sumOfSquaredWeights))))"

text \<open>
  A document identifier is the hexadecimal MD5 digest of line 16. No built-in function
  and no array has a property of such a name, own or from \<^verbatim>\<open>Function.prototype\<close> or
  \<^verbatim>\<open>Array.prototype\<close>.
\<close>

definition is_digest :: "string \<Rightarrow> bool" where
  "is_digest k \<longleftrightarrow> length k = 32 \<and> set k \<subseteq> set ''0123456789abcdef''"

text \<open>
  The test of lines 140 and 141, \<^verbatim>\<open>token in this.invertedIndex\<close> and
  \<^verbatim>\<open>documentId in this.invertedIndex[token]\<close>. When \<^verbatim>\<open>this.invertedIndex[token]\<close> is a
  built-in function or an added array, the second test is decided for a digest only.
\<close>

definition matchingTerm :: "NodeSearch \<Rightarrow> string \<Rightarrow> string \<Rightarrow> bool option" where
  "matchingTerm st documentId token =
     (case get_property st (invertedIndex st) token of
        Own r \<Rightarrow> Some (get_property st r documentId \<noteq> Absent)
      | Added ps \<Rightarrow>
          (if is_digest documentId
           then Some (documentId \<in> set (map fst (Object_prototype st))) else None)
      | Builtin b \<Rightarrow>
          (if b = ''__proto__''
           then Some (documentId \<in> set (map fst (Object_prototype st)) \<or>
                      documentId \<in> set Object_prototype_names)
           else if is_digest documentId
           then Some (documentId \<in> set (map fst (Object_prototype st))) else None)
      | Absent \<Rightarrow> Some False)"

definition queryCoordination :: "NodeSearch \<Rightarrow> string list \<Rightarrow> string \<Rightarrow> jsnum option" where
  "queryCoordination st tokenizedQuery documentId =
     (case foreach (\<lambda>m token.
                      (case matchingTerm st documentId token of
                         None \<Rightarrow> None
                       | Some b \<Rightarrow> Some (if b then m + 1 else m)))
                   (0::nat) tokenizedQuery of
        None \<Rightarrow> None
      | Some matchingTerms \<Rightarrow>
          Some (jsdiv (Fin (real matchingTerms)) (Fin (real (length tokenizedQuery)))))"

text \<open>
  \<^verbatim>\<open>tokenizeFields\<close>: every field of the document that \<^verbatim>\<open>this.fields\<close> does not have, own
  or inherited, is registered (next id, boost 1 unless a truthy boost is already there);
  the fields holding a string are tokenized. \<open>tokenizeField\<close> is the body of the loop, for
  an own property of the document, in enumeration order. (The loop also visits the
  properties added to \<^verbatim>\<open>Object.prototype\<close>: \<^verbatim>\<open>this.fields\<close> inherits each of them and each
  holds an array, so the body does nothing there.) Assigning the token array to
  \<^verbatim>\<open>tokenizedDocument['__proto__']\<close> would replace the prototype of \<^verbatim>\<open>tokenizedDocument\<close>.
\<close>

definition tokenizeField ::
  "externals \<Rightarrow> (string \<times> string list) list \<times> NodeSearch \<Rightarrow> string \<times> jsval
     \<Rightarrow> ((string \<times> string list) list \<times> NodeSearch) option" where
  "tokenizeField env acc entry =
     (case acc of (tokenizedDocument, s) \<Rightarrow>
        (case entry of (field, v) \<Rightarrow>
           (let s1 =
                  (if get_property s (fields' s) field = Absent
                   then s\<lparr>fields' := AList.update field (fieldsCount s) (fields' s),
                          fieldBoosts :=
                            (if \<not> truthy (fieldBoosts s (fieldsCount s))
                             then (fieldBoosts s)(fieldsCount s := Number (Fin 1))
                             else fieldBoosts s),
                          fieldsCount := fieldsCount s + 1\<rparr>
                   else s)
            in (case v of
                  Str str \<Rightarrow>
                    (if field = ''__proto__'' then None
                     else Some (AList.update field (tokenizeNormalize env str) tokenizedDocument,
                                s1))
                | _ \<Rightarrow> Some (tokenizedDocument, s1)))))"

definition tokenizeFields ::
  "externals \<Rightarrow> document \<Rightarrow> NodeSearch \<Rightarrow> ((string \<times> string list) list \<times> NodeSearch) option" where
  "tokenizeFields env document st = foreach (tokenizeField env) ([], st) document"

text \<open>
  \<^verbatim>\<open>this.fields[field]\<close> as a component of a posting: the id in the registry, or
  \<^verbatim>\<open>undefined\<close>. For an inherited name the read gives a built-in function,
  \<^verbatim>\<open>Object.prototype\<close> or an added array, an object the posting would share.
\<close>

definition fields_get :: "NodeSearch \<Rightarrow> string \<Rightarrow> jsval option" where
  "fields_get st field =
     (case get_property st (fields' st) field of
        Own i \<Rightarrow> Some (Number (Fin (real i)))
      | Added ps \<Rightarrow> None
      | Builtin b \<Rightarrow> None
      | Absent \<Rightarrow> Some Undefined)"

text \<open>
  The body of the inner loop of \<^verbatim>\<open>indexDocument\<close> (lines 32 to 50): one token of one
  field. The posting is the array literal of lines 33 to 38. Where
  \<^verbatim>\<open>this.invertedIndex[token]\<close> is an own record, \<^verbatim>\<open>documentId in\<close> it is also true of an
  identifier added to \<^verbatim>\<open>Object.prototype\<close>, and line 41 then pushes the posting onto the
  added array. For the token \<^verbatim>\<open>__proto__\<close> the test of line 39 is true and
  \<^verbatim>\<open>this.invertedIndex[token]\<close> is \<^verbatim>\<open>Object.prototype\<close>: lines 41 and 44 write there.
\<close>

definition indexToken ::
  "externals \<Rightarrow> string \<Rightarrow> string \<Rightarrow> string list \<Rightarrow> NodeSearch \<Rightarrow> string \<Rightarrow> NodeSearch option" where
  "indexToken env documentId field tokens st token =
     (if token \<in> set (stopwords env) then Some st
      else
        (case fields_get st field of
           None \<Rightarrow> None
         | Some fieldId \<Rightarrow>
             (let posting =
                    [Number (termFrequency token tokens),
                     Number (inverseDocumentFrequency st token),
                     Number (fieldLengthNormalization tokens),
                     fieldId]
              in (case get_property st (invertedIndex st) token of
                    Own r \<Rightarrow>
                      (case get_property st r documentId of
                         Own ps \<Rightarrow>
                           Some (st\<lparr>invertedIndex :=
                                   AList.update token (AList.update documentId (ps @ [posting]) r)
                                     (invertedIndex st)\<rparr>)
                       | Added ps \<Rightarrow>
                           Some (st\<lparr>Object_prototype :=
                                   AList.update documentId (ps @ [posting]) (Object_prototype st)\<rparr>)
                       | Builtin b \<Rightarrow> None
                       | Absent \<Rightarrow>
                           Some (st\<lparr>invertedIndex :=
                                   AList.update token (AList.update documentId [posting] r)
                                     (invertedIndex st)\<rparr>))
                  | Added ps \<Rightarrow> None
                  | Builtin b \<Rightarrow>
                      (if b = ''__proto__'' then
                         (case map_of (Object_prototype st) documentId of
                            Some ps \<Rightarrow>
                              Some (st\<lparr>Object_prototype :=
                                      AList.update documentId (ps @ [posting])
                                        (Object_prototype st)\<rparr>)
                          | None \<Rightarrow>
                              (if documentId \<in> set Object_prototype_names then None
                               else Some (st\<lparr>Object_prototype :=
                                            AList.update documentId [posting]
                                              (Object_prototype st)\<rparr>)))
                       else None)
                  | Absent \<Rightarrow>
                      Some (st\<lparr>invertedIndex :=
                              AList.update token [(documentId, [posting])] (invertedIndex st)\<rparr>)))))"

text \<open>
  \<^verbatim>\<open>indexDocument\<close>. The outer loop visits the own properties of \<^verbatim>\<open>tokenizedDocument\<close> and
  then the properties that \<^verbatim>\<open>Object.prototype\<close> had been given when the loop started (V8
  fixes the keys of a \<^verbatim>\<open>for ... in\<close> at its start; the language leaves open whether a
  property added during the loop is visited). Under such an inherited key the loop would
  take an array of postings for the tokens of a field: there the model stops.
\<close>

definition indexDocument ::
  "externals \<Rightarrow> document \<Rightarrow> string \<Rightarrow> NodeSearch \<Rightarrow> NodeSearch option" where
  "indexDocument env document documentId st =
     (case tokenizeFields env document st of
        None \<Rightarrow> None
      | Some (tokenizedDocument, st1) \<Rightarrow>
          (if \<exists>k \<in> set (map fst (Object_prototype st1)). k \<notin> set (map fst tokenizedDocument)
           then None
           else foreach (\<lambda>s (field, tokens). foreach (indexToken env documentId field tokens) s tokens)
                  st1 tokenizedDocument))"

text \<open>
  \<^verbatim>\<open>addDocument\<close>. An identifier \<^verbatim>\<open>__proto__\<close> would make line 17 replace the prototype of
  \<^verbatim>\<open>this.documentStore\<close>.
\<close>

definition addDocument :: "externals \<Rightarrow> document \<Rightarrow> NodeSearch \<Rightarrow> NodeSearch option" where
  "addDocument env document st =
     (let documentId = md5 env (JSON_stringify env (Obj document))
      in if documentId = ''__proto__'' then None
         else indexDocument env document documentId
                (st\<lparr>documentStore := AList.update documentId document (documentStore st)\<rparr>))"

text \<open>
  \<^verbatim>\<open>this.fieldBoosts[k]\<close> for a value \<open>k\<close>: the array element when \<open>k\<close> is an array index;
  other property keys of the array are not modelled and read \<^verbatim>\<open>undefined\<close>.
\<close>

definition fieldBoosts_get :: "NodeSearch \<Rightarrow> jsval \<Rightarrow> jsval" where
  "fieldBoosts_get st k =
     (case k of
        Number (Fin r) \<Rightarrow> (if 0 \<le> r \<and> r = real (nat \<lfloor>r\<rfloor>) then fieldBoosts st (nat \<lfloor>r\<rfloor>) else Undefined)
      | _ \<Rightarrow> Undefined)"

definition termScore :: "externals \<Rightarrow> NodeSearch \<Rightarrow> posting list \<Rightarrow> jsnum" where
  "termScore env st postings =
     foldl (\<lambda>score posting.
              jsadd score
                (jsmul (jsmul (jsmul (ToNumber env (arr_get posting 0))
                                     (ToNumber env (arr_get posting 1)))
                              (ToNumber env (arr_get posting 2)))
                       (ToNumber env (fieldBoosts_get st (arr_get posting 3)))))
           (Fin 0) postings"

text \<open>An array of postings as a value.\<close>

definition postings_value :: "posting list \<Rightarrow> jsval" where
  "postings_value ps = Arr (map Arr ps)"

text \<open>
  Lines 59 to 64, for one document identifier and the score \<open>x\<close> of its postings.
  \<^verbatim>\<open>documentId in scores\<close> is also true of an identifier added to \<^verbatim>\<open>Object.prototype\<close>:
  \<^verbatim>\<open>+=\<close> then adds the score to the added array, which gives a string.
\<close>

definition addScore ::
  "externals \<Rightarrow> NodeSearch \<Rightarrow> (string \<times> jsval) list \<Rightarrow> string \<Rightarrow> jsnum
     \<Rightarrow> (string \<times> jsval) list option" where
  "addScore env st scores documentId x =
     (case get_property st scores documentId of
        Own v \<Rightarrow> Some (AList.update documentId (js_plus env v (Number x)) scores)
      | Added ps \<Rightarrow>
          Some (AList.update documentId (js_plus env (postings_value ps) (Number x)) scores)
      | Builtin b \<Rightarrow> None
      | Absent \<Rightarrow> Some (AList.update documentId (Number x) scores))"

text \<open>
  \<^verbatim>\<open>scoreDocuments\<close>. For a token the index does not have, the loop of line 58 is over
  \<^verbatim>\<open>undefined\<close> and visits nothing. Over an own record it visits the documents of the
  record and then the added properties of \<^verbatim>\<open>Object.prototype\<close>; over a built-in function
  or \<^verbatim>\<open>Object.prototype\<close> itself it visits the added properties. An added array in the
  place of the record is not followed.
\<close>

definition scoreToken ::
  "externals \<Rightarrow> NodeSearch \<Rightarrow> (string \<times> jsval) list \<Rightarrow> string \<Rightarrow> (string \<times> jsval) list option" where
  "scoreToken env st scores token =
     (case get_property st (invertedIndex st) token of
        Own r \<Rightarrow>
          foreach (\<lambda>scores (documentId, postings).
                     addScore env st scores documentId (termScore env st postings))
            scores (for_in st r)
      | Added ps \<Rightarrow> None
      | Builtin b \<Rightarrow>
          foreach (\<lambda>scores (documentId, postings).
                     addScore env st scores documentId (termScore env st postings))
            scores (Object_prototype st)
      | Absent \<Rightarrow> Some scores)"

definition scoreDocuments ::
  "externals \<Rightarrow> NodeSearch \<Rightarrow> string list \<Rightarrow> (string \<times> jsval) list option" where
  "scoreDocuments env st tokenizedQuery = foreach (scoreToken env st) [] tokenizedQuery"

text \<open>
  The properties the loop of lines 82 to 84 visits in \<^verbatim>\<open>results\<close>, the score object: its
  own, then the added properties of \<^verbatim>\<open>Object.prototype\<close> it does not hide, each read as the
  added array.
\<close>

definition results_for_in :: "NodeSearch \<Rightarrow> (string \<times> jsval) list \<Rightarrow> (string \<times> jsval) list" where
  "results_for_in st scores =
     scores @
     map (\<lambda>(k, ps). (k, postings_value ps))
       (filter (\<lambda>(k, ps). k \<notin> set (map fst scores)) (Object_prototype st))"

text \<open>
  The loop of lines 82 to 84: each value is multiplied, as a number, by the query
  normalization and the document's coordination, and written to \<^verbatim>\<open>results\<close> as an own
  property. \<^verbatim>\<open>queryNormalization\<close> is evaluated in every iteration, so its TypeError can
  only be thrown when the loop visits a property. What is returned is the own properties
  of \<^verbatim>\<open>results\<close> after the loop.
\<close>

fun scaleResults ::
  "externals \<Rightarrow> NodeSearch \<Rightarrow> jsnum list \<Rightarrow> string list \<Rightarrow> (string \<times> jsval) list
     \<Rightarrow> (js_error + (string \<times> jsnum) list) option" where
  "scaleResults env st queryIdfs tokenizedQuery [] = Some (Inr [])"
| "scaleResults env st queryIdfs tokenizedQuery ((documentId, v) # rest) =
     (case queryNormalization queryIdfs of
        Inl e \<Rightarrow> Some (Inl e)
      | Inr qn \<Rightarrow>
          (case queryCoordination st tokenizedQuery documentId of
             None \<Rightarrow> None
           | Some qc \<Rightarrow>
               (case scaleResults env st queryIdfs tokenizedQuery rest of
                  None \<Rightarrow> None
                | Some (Inl e) \<Rightarrow> Some (Inl e)
                | Some (Inr rest') \<Rightarrow>
                    Some (Inr ((documentId, jsmul (ToNumber env v) (jsmul qn qc)) # rest')))))"

text \<open>
  \<^verbatim>\<open>Array.prototype.sort\<close> with a comparator is a built-in. It is modelled as ECMAScript
  2019 specifies it, a stable sort: an insertion sort that puts \<open>x\<close> before the first
  \<open>y\<close> with \<open>cmp x y \<le> 0\<close>.
\<close>

fun insert_sorted :: "('a \<Rightarrow> 'a \<Rightarrow> int) \<Rightarrow> 'a \<Rightarrow> 'a list \<Rightarrow> 'a list" where
  "insert_sorted cmp x [] = [x]"
| "insert_sorted cmp x (y # ys) =
     (if cmp x y \<le> 0 then x # y # ys else y # insert_sorted cmp x ys)"

definition Array_sort :: "('a \<Rightarrow> 'a \<Rightarrow> int) \<Rightarrow> 'a list \<Rightarrow> 'a list" where
  "Array_sort cmp xs = foldr (insert_sorted cmp) xs []"

text \<open>\<^verbatim>\<open>results[a]\<close> in a comparison: a missing key reads \<^verbatim>\<open>undefined\<close>, which compares as NaN.\<close>

definition results_get :: "(string \<times> jsnum) list \<Rightarrow> string \<Rightarrow> jsnum" where
  "results_get results a = (case map_of results a of Some x \<Rightarrow> x | None \<Rightarrow> NaN)"

text \<open>The comparator of lines 85 to 93.\<close>

definition compareResults :: "(string \<times> jsnum) list \<Rightarrow> string \<Rightarrow> string \<Rightarrow> int" where
  "compareResults results a b =
     (if jslt (results_get results a) (results_get results b) then 1
      else if jslt (results_get results b) (results_get results a) then - 1
      else 0)"

text \<open>
  \<^verbatim>\<open>this.documentStore[key]\<close>: the stored document, or what \<^verbatim>\<open>Object.prototype\<close> has under
  the key.
\<close>

definition documentStore_get :: "NodeSearch \<Rightarrow> string \<Rightarrow> document property" where
  "documentStore_get st key = get_property st (documentStore st) key"

text \<open>The object \<^verbatim>\<open>results\<close> of \<^verbatim>\<open>search\<close> after the loop of lines 82 to 84.\<close>

definition search_results ::
  "externals \<Rightarrow> NodeSearch \<Rightarrow> string \<Rightarrow> (js_error + (string \<times> jsnum) list) option" where
  "search_results env st query =
     (let tokenizedQuery = tokenizeNormalize env query;
          queryIdfs = map (inverseDocumentFrequency st) tokenizedQuery
      in (case scoreDocuments env st tokenizedQuery of
            None \<Rightarrow> None
          | Some scores \<Rightarrow>
              scaleResults env st queryIdfs tokenizedQuery (results_for_in st scores)))"

text \<open>
  \<^verbatim>\<open>search\<close>: \<open>Inl\<close> is an exception thrown to the caller, \<open>Inr\<close> the array returned, of
  what \<^verbatim>\<open>this.documentStore\<close> has under each key.
\<close>

definition search ::
  "externals \<Rightarrow> NodeSearch \<Rightarrow> string \<Rightarrow> (js_error + document property list) option" where
  "search env st query =
     (case search_results env st query of
        None \<Rightarrow> None
      | Some (Inl e) \<Rightarrow> Some (Inl e)
      | Some (Inr results) \<Rightarrow>
          (let sortedResults = Array_sort (compareResults results) (map fst results)
           in Some (Inr (map (documentStore_get st) sortedResults))))"

section \<open>The persistent engine (index.js)\<close>

text \<open>
  The file holds two versions of the class one after the other; the model is of the second
  (lines 170 to 460), the one that keeps a document count and indexes what it adds.

  The class holds \<^verbatim>\<open>this.store\<close>, a \<^verbatim>\<open>level\<close> database of strings under string keys. Its
  operations can fail: \<open>faults\<close> is the schedule of the failures to come, one entry per
  store operation (\<open>True\<close>: this operation fails with an I/O error; no entry: it does not
  fail). \<open>console\<close> is what \<^verbatim>\<open>console.error\<close> has printed.

  Every asynchronous call is run to completion in program order. The source does not await
  \<^verbatim>\<open>_invertedIndexInsert\<close>; the interleavings this allows are not modelled. A leading
  underscore of a method name is written \<open>p_\<close>.
\<close>

record level =
  contents :: "string \<Rightarrow> string option"
  faults :: "bool list"
  console :: "js_error list"

definition INVERTED_INDEX_KEY_PREFIX :: string where
  "INVERTED_INDEX_KEY_PREFIX = ''InvertedIndex''"

definition DOCUMENT_STORE_KEY_PREFIX :: string where
  "DOCUMENT_STORE_KEY_PREFIX = ''DocumentStore''"

definition DOCUMENT_COUNT_KEY :: string where
  "DOCUMENT_COUNT_KEY = ''DocumentCount''"

text \<open>
  The keys \<^verbatim>\<open>`${DOCUMENT_STORE_KEY_PREFIX}:${documentId}`\<close> and
  \<^verbatim>\<open>`${INVERTED_INDEX_KEY_PREFIX}:${token}`\<close>.
\<close>

definition document_key :: "string \<Rightarrow> string" where
  "document_key documentId = DOCUMENT_STORE_KEY_PREFIX @ '':'' @ documentId"

definition token_key :: "string \<Rightarrow> string" where
  "token_key token = INVERTED_INDEX_KEY_PREFIX @ '':'' @ token"

definition next_fault :: "level \<Rightarrow> bool \<times> level" where
  "next_fault st = (case faults st of [] \<Rightarrow> (False, st) | f # fs \<Rightarrow> (f, st\<lparr>faults := fs\<rparr>))"

definition store_put :: "externals \<Rightarrow> string \<Rightarrow> jsval \<Rightarrow> level \<Rightarrow> (js_error + unit) \<times> level" where
  "store_put env key v st =
     (case next_fault st of
        (True, s) \<Rightarrow> (Inl IOError, s)
      | (False, s) \<Rightarrow>
          (case v of
             Str x \<Rightarrow> (Inr (), s\<lparr>contents := (contents s)(key \<mapsto> x)\<rparr>)
           | _ \<Rightarrow>
               (case level_put_other env v of
                  Inl e \<Rightarrow> (Inl e, s)
                | Inr x \<Rightarrow> (Inr (), s\<lparr>contents := (contents s)(key \<mapsto> x)\<rparr>))))"

definition store_get :: "string \<Rightarrow> level \<Rightarrow> (js_error + jsval) \<times> level" where
  "store_get key st =
     (case next_fault st of
        (True, s) \<Rightarrow> (Inl IOError, s)
      | (False, s) \<Rightarrow>
          (case contents s key of
             None \<Rightarrow> (Inl NotFoundError, s)
           | Some x \<Rightarrow> (Inr (Str x), s)))"

definition store_del :: "string \<Rightarrow> level \<Rightarrow> (js_error + unit) \<times> level" where
  "store_del key st =
     (case next_fault st of
        (True, s) \<Rightarrow> (Inl IOError, s)
      | (False, s) \<Rightarrow> (Inr (), s\<lparr>contents := (contents s)(key := None)\<rparr>))"

definition console_error :: "js_error \<Rightarrow> level \<Rightarrow> level" where
  "console_error e st = st\<lparr>console := console st @ [e]\<rparr>"

text \<open>
  \<^verbatim>\<open>try { ... } catch (error) { console.error(error); }\<close> around the whole body of a method
  that returns nothing: \<open>Inl\<close> is an exception that reaches the caller (a rejected promise),
  \<open>Inr\<close> normal completion.
\<close>

definition catch_console_error :: "(js_error + unit) \<times> level \<Rightarrow> (js_error + unit) \<times> level" where
  "catch_console_error r =
     (case r of (Inl e, s) \<Rightarrow> (Inr (), console_error e s) | (Inr u, s) \<Rightarrow> (Inr u, s))"

text \<open>
  The shape shared by \<^verbatim>\<open>get\<close>, \<^verbatim>\<open>_invertedIndexGetToken\<close> and \<^verbatim>\<open>_getNumDocuments\<close>: the
  stored string; \<^verbatim>\<open>null\<close> when the key is absent; after any other error, which is printed,
  the method falls off its end and returns \<^verbatim>\<open>undefined\<close>.
\<close>

definition get :: "string \<Rightarrow> level \<Rightarrow> jsval \<times> level" where
  "get documentId st =
     (case store_get (document_key documentId) st of
        (Inr v, s) \<Rightarrow> (v, s)
      | (Inl e, s) \<Rightarrow> (if e = NotFoundError then (Null, s) else (Undefined, console_error e s)))"

definition p_invertedIndexGetToken :: "string \<Rightarrow> level \<Rightarrow> jsval \<times> level" where
  "p_invertedIndexGetToken token st =
     (case store_get (token_key token) st of
        (Inr v, s) \<Rightarrow> (v, s)
      | (Inl e, s) \<Rightarrow> (if e = NotFoundError then (Null, s) else (Undefined, console_error e s)))"

definition p_getNumDocuments :: "level \<Rightarrow> jsval \<times> level" where
  "p_getNumDocuments st =
     (case store_get DOCUMENT_COUNT_KEY st of
        (Inr v, s) \<Rightarrow> (v, s)
      | (Inl e, s) \<Rightarrow> (if e = NotFoundError then (Null, s) else (Undefined, console_error e s)))"

definition p_invertedIndexSetToken :: "externals \<Rightarrow> string \<Rightarrow> jsval \<Rightarrow> level \<Rightarrow> level" where
  "p_invertedIndexSetToken env token record' st =
     (case store_put env (token_key token) record' st of
        (Inr u, s) \<Rightarrow> s
      | (Inl e, s) \<Rightarrow> console_error e s)"

text \<open>\<^verbatim>\<open>_setNumDocuments(field, num)\<close> stores its second parameter.\<close>

definition p_setNumDocuments :: "externals \<Rightarrow> jsval \<Rightarrow> jsval \<Rightarrow> level \<Rightarrow> level" where
  "p_setNumDocuments env field num st =
     (case store_put env DOCUMENT_COUNT_KEY num st of
        (Inr u, s) \<Rightarrow> s
      | (Inl e, s) \<Rightarrow> console_error e s)"

text \<open>
  \<^verbatim>\<open>_incrementNumDocuments(num = 1)\<close> calls \<^verbatim>\<open>this._setNumDocuments(documentCount + num)\<close>
  with one argument: the sum is bound to \<open>field\<close>, and \<open>num\<close> is \<^verbatim>\<open>undefined\<close>.
\<close>

definition p_incrementNumDocuments :: "externals \<Rightarrow> jsval \<Rightarrow> level \<Rightarrow> level" where
  "p_incrementNumDocuments env num st =
     (case p_getNumDocuments st of
        (storedDocumentCount, s1) \<Rightarrow>
          (let documentCount =
                 (if truthy storedDocumentCount then storedDocumentCount else Number (Fin 0))
           in p_setNumDocuments env (js_plus env documentCount num) Undefined s1))"

definition p_generateDocumentId :: "externals \<Rightarrow> document \<Rightarrow> string" where
  "p_generateDocumentId env document = md5 env (JSON_stringify env (Obj document))"

definition p_tokenizeNormalize :: "externals \<Rightarrow> string \<Rightarrow> string list" where
  "p_tokenizeNormalize env s = nlp_terms env s"

text \<open>\<^verbatim>\<open>_tokenizeFields\<close>; \<open>p_tokenizeField\<close> is the body of its loop.\<close>

definition p_tokenizeField ::
  "externals \<Rightarrow> (string \<times> string list) list \<Rightarrow> string \<times> jsval \<Rightarrow> (string \<times> string list) list" where
  "p_tokenizeField env tokenizedDocument entry =
     (case entry of (field, v) \<Rightarrow>
        (case v of
           Str str \<Rightarrow> AList.update field (p_tokenizeNormalize env str) tokenizedDocument
         | _ \<Rightarrow> tokenizedDocument))"

definition p_tokenizeFields :: "externals \<Rightarrow> document \<Rightarrow> (string \<times> string list) list" where
  "p_tokenizeFields env document = foldl (p_tokenizeField env) [] document"

definition p_termFrequency :: "string \<Rightarrow> string list \<Rightarrow> jsnum" where
  "p_termFrequency term' tokenizedDocument =
     (let frequency = length (filter (\<lambda>token. token = term') tokenizedDocument)
      in Math_sqrt (Fin (real frequency)))"

definition p_fieldLengthNormalization :: "string list \<Rightarrow> jsnum" where
  "p_fieldLengthNormalization tokenizedDocument =
     jsdiv (Fin 1) (Math_sqrt (Fin (real (length tokenizedDocument))))"

text \<open>
  \<^verbatim>\<open>x.length\<close> for a truthy \<open>x\<close>: the length of an array or of a string, the property named
  \<^verbatim>\<open>length\<close> of a plain object (\<^verbatim>\<open>undefined\<close> when it has none), \<^verbatim>\<open>undefined\<close> for a number.
\<close>

definition get_length :: "jsval \<Rightarrow> jsval" where
  "get_length x =
     (case x of
        Arr xs \<Rightarrow> Number (Fin (real (length xs)))
      | Str s \<Rightarrow> Number (Fin (real (length s)))
      | Obj r \<Rightarrow> (case map_of r ''length'' of Some v \<Rightarrow> v | None \<Rightarrow> Undefined)
      | _ \<Rightarrow> Undefined)"

definition p_inverseDocumentFrequency :: "externals \<Rightarrow> string \<Rightarrow> level \<Rightarrow> jsval \<times> level" where
  "p_inverseDocumentFrequency env term' st =
     (case p_getNumDocuments st of
        (numDocuments, s1) \<Rightarrow>
          (case p_invertedIndexGetToken term' s1 of
             (documentsContainTermRaw, s2) \<Rightarrow>
               (case JSON_parse env documentsContainTermRaw of
                  Inl e \<Rightarrow> (Undefined, console_error e s2)
                | Inr documentsContainTerm \<Rightarrow>
                    (let numDocumentsContainTerm =
                           (if truthy documentsContainTerm then get_length documentsContainTerm
                            else Number (Fin 0))
                     in (Number
                           (jsadd (Fin 1)
                              (Math_log
                                 (jsdiv (ToNumber env numDocuments)
                                    (ToNumber env
                                       (js_plus env numDocumentsContainTerm (Number (Fin 1))))))),
                         s2)))))"

text \<open>
  \<^verbatim>\<open>_invertedIndexInsert\<close>. \<^verbatim>\<open>documentId in parsed\<close> throws a TypeError when \<open>parsed\<close> is
  not an object, and so does \<^verbatim>\<open>push\<close> on a value that is not an array. An array takes the
  new property, which \<^verbatim>\<open>JSON.stringify\<close> leaves out (a document identifier is never an
  array index).
\<close>

definition p_invertedIndexInsert ::
  "externals \<Rightarrow> string \<Rightarrow> string \<Rightarrow> posting \<Rightarrow> level \<Rightarrow> level" where
  "p_invertedIndexInsert env token documentId posting st =
     (case p_invertedIndexGetToken token st of
        (record', s1) \<Rightarrow>
          (if truthy record' then
             (case JSON_parse env record' of
                Inl e \<Rightarrow> console_error e s1
              | Inr parsed \<Rightarrow>
                  (case parsed of
                     Obj r \<Rightarrow>
                       (case map_of r documentId of
                          Some v \<Rightarrow>
                            (case v of
                               Arr ps \<Rightarrow>
                                 p_invertedIndexSetToken env token
                                   (Str (JSON_stringify env
                                      (Obj (AList.update documentId (Arr (ps @ [Arr posting])) r))))
                                   s1
                             | _ \<Rightarrow> console_error TypeError s1)
                        | None \<Rightarrow>
                            p_invertedIndexSetToken env token
                              (Str (JSON_stringify env
                                 (Obj (AList.update documentId (Arr [Arr posting]) r))))
                              s1)
                   | Arr xs \<Rightarrow>
                       p_invertedIndexSetToken env token (Str (JSON_stringify env (Arr xs))) s1
                   | _ \<Rightarrow> console_error TypeError s1))
           else
             (let createdRecord = Obj [(documentId, Arr [Arr posting])]
              in p_invertedIndexSetToken env token (Str (JSON_stringify env createdRecord)) s1)))"

text \<open>
  The array literal of lines 270 to 274 of \<^verbatim>\<open>_indexDocument\<close>, and the body of its inner
  loop (lines 268 to 276). The call of line 275 is not awaited: in the program its read and
  its write of the token's record come later, among the store operations of the iterations
  that follow, and a later iteration can read the record before this write. The model runs
  the call to its end before the loop goes on.
\<close>

definition p_posting :: "string \<Rightarrow> string list \<Rightarrow> jsval \<Rightarrow> posting" where
  "p_posting token tokens idf =
     [Number (p_termFrequency token tokens), idf, Number (p_fieldLengthNormalization tokens)]"

definition p_indexToken ::
  "externals \<Rightarrow> string \<Rightarrow> string list \<Rightarrow> level \<Rightarrow> string \<Rightarrow> level" where
  "p_indexToken env documentId tokens st token =
     (if token \<in> set (stopwords env) then st
      else
        (case p_inverseDocumentFrequency env token st of
           (idf, s1) \<Rightarrow> p_invertedIndexInsert env token documentId (p_posting token tokens idf) s1))"

definition p_indexDocument :: "externals \<Rightarrow> string \<Rightarrow> document \<Rightarrow> level \<Rightarrow> level" where
  "p_indexDocument env documentId document st =
     (let tokenizedDocument = p_tokenizeFields env document
      in foldl (\<lambda>s (field, tokens). foldl (p_indexToken env documentId tokens) s tokens)
           st tokenizedDocument)"

definition add :: "externals \<Rightarrow> document \<Rightarrow> level \<Rightarrow> (js_error + unit) \<times> level" where
  "add env document st =
     catch_console_error
       (let documentId = p_generateDocumentId env document
        in (case store_put env (document_key documentId)
                   (Str (JSON_stringify env (Obj document))) st of
              (Inl e, s1) \<Rightarrow> (Inl e, s1)
            | (Inr u, s1) \<Rightarrow>
                (Inr (),
                 p_indexDocument env documentId document
                   (p_incrementNumDocuments env (Number (Fin 1)) s1))))"

text \<open>
  The own enumerable properties \<^verbatim>\<open>Object.assign\<close> copies from a source: those of an
  object; of a string or an array, one per index, named by the index in decimal; none of
  \<^verbatim>\<open>undefined\<close>, \<^verbatim>\<open>null\<close> or a number. The indices of a string or an array come first and in
  ascending order in the target, as they do in JavaScript, as long as no field of the
  partial document is named by a number.
\<close>

definition digit_char :: "nat \<Rightarrow> char" where
  "digit_char d = char_of (48 + d)"

fun string_of_nat :: "nat \<Rightarrow> string" where
  "string_of_nat n =
     (if 10 \<le> n then string_of_nat (n div 10) @ [digit_char (n mod 10)] else [digit_char n])"

definition own_enumerable :: "jsval \<Rightarrow> (string \<times> jsval) list" where
  "own_enumerable v =
     (case v of
        Obj r \<Rightarrow> r
      | Str s \<Rightarrow> zip (map string_of_nat [0..<length s]) (map (\<lambda>c. Str [c]) s)
      | Arr xs \<Rightarrow> zip (map string_of_nat [0..<length xs]) xs
      | _ \<Rightarrow> [])"

definition Object_assign :: "(string \<times> jsval) list \<Rightarrow> jsval list \<Rightarrow> (string \<times> jsval) list" where
  "Object_assign target sources =
     foldl (\<lambda>t src. foldl (\<lambda>t' (k, v). AList.update k v t') t (own_enumerable src))
       target sources"

text \<open>\<^verbatim>\<open>newDocument\<close> of \<^verbatim>\<open>update\<close> (line 206).\<close>

definition update_newDocument :: "jsval \<Rightarrow> document \<Rightarrow> (string \<times> jsval) list" where
  "update_newDocument previousDocumentVersion partialUpdatedDocument =
     Object_assign [] [previousDocumentVersion, Obj partialUpdatedDocument]"

definition update ::
  "externals \<Rightarrow> string \<Rightarrow> document \<Rightarrow> level \<Rightarrow> (js_error + unit) \<times> level" where
  "update env documentId partialUpdatedDocument st =
     catch_console_error
       (case get documentId st of
          (previousDocumentVersion, s1) \<Rightarrow>
            (let newDocument = update_newDocument previousDocumentVersion partialUpdatedDocument
             in store_put env (document_key documentId)
                  (Str (JSON_stringify env (Obj newDocument))) s1))"

definition delete :: "string \<Rightarrow> level \<Rightarrow> (js_error + unit) \<times> level" where
  "delete documentId st =
     catch_console_error (store_del (document_key documentId) st)"

text \<open>\<^verbatim>\<open>search() { return null; }\<close>: the persistent engine has no query side yet.\<close>

definition search_stub :: jsval where
  "search_stub = Null"

section \<open>Notions the properties are stated with\<close>


text \<open>
  The postings of a token in a document, and the documents holding at least one posting
  of a token.
\<close>

definition postings_of :: "NodeSearch \<Rightarrow> string \<Rightarrow> string \<Rightarrow> posting list" where
  "postings_of st token documentId =
     (case map_of (invertedIndex st) token of
        Some r \<Rightarrow> (case map_of r documentId of Some ps \<Rightarrow> ps | None \<Rightarrow> [])
      | None \<Rightarrow> [])"

definition documents_holding :: "NodeSearch \<Rightarrow> string \<Rightarrow> string set" where
  "documents_holding st token = {documentId. postings_of st token documentId \<noteq> []}"

text \<open>
  The two loops of \<^verbatim>\<open>indexDocument\<close> visit the token occurrences of the tokenized document
  in this order, each with its field and the field's token sequence; so do the two loops
  of \<^verbatim>\<open>_indexDocument\<close>. \<open>indexOccurrence\<close> and \<open>p_indexOccurrence\<close> are the loop bodies
  on such an occurrence.
\<close>

definition occurrences ::
  "(string \<times> string list) list \<Rightarrow> (string \<times> string list \<times> string) list" where
  "occurrences tokenizedDocument =
     concat (map (\<lambda>(field, tokens). map (\<lambda>token. (field, tokens, token)) tokens)
               tokenizedDocument)"

definition p_indexOccurrence ::
  "externals \<Rightarrow> string \<Rightarrow> level \<Rightarrow> string \<times> string list \<times> string \<Rightarrow> level" where
  "p_indexOccurrence env documentId st occ =
     (case occ of (field, tokens, token) \<Rightarrow> p_indexToken env documentId tokens st token)"

definition indexOccurrence ::
  "externals \<Rightarrow> string \<Rightarrow> NodeSearch \<Rightarrow> string \<times> string list \<times> string \<Rightarrow> NodeSearch option" where
  "indexOccurrence env documentId st occ =
     (case occ of (field, tokens, token) \<Rightarrow> indexToken env documentId field tokens st token)"

text \<open>
  What holds of the objects of every index built by \<^verbatim>\<open>addDocument\<close>: the keys of an
  object are distinct, and a document listed under a token has a posting there.
\<close>

definition wf_index :: "NodeSearch \<Rightarrow> bool" where
  "wf_index st \<longleftrightarrow>
     distinct (map fst (documentStore st)) \<and>
     (\<forall>token r. map_of (invertedIndex st) token = Some r \<longrightarrow>
        distinct (map fst r) \<and> (\<forall>d ps. map_of r d = Some ps \<longrightarrow> ps \<noteq> []))"

text \<open>The document stored under an identifier in the database.\<close>

definition stored_document :: "level \<Rightarrow> string \<Rightarrow> string option" where
  "stored_document st documentId = contents st (document_key documentId)"

text \<open>
  A step of the persistent engine that writes index entries only: every other key keeps
  its value, and a fault schedule that was empty stays empty.
\<close>

definition index_frame :: "level \<Rightarrow> level \<Rightarrow> bool" where
  "index_frame st s \<longleftrightarrow>
     (\<forall>k. (\<forall>token. k \<noteq> token_key token) \<longrightarrow>
          contents s k = contents st k) \<and>
     (faults st = [] \<longrightarrow> faults s = [])"

text \<open>
  Between two states of the database, every store operation that failed has been printed:
  the fault schedule of \<open>st\<close> is what was used up, \<open>failed\<close>, followed by what \<open>s\<close> has
  left; the console has grown by \<open>printed\<close>; and \<open>printed\<close> has at least as many I/O
  errors as \<open>failed\<close> has failures.
\<close>

definition errors_printed :: "level \<Rightarrow> level \<Rightarrow> bool" where
  "errors_printed st s \<longleftrightarrow>
     (\<exists>failed printed.
        faults st = failed @ faults s \<and> console s = console st @ printed \<and>
        count_list failed True \<le> count_list printed IOError)"

text \<open>
  A document on plain keys: neither its identifier nor the name of one of its fields nor a
  token of one of its string fields that is not a stopword is the name of a built-in
  property of \<^verbatim>\<open>Object.prototype\<close>.
\<close>

definition plain_keys :: "externals \<Rightarrow> document \<Rightarrow> bool" where
  "plain_keys env document \<longleftrightarrow>
     md5 env (JSON_stringify env (Obj document)) \<notin> set Object_prototype_names \<and>
     (\<forall>(field, v)\<in>set document.
        field \<notin> set Object_prototype_names \<and>
        (case v of
           Str s \<Rightarrow> \<forall>token\<in>set (tokenizeNormalize env s).
                      token \<in> set (stopwords env) \<or> token \<notin> set Object_prototype_names
         | _ \<Rightarrow> True))"

section \<open>The in-memory engine on plain keys\<close>

text \<open>
  What the functions of index.bak.js do when \<^verbatim>\<open>Object.prototype\<close> has been given no
  property and no key they meet is one of \<open>Object_prototype_names\<close>: every read and every
  write is of an own property. The functions \<open>..._own\<close> are these runs, written without
  the inherited cases; they serve the proofs, which show that the functions above
  agree with them on such runs.
\<close>

definition inverseDocumentFrequency_own :: "NodeSearch \<Rightarrow> string \<Rightarrow> jsnum" where
  "inverseDocumentFrequency_own st term' =
     (let numDocuments = length (map fst (documentStore st));
          numDocumentsContainTerm =
            (case map_of (invertedIndex st) term' of
               Some r \<Rightarrow> length (map fst r)
             | None \<Rightarrow> 0)
      in jsadd (Fin 1)
           (Math_log (jsdiv (Fin (real numDocuments)) (Fin (real (numDocumentsContainTerm + 1))))))"

definition tokenizeField_own ::
  "externals \<Rightarrow> (string \<times> string list) list \<times> NodeSearch \<Rightarrow> string \<times> jsval
     \<Rightarrow> (string \<times> string list) list \<times> NodeSearch" where
  "tokenizeField_own env acc entry =
     (case acc of (tokenizedDocument, s) \<Rightarrow>
        (case entry of (field, v) \<Rightarrow>
           (let s1 =
                  (if map_of (fields' s) field = None
                   then s\<lparr>fields' := AList.update field (fieldsCount s) (fields' s),
                          fieldBoosts :=
                            (if \<not> truthy (fieldBoosts s (fieldsCount s))
                             then (fieldBoosts s)(fieldsCount s := Number (Fin 1))
                             else fieldBoosts s),
                          fieldsCount := fieldsCount s + 1\<rparr>
                   else s)
            in (case v of
                  Str str \<Rightarrow>
                    (AList.update field (tokenizeNormalize env str) tokenizedDocument, s1)
                | _ \<Rightarrow> (tokenizedDocument, s1)))))"

definition tokenizeFields_own ::
  "externals \<Rightarrow> document \<Rightarrow> NodeSearch \<Rightarrow> (string \<times> string list) list \<times> NodeSearch" where
  "tokenizeFields_own env document st = foldl (tokenizeField_own env) ([], st) document"

definition fields_get_own :: "NodeSearch \<Rightarrow> string \<Rightarrow> jsval" where
  "fields_get_own st field =
     (case map_of (fields' st) field of Some i \<Rightarrow> Number (Fin (real i)) | None \<Rightarrow> Undefined)"

definition indexToken_own ::
  "externals \<Rightarrow> string \<Rightarrow> string \<Rightarrow> string list \<Rightarrow> NodeSearch \<Rightarrow> string \<Rightarrow> NodeSearch" where
  "indexToken_own env documentId field tokens st token =
     (if token \<in> set (stopwords env) then st
      else
        (let posting =
               [Number (termFrequency token tokens),
                Number (inverseDocumentFrequency_own st token),
                Number (fieldLengthNormalization tokens),
                fields_get_own st field]
         in (case map_of (invertedIndex st) token of
               Some r \<Rightarrow>
                 (case map_of r documentId of
                    Some ps \<Rightarrow>
                      st\<lparr>invertedIndex :=
                           AList.update token (AList.update documentId (ps @ [posting]) r)
                             (invertedIndex st)\<rparr>
                  | None \<Rightarrow>
                      st\<lparr>invertedIndex :=
                           AList.update token (AList.update documentId [posting] r)
                             (invertedIndex st)\<rparr>)
             | None \<Rightarrow>
                 st\<lparr>invertedIndex :=
                      AList.update token [(documentId, [posting])] (invertedIndex st)\<rparr>)))"

definition indexOccurrence_own ::
  "externals \<Rightarrow> string \<Rightarrow> NodeSearch \<Rightarrow> string \<times> string list \<times> string \<Rightarrow> NodeSearch" where
  "indexOccurrence_own env documentId st occ =
     (case occ of (field, tokens, token) \<Rightarrow> indexToken_own env documentId field tokens st token)"

definition indexDocument_own :: "externals \<Rightarrow> document \<Rightarrow> string \<Rightarrow> NodeSearch \<Rightarrow> NodeSearch" where
  "indexDocument_own env document documentId st =
     (case tokenizeFields_own env document st of
        (tokenizedDocument, st1) \<Rightarrow>
          foldl (\<lambda>s (field, tokens). foldl (indexToken_own env documentId field tokens) s tokens)
            st1 tokenizedDocument)"

definition addDocument_own :: "externals \<Rightarrow> document \<Rightarrow> NodeSearch \<Rightarrow> NodeSearch" where
  "addDocument_own env document st =
     (let documentId = md5 env (JSON_stringify env (Obj document));
          st1 = st\<lparr>documentStore := AList.update documentId document (documentStore st)\<rparr>
      in indexDocument_own env document documentId st1)"

section \<open>An instance of the libraries, and two small indexes\<close>

text \<open>
  Stand-ins for the libraries, for the examples: terms are the words between spaces, the
  digest is the identity, a document is serialized field by field.
\<close>

fun example_split :: "string \<Rightarrow> string \<Rightarrow> string list" where
  "example_split w [] = (if w = [] then [] else [w])"
| "example_split w (c # cs) =
     (if c = CHR '' '' then (if w = [] then example_split [] cs else w # example_split [] cs)
      else example_split (w @ [c]) cs)"

fun example_fields :: "(string \<times> jsval) list \<Rightarrow> string" where
  "example_fields [] = []"
| "example_fields ((k, Str s) # r) = k @ ''='' @ s @ '';'' @ example_fields r"
| "example_fields ((k, v) # r) = k @ ''=?;'' @ example_fields r"

definition example_env :: externals where
  "example_env =
     \<lparr>md5 = (\<lambda>s. s),
      JSON_stringify = (\<lambda>v. case v of Obj r \<Rightarrow> example_fields r | _ \<Rightarrow> ''?''),
      JSON_parse = (\<lambda>v. case v of Null \<Rightarrow> Inr Null | _ \<Rightarrow> Inl SyntaxError),
      nlp_terms = example_split [],
      stopwords = [''the''],
      ToNumber_other = (\<lambda>v. NaN),
      ToString = (\<lambda>v. ''?''),
      level_put_other = (\<lambda>v. Inl TypeError)\<rparr>"

text \<open>An empty database that does not fail.\<close>

definition example_store :: level where
  "example_store = \<lparr>contents = Map.empty, faults = [], console = []\<rparr>"

text \<open>
  The index after \<^verbatim>\<open>addDocument({title: 'cooking ideas'})\<close> on a new engine in a realm
  where nothing has been added to \<^verbatim>\<open>Object.prototype\<close>, and after
  \<^verbatim>\<open>addDocument({title: 'vacation vacation'})\<close> on that.
\<close>

definition example_index1 :: NodeSearch where
  "example_index1 =
     the (addDocument example_env [(''title'', Str ''cooking ideas'')] (constructor []))"

definition example_index2 :: NodeSearch where
  "example_index2 =
     the (addDocument example_env [(''title'', Str ''vacation vacation'')] example_index1)"

text \<open>
  A new engine in such a realm after \<^verbatim>\<open>addDocument({title: '__proto__ x'})\<close>, a document
  with the token \<^verbatim>\<open>__proto__\<close>.
\<close>

definition example_polluted :: NodeSearch where
  "example_polluted =
     the (addDocument example_env [(''title'', Str ''__proto__ x'')] (constructor []))"



section \<open>Properties\<close>

subsection \<open>The example indexes, evaluated\<close>

lemma example_terms:
  "nlp_terms example_env ''cooking ideas'' = [''cooking'', ''ideas'']"
  "nlp_terms example_env ''vacation vacation'' = [''vacation'', ''vacation'']"
  "nlp_terms example_env ''vacation'' = [''vacation'']"
  "nlp_terms example_env ''cooking vacation'' = [''cooking'', ''vacation'']"
  "nlp_terms example_env ''__proto__ x'' = [''__proto__'', ''x'']"
  "nlp_terms example_env [] = []"
  by (simp_all add: example_env_def)

lemma example_env_simps:
  "md5 example_env s = s"
  "JSON_stringify example_env (Obj r) = example_fields r"
  "stopwords example_env = [''the'']"
  by (simp_all add: example_env_def)

lemma get_property_clean:
  "Object_prototype st = [] \<Longrightarrow>
   get_property st obj k =
     (case map_of obj k of
        Some v \<Rightarrow> Own v
      | None \<Rightarrow> if k \<in> set Object_prototype_names then Builtin k else Absent)"
  by (simp add: get_property_def split: option.splits)

lemma example_plain:
  "''title'' \<notin> set Object_prototype_names"
  "''cooking'' \<notin> set Object_prototype_names"
  "''ideas'' \<notin> set Object_prototype_names"
  "''vacation'' \<notin> set Object_prototype_names"
  "''x'' \<notin> set Object_prototype_names"
  "''title=cooking ideas;'' \<notin> set Object_prototype_names"
  "''title=vacation vacation;'' \<notin> set Object_prototype_names"
  "''title=__proto__ x;'' \<notin> set Object_prototype_names"
  "''__proto__'' \<in> set Object_prototype_names"
  by (simp_all add: Object_prototype_names_def)

lemma example_add1:
  "addDocument example_env [(''title'', Str ''cooking ideas'')] (constructor []) =
   Some
     \<lparr>invertedIndex =
        [(''cooking'', [(''title=cooking ideas;'',
            [[Number (Fin 1), Number (Fin 1), Number (Fin (1 / sqrt 2)), Number (Fin 0)]])]),
         (''ideas'', [(''title=cooking ideas;'',
            [[Number (Fin 1), Number (Fin 1), Number (Fin (1 / sqrt 2)), Number (Fin 0)]])])],
      documentStore = [(''title=cooking ideas;'', [(''title'', Str ''cooking ideas'')])],
      fields' = [(''title'', 0)], fieldsCount = 1,
      fieldBoosts = (\<lambda>i. Undefined)(0 := Number (Fin 1)),
      Object_prototype = []\<rparr>"
  unfolding addDocument_def indexDocument_def tokenizeFields_def
    tokenizeField_def Let_def
  apply (simp add: constructor_def truthy_def tokenizeNormalize_def example_terms example_env_simps
       get_property_def example_plain)
  apply (simp add: indexToken_def example_env_simps fields_get_def termFrequency_def
      inverseDocumentFrequency_def fieldLengthNormalization_def get_property_def example_plain)
  done

lemma example_index1_eq:
  "example_index1 =
     \<lparr>invertedIndex =
        [(''cooking'', [(''title=cooking ideas;'',
            [[Number (Fin 1), Number (Fin 1), Number (Fin (1 / sqrt 2)), Number (Fin 0)]])]),
         (''ideas'', [(''title=cooking ideas;'',
            [[Number (Fin 1), Number (Fin 1), Number (Fin (1 / sqrt 2)), Number (Fin 0)]])])],
      documentStore = [(''title=cooking ideas;'', [(''title'', Str ''cooking ideas'')])],
      fields' = [(''title'', 0)], fieldsCount = 1,
      fieldBoosts = (\<lambda>i. Undefined)(0 := Number (Fin 1)),
      Object_prototype = []\<rparr>"
  by (simp add: example_index1_def example_add1)

lemma example_add2:
  "addDocument example_env [(''title'', Str ''vacation vacation'')] example_index1 =
   Some
     \<lparr>invertedIndex =
        [(''cooking'', [(''title=cooking ideas;'',
            [[Number (Fin 1), Number (Fin 1), Number (Fin (1 / sqrt 2)), Number (Fin 0)]])]),
         (''ideas'', [(''title=cooking ideas;'',
            [[Number (Fin 1), Number (Fin 1), Number (Fin (1 / sqrt 2)), Number (Fin 0)]])]),
         (''vacation'', [(''title=vacation vacation;'',
            [[Number (Fin (sqrt 2)), Number (Fin (1 + ln 2)), Number (Fin (1 / sqrt 2)),
              Number (Fin 0)],
             [Number (Fin (sqrt 2)), Number (Fin 1), Number (Fin (1 / sqrt 2)),
              Number (Fin 0)]])])],
      documentStore =
        [(''title=cooking ideas;'', [(''title'', Str ''cooking ideas'')]),
         (''title=vacation vacation;'', [(''title'', Str ''vacation vacation'')])],
      fields' = [(''title'', 0)], fieldsCount = 1,
      fieldBoosts = (\<lambda>i. Undefined)(0 := Number (Fin 1)),
      Object_prototype = []\<rparr>"
  unfolding example_index1_eq addDocument_def indexDocument_def
    tokenizeFields_def tokenizeField_def Let_def
  apply (simp add: truthy_def tokenizeNormalize_def example_terms example_env_simps
      get_property_def example_plain)
  apply (simp add: indexToken_def example_env_simps fields_get_def termFrequency_def
      inverseDocumentFrequency_def fieldLengthNormalization_def get_property_def example_plain)
  done

lemma example_add_polluted:
  "addDocument example_env [(''title'', Str ''__proto__ x'')] (constructor []) =
   Some
     \<lparr>invertedIndex =
        [(''x'', [(''title=__proto__ x;'',
            [[Number (Fin 1), Number (Fin 1), Number (Fin (1 / sqrt 2)), Number (Fin 0)]])])],
      documentStore = [(''title=__proto__ x;'', [(''title'', Str ''__proto__ x'')])],
      fields' = [(''title'', 0)], fieldsCount = 1,
      fieldBoosts = (\<lambda>i. Undefined)(0 := Number (Fin 1)),
      Object_prototype =
        [(''title=__proto__ x;'',
            [[Number (Fin 1), Number (Fin 1), Number (Fin (1 / sqrt 2)), Number (Fin 0)]])]\<rparr>"
  unfolding addDocument_def indexDocument_def tokenizeFields_def
    tokenizeField_def Let_def
  apply (simp add: constructor_def truthy_def tokenizeNormalize_def example_terms example_env_simps
       get_property_def example_plain)
  apply (simp add: indexToken_def example_env_simps fields_get_def termFrequency_def
      inverseDocumentFrequency_def fieldLengthNormalization_def get_property_def example_plain)
  done

lemma example_index2_eq:
  "example_index2 =
     \<lparr>invertedIndex =
        [(''cooking'', [(''title=cooking ideas;'',
            [[Number (Fin 1), Number (Fin 1), Number (Fin (1 / sqrt 2)), Number (Fin 0)]])]),
         (''ideas'', [(''title=cooking ideas;'',
            [[Number (Fin 1), Number (Fin 1), Number (Fin (1 / sqrt 2)), Number (Fin 0)]])]),
         (''vacation'', [(''title=vacation vacation;'',
            [[Number (Fin (sqrt 2)), Number (Fin (1 + ln 2)), Number (Fin (1 / sqrt 2)),
              Number (Fin 0)],
             [Number (Fin (sqrt 2)), Number (Fin 1), Number (Fin (1 / sqrt 2)),
              Number (Fin 0)]])])],
      documentStore =
        [(''title=cooking ideas;'', [(''title'', Str ''cooking ideas'')]),
         (''title=vacation vacation;'', [(''title'', Str ''vacation vacation'')])],
      fields' = [(''title'', 0)], fieldsCount = 1,
      fieldBoosts = (\<lambda>i. Undefined)(0 := Number (Fin 1)),
      Object_prototype = []\<rparr>"
  by (simp add: example_index2_def example_add2)

lemma example_polluted_eq:
  "example_polluted =
     \<lparr>invertedIndex =
        [(''x'', [(''title=__proto__ x;'',
            [[Number (Fin 1), Number (Fin 1), Number (Fin (1 / sqrt 2)), Number (Fin 0)]])])],
      documentStore = [(''title=__proto__ x;'', [(''title'', Str ''__proto__ x'')])],
      fields' = [(''title'', 0)], fieldsCount = 1,
      fieldBoosts = (\<lambda>i. Undefined)(0 := Number (Fin 1)),
      Object_prototype =
        [(''title=__proto__ x;'',
            [[Number (Fin 1), Number (Fin 1), Number (Fin (1 / sqrt 2)), Number (Fin 0)]])]\<rparr>"
  by (simp add: example_polluted_def example_add_polluted)

subsection \<open>Query coordination\<close>












lemma example_index1_clean: "Object_prototype example_index1 = []"
  by (simp add: example_index1_eq)



subsection \<open>Query normalization\<close>

lemma example_idf_cooking:
  "inverseDocumentFrequency example_index1 ''cooking'' = Fin (1 - ln 2)"
  unfolding example_index1_eq
  by (simp add: inverseDocumentFrequency_def ln_div get_property_def)

lemma ln2_bounds: "0 < 1 - ln (2::real)" "1 - ln (2::real) < 1"
  using ln_2_less_1 by simp_all

lemma sqrt_ne_self: "0 < (x::real) \<Longrightarrow> x < 1 \<Longrightarrow> 1 / sqrt x \<noteq> 1 / sqrt (x\<^sup>2)"
proof
  assume x: "0 < x" "x < 1" and e: "1 / sqrt x = 1 / sqrt (x\<^sup>2)"
  from x have "sqrt (x\<^sup>2) = x" by simp
  with e x have "sqrt x = x" by simp
  then have "(sqrt x)\<^sup>2 = x\<^sup>2" by simp
  with x have "x = x\<^sup>2" by simp
  then have "x * (1 - x) = 0" by (simp add: power2_eq_square algebra_simps)
  with x show False by simp
qed

text \<open>
  C2 at a failing input. The index holds the one document \<^verbatim>\<open>{title: 'cooking ideas'}\<close> and
  the query is \<^verbatim>\<open>cooking\<close>: its one token has the query-time IDF \<open>1 - ln 2\<close>.
  \<^verbatim>\<open>queryNormalization\<close> returns \<open>1 / sqrt (1 - ln 2)\<close>: \<^verbatim>\<open>reduce\<close> without an initial value
  hands back the only element as it is. The claim's factor is \<open>1 / sqrt ((1 - ln 2)\<^sup>2)\<close>,
  another number. (With more tokens the first IDF enters as it is and every later one
  under a square root: \<^verbatim>\<open>Math.sqrt(idf, 2)\<close> is not a square.)
\<close>

theorem queryNormalization_single_token:
  "queryNormalization
     (map (inverseDocumentFrequency example_index1) (tokenizeNormalize example_env ''cooking''))
     = Inr (Fin (1 / sqrt (1 - ln 2)))
   \<and> (1::real) / sqrt (1 - ln 2) \<noteq> 1 / sqrt ((1 - ln 2)\<^sup>2)"
proof -
  have t: "tokenizeNormalize example_env ''cooking'' = [''cooking'']"
    by (simp add: tokenizeNormalize_def example_env_def)
  have "queryNormalization [Fin (1 - ln 2)] = Inr (Fin (1 / sqrt (1 - ln 2)))"
    using ln2_bounds by (simp add: queryNormalization_def)
  then show ?thesis
    using sqrt_ne_self[OF ln2_bounds] by (simp add: t example_idf_cooking)
qed

subsection \<open>Search: no match\<close>

lemma scoreToken_no_entry:
  assumes "Object_prototype st = []" and "map_of (invertedIndex st) token = None"
  shows "scoreToken env st scores token = Some scores"
  using assms by (simp add: scoreToken_def get_property_clean)

lemma scoreDocuments_no_entry:
  assumes "Object_prototype st = []"
  shows "\<forall>token\<in>set q. map_of (invertedIndex st) token = None \<Longrightarrow>
         foreach (scoreToken env st) scores q = Some scores"
  by (induction q) (simp_all add: scoreToken_no_entry[OF assms])

text \<open>
  In a realm where nothing has been added to \<^verbatim>\<open>Object.prototype\<close>, \<^verbatim>\<open>search\<close> on a query
  that tokenizes to no token, or whose every token has no entry in the inverted index,
  returns the empty array.
\<close>

lemma search_no_match_clean:
  assumes "Object_prototype st = []"
      and "\<forall>token\<in>set (tokenizeNormalize env query). map_of (invertedIndex st) token = None"
  shows "search env st query = Some (Inr [])"
proof -
  have "scoreDocuments env st (tokenizeNormalize env query) = Some []"
    unfolding scoreDocuments_def using assms(2) by (rule scoreDocuments_no_entry[OF assms(1)])
  then show ?thesis
    by (simp add: search_def search_results_def results_for_in_def assms(1) Array_sort_def)
qed

lemma example_search_polluted:
  "search example_env example_polluted '''' = Some (Inl TypeError)"
  "search example_env example_polluted ''vacation''
     = Some (Inr [Own [(''title'', Str ''__proto__ x'')]])"
proof -
  have e: "tokenizeNormalize example_env '''' = []"
    by (simp add: tokenizeNormalize_def example_terms)
  have v: "tokenizeNormalize example_env ''vacation'' = [''vacation'']"
    by (simp add: tokenizeNormalize_def example_terms)
  show "search example_env example_polluted '''' = Some (Inl TypeError)"
    unfolding search_def search_results_def Let_def e
    by (simp add: scoreDocuments_def results_for_in_def example_polluted_eq
        queryNormalization_def)
  have s: "scoreDocuments example_env example_polluted [''vacation''] = Some []"
    by (simp add: scoreDocuments_def scoreToken_def get_property_def example_polluted_eq
        example_plain)
  have i: "inverseDocumentFrequency example_polluted ''vacation'' = Fin 1"
    by (simp add: inverseDocumentFrequency_def get_property_def example_polluted_eq example_plain)
  have c: "queryCoordination example_polluted [''vacation''] ''title=__proto__ x;''
           = Some (Fin 0)"
    by (simp add: queryCoordination_def matchingTerm_def get_property_def example_polluted_eq
        example_plain)
  have f: "results_for_in example_polluted [] =
             [(''title=__proto__ x;'',
               postings_value [[Number (Fin 1), Number (Fin 1), Number (Fin (1 / sqrt 2)),
                                Number (Fin 0)]])]"
    by (simp add: results_for_in_def example_polluted_eq)
  have n: "ToNumber example_env (postings_value ps) = NaN" for ps
    by (simp add: postings_value_def ToNumber_def example_env_def)
  have r: "search_results example_env example_polluted ''vacation''
           = Some (Inr [(''title=__proto__ x;'', NaN)])"
    unfolding search_results_def Let_def v s
    by (simp add: i c f n queryNormalization_def)
  show "search example_env example_polluted ''vacation''
     = Some (Inr [Own [(''title'', Str ''__proto__ x'')]])"
    unfolding search_def r
    by (simp add: Array_sort_def documentStore_get_def get_property_def example_polluted_eq)
qed

text \<open>
  C5 at a failing input. A new engine, in a realm where nothing has been added to
  \<^verbatim>\<open>Object.prototype\<close>, is given the document \<^verbatim>\<open>{title: '__proto__ x'}\<close>. For the token
  \<^verbatim>\<open>__proto__\<close> the test of line 39 is true and line 44 writes the posting array to
  \<^verbatim>\<open>Object.prototype\<close>, under the document's identifier. From then on the loop of line 82
  visits this identifier in every score object. For the empty query it calls
  \<^verbatim>\<open>queryNormalization([])\<close>, whose \<^verbatim>\<open>reduce\<close> throws a TypeError; for the query
  \<^verbatim>\<open>vacation\<close>, a token the index does not have, \<^verbatim>\<open>search\<close> returns the document.
\<close>

theorem search_after_proto_token:
  "addDocument example_env [(''title'', Str ''__proto__ x'')] (constructor [])
     = Some example_polluted
   \<and> tokenizeNormalize example_env '''' = []
   \<and> search example_env example_polluted '''' = Some (Inl TypeError)
   \<and> tokenizeNormalize example_env ''vacation'' = [''vacation'']
   \<and> map_of (invertedIndex example_polluted) ''vacation'' = None
   \<and> search example_env example_polluted ''vacation''
       = Some (Inr [Own [(''title'', Str ''__proto__ x'')]])"
proof -
  have a: "addDocument example_env [(''title'', Str ''__proto__ x'')] (constructor [])
             = Some example_polluted"
    by (simp add: example_add_polluted example_polluted_eq)
  have m: "map_of (invertedIndex example_polluted) ''vacation'' = None"
    by (simp add: example_polluted_eq)
  show ?thesis
    using a m example_search_polluted
    by (simp add: tokenizeNormalize_def example_terms)
qed

subsection \<open>Search: the order of the results\<close>

lemma jslt_asym: "jslt a b \<Longrightarrow> \<not> jslt b a"
  by (cases a; cases b) auto

lemma jslt_irrefl: "\<not> jslt a a"
  by (cases a) auto

lemma not_jslt_trans:
  "b \<noteq> NaN \<Longrightarrow> \<not> jslt a b \<Longrightarrow> \<not> jslt b c \<Longrightarrow> \<not> jslt a c"
  by (cases a; cases b; cases c) auto

lemma compareResults_le:
  "compareResults results a b \<le> 0 \<longleftrightarrow> \<not> jslt (results_get results a) (results_get results b)"
  by (simp add: compareResults_def)

lemma set_insert_sorted: "set (insert_sorted cmp x ys) = insert x (set ys)"
  by (induction ys) auto

lemma mset_insert_sorted: "mset (insert_sorted cmp x ys) = add_mset x (mset ys)"
  by (induction ys) auto

lemma mset_Array_sort: "mset (Array_sort cmp xs) = mset xs"
  unfolding Array_sort_def by (induction xs) (auto simp: mset_insert_sorted)

lemma set_Array_sort: "set (Array_sort cmp xs) = set xs"
  using mset_Array_sort[of cmp xs] by (metis set_mset_mset)

lemma sorted_insert_sorted:
  assumes cmp: "\<And>a b. cmp a b \<le> 0 \<longleftrightarrow> \<not> jslt (r a) (r b)"
      and nn: "\<forall>y\<in>set ys. r y \<noteq> NaN"
      and s: "sorted_wrt (\<lambda>a b. \<not> jslt (r a) (r b)) ys"
  shows "sorted_wrt (\<lambda>a b. \<not> jslt (r a) (r b)) (insert_sorted cmp x ys)"
  using nn s
proof (induction ys)
  case Nil
  then show ?case by simp
next
  case (Cons y ys)
  show ?case
  proof cases
    assume le: "cmp x y \<le> 0"
    then have xy: "\<not> jslt (r x) (r y)" by (simp add: cmp)
    have "\<forall>z\<in>set ys. \<not> jslt (r x) (r z)"
      using Cons.prems xy not_jslt_trans[of "r y" "r x"] by auto
    with le xy Cons.prems show ?thesis by simp
  next
    assume gt: "\<not> cmp x y \<le> 0"
    then have "jslt (r x) (r y)" by (simp add: cmp)
    then have "\<not> jslt (r y) (r x)" by (rule jslt_asym)
    with gt Cons show ?thesis by (auto simp: set_insert_sorted)
  qed
qed

lemma sorted_Array_sort:
  assumes cmp: "\<And>a b. cmp a b \<le> 0 \<longleftrightarrow> \<not> jslt (r a) (r b)"
      and nn: "\<forall>y\<in>set xs. r y \<noteq> NaN"
  shows "sorted_wrt (\<lambda>a b. \<not> jslt (r a) (r b)) (Array_sort cmp xs)"
  using nn
proof (induction xs)
  case Nil
  then show ?case by (simp add: Array_sort_def)
next
  case (Cons x xs)
  then have "sorted_wrt (\<lambda>a b. \<not> jslt (r a) (r b)) (Array_sort cmp xs)" by simp
  moreover have "\<forall>y\<in>set (Array_sort cmp xs). r y \<noteq> NaN"
    using Cons.prems by (simp add: set_Array_sort)
  ultimately have
    "sorted_wrt (\<lambda>a b. \<not> jslt (r a) (r b)) (insert_sorted cmp x (Array_sort cmp xs))"
    using cmp by (intro sorted_insert_sorted) auto
  then show ?case by (simp add: Array_sort_def)
qed

text \<open>An element is put before every element of its own score: the sort is stable.\<close>

lemma filter_insert_sorted:
  assumes cmp: "\<And>a b. cmp a b \<le> 0 \<longleftrightarrow> \<not> jslt (r a) (r b)"
  shows "filter (\<lambda>k. r k = v) (insert_sorted cmp x ys) =
         (if r x = v then x # filter (\<lambda>k. r k = v) ys else filter (\<lambda>k. r k = v) ys)"
proof (induction ys)
  case Nil
  then show ?case by simp
next
  case (Cons y ys)
  show ?case
  proof cases
    assume "cmp x y \<le> 0"
    then show ?thesis by simp
  next
    assume gt: "\<not> cmp x y \<le> 0"
    then have "jslt (r x) (r y)" by (simp add: cmp)
    then have "r y \<noteq> r x" using jslt_irrefl[of "r x"] by auto
    with gt Cons show ?thesis by auto
  qed
qed

lemma filter_Array_sort:
  assumes cmp: "\<And>a b. cmp a b \<le> 0 \<longleftrightarrow> \<not> jslt (r a) (r b)"
  shows "filter (\<lambda>k. r k = v) (Array_sort cmp xs) = filter (\<lambda>k. r k = v) xs"
  unfolding Array_sort_def
  by (induction xs) (simp_all add: filter_insert_sorted[where r = r, OF cmp])

text \<open>
  C4. Let \<open>results\<close> be the score object of \<^verbatim>\<open>search\<close> (index.bak.js) after the loop of
  lines 82 to 84 has scaled it without throwing, none of its scores NaN (a comparison
  with NaN is false both ways, and the comparator then orders nothing). \<^verbatim>\<open>search\<close>
  returns what the document store has under a rearrangement \<open>ids\<close> of the keys of
  \<open>results\<close> in which no key is followed by one of a greater score (descending), and in
  which the keys of any one score stand in the order in which \<open>results\<close> enumerates them
  (stable; the comparator looks at the scores only). This holds whatever has been added to
  \<^verbatim>\<open>Object.prototype\<close>; \<open>search_results_plain\<close> below says when there is such a \<open>results\<close>.
\<close>

theorem search_sorted_stable:
  assumes res: "search_results env st query = Some (Inr results)"
      and nn: "\<forall>k\<in>set (map fst results). results_get results k \<noteq> NaN"
  shows "\<exists>ids. search env st query = Some (Inr (map (documentStore_get st) ids))
           \<and> mset ids = mset (map fst results)
           \<and> sorted_wrt (\<lambda>a b. \<not> jslt (results_get results a) (results_get results b)) ids
           \<and> (\<forall>v. filter (\<lambda>k. results_get results k = v) ids
                    = filter (\<lambda>k. results_get results k = v) (map fst results))"
proof -
  let ?ids = "Array_sort (compareResults results) (map fst results)"
  have "search env st query = Some (Inr (map (documentStore_get st) ?ids))"
    by (simp add: search_def res)
  moreover have "mset ?ids = mset (map fst results)"
    by (rule mset_Array_sort)
  moreover have
    "sorted_wrt (\<lambda>a b. \<not> jslt (results_get results a) (results_get results b)) ?ids"
    using nn by (intro sorted_Array_sort compareResults_le)
  moreover have "\<forall>v. filter (\<lambda>k. results_get results k = v) ?ids
                    = filter (\<lambda>k. results_get results k = v) (map fst results)"
    by (intro allI filter_Array_sort compareResults_le)
  ultimately show ?thesis by blast
qed

lemma foreach_Some:
  "(\<And>s x. x \<in> set xs \<Longrightarrow> \<exists>s'. body s x = Some s') \<Longrightarrow> \<exists>s'. foreach body s xs = Some s'"
proof (induction xs arbitrary: s)
  case Nil
  then show ?case by simp
next
  case (Cons x xs)
  from Cons.prems[of x s] obtain s1 where s1: "body s x = Some s1" by auto
  from Cons.IH[of s1] Cons.prems obtain s2 where "foreach body s1 xs = Some s2" by auto
  then show ?case by (simp add: s1)
qed

lemma addScore_plain:
  assumes "Object_prototype st = []" and "d \<notin> set Object_prototype_names"
  shows "\<exists>scores'. addScore env st scores d x = Some scores'"
  using assms by (simp add: addScore_def get_property_clean split: option.splits)

lemma scoreToken_plain:
  assumes c: "Object_prototype st = []"
      and k: "\<forall>(t, r)\<in>set (invertedIndex st). \<forall>d\<in>fst ` set r. d \<notin> set Object_prototype_names"
  shows "\<exists>scores'. scoreToken env st scores token = Some scores'"
proof (cases "map_of (invertedIndex st) token")
  case None
  then show ?thesis
    by (simp add: scoreToken_def get_property_clean[OF c] c)
next
  case (Some r)
  then have "(token, r) \<in> set (invertedIndex st)" by (rule map_of_SomeD)
  with k have d: "\<forall>d\<in>fst ` set r. d \<notin> set Object_prototype_names" by blast
  have "\<exists>s'. foreach (\<lambda>scores (documentId, postings).
                     addScore env st scores documentId (termScore env st postings))
            scores r = Some s'"
  proof (rule foreach_Some)
    fix s x assume "x \<in> set r"
    with d have "fst x \<notin> set Object_prototype_names" by blast
    from addScore_plain[OF c this]
    show "\<exists>s'. (case x of (documentId, postings) \<Rightarrow>
                   addScore env st s documentId (termScore env st postings)) = Some s'"
      by (cases x) simp
  qed
  then show ?thesis
    by (simp add: scoreToken_def get_property_clean[OF c] Some for_in_def c)
qed

lemma scoreDocuments_plain:
  assumes c: "Object_prototype st = []"
      and k: "\<forall>(t, r)\<in>set (invertedIndex st). \<forall>d\<in>fst ` set r. d \<notin> set Object_prototype_names"
  shows "\<exists>scores. scoreDocuments env st q = Some scores"
  unfolding scoreDocuments_def
  by (rule foreach_Some) (rule scoreToken_plain[OF c k])

lemma queryCoordination_plain:
  assumes c: "Object_prototype st = []"
      and t: "\<forall>token\<in>set q. token \<notin> set Object_prototype_names"
  shows "\<exists>qc. queryCoordination st q d = Some qc"
proof -
  have "\<exists>m. foreach (\<lambda>m token.
                      (case matchingTerm st d token of
                         None \<Rightarrow> None
                       | Some b \<Rightarrow> Some (if b then m + 1 else m)))
                   (0::nat) q = Some m"
  proof (rule foreach_Some)
    fix s :: nat and x assume "x \<in> set q"
    with t have "x \<notin> set Object_prototype_names" by blast
    then have "\<exists>b. matchingTerm st d x = Some b"
      by (auto simp: matchingTerm_def get_property_clean[OF c] split: option.splits)
    then show "\<exists>s'. (case matchingTerm st d x of None \<Rightarrow> None
                       | Some b \<Rightarrow> Some (if b then s + 1 else s)) = Some s'"
      by auto
  qed
  then show ?thesis by (auto simp: queryCoordination_def)
qed

lemma scaleResults_Inr:
  assumes "queryIdfs \<noteq> []"
      and c: "Object_prototype st = []"
      and t: "\<forall>token\<in>set tq. token \<notin> set Object_prototype_names"
  shows "\<exists>r. scaleResults env st queryIdfs tq results = Some (Inr r) \<and> map fst r = map fst results"
proof (induction results)
  case Nil
  then show ?case by simp
next
  case (Cons p results)
  obtain d sc where p: "p = (d, sc)" by (cases p)
  from Cons obtain r where r: "scaleResults env st queryIdfs tq results = Some (Inr r)"
    "map fst r = map fst results" by auto
  from assms(1) obtain qn where qn: "queryNormalization queryIdfs = Inr qn"
    by (cases queryIdfs) (auto simp: queryNormalization_def Let_def)
  from queryCoordination_plain[OF c t] obtain qc where qc: "queryCoordination st tq d = Some qc"
    by blast
  show ?case by (simp add: p r qn qc)
qed

text \<open>
  On plain keys \<^verbatim>\<open>search\<close> returns: nothing has been added to \<^verbatim>\<open>Object.prototype\<close>, and no
  token of the query and no document identifier of the index is the name of a built-in
  property. The TypeError of \<^verbatim>\<open>reduce\<close> on an empty array needs a score to scale, and a
  query without tokens scores nothing.
\<close>

lemma search_results_plain:
  assumes c: "Object_prototype st = []"
      and t: "\<forall>token\<in>set (tokenizeNormalize env query). token \<notin> set Object_prototype_names"
      and k: "\<forall>(t, r)\<in>set (invertedIndex st). \<forall>d\<in>fst ` set r. d \<notin> set Object_prototype_names"
  shows "\<exists>results. search_results env st query = Some (Inr results)"
proof -
  from scoreDocuments_plain[OF c k] obtain scores where
    s: "scoreDocuments env st (tokenizeNormalize env query) = Some scores" by blast
  show ?thesis
  proof cases
    assume e: "tokenizeNormalize env query = []"
    with s have "scores = []" by (simp add: scoreDocuments_def)
    then show ?thesis by (simp add: search_results_def s results_for_in_def c)
  next
    assume "tokenizeNormalize env query \<noteq> []"
    then show ?thesis
      using scaleResults_Inr[of "map (inverseDocumentFrequency st) (tokenizeNormalize env query)",
          OF _ c t]
      unfolding search_results_def Let_def s by fastforce
  qed
qed

lemma search_plain:
  assumes c: "Object_prototype st = []"
      and t: "\<forall>token\<in>set (tokenizeNormalize env query). token \<notin> set Object_prototype_names"
      and k: "\<forall>(t, r)\<in>set (invertedIndex st). \<forall>d\<in>fst ` set r. d \<notin> set Object_prototype_names"
  shows "\<exists>docs. search env st query = Some (Inr docs)"
  using search_results_plain[OF assms] by (auto simp: search_def Let_def)

text \<open>
  The query \<^verbatim>\<open>cooking vacation\<close> against the index holding \<^verbatim>\<open>{title: 'cooking ideas'}\<close> and
  \<^verbatim>\<open>{title: 'vacation vacation'}\<close>, added in this order: the second document scores higher
  and comes first.
\<close>

lemma example_search_results:
  "search_results example_env example_index2 ''cooking vacation'' =
     Some (Inr [(''title=cooking ideas;'', Fin (1 / 4)),
                (''title=vacation vacation;'', Fin ((2 + ln 2) / (2 * sqrt 2)))])"
proof -
  have sc: "scoreDocuments example_env example_index2 [''cooking'', ''vacation''] =
     Some [(''title=cooking ideas;'', Number (Fin (1 / sqrt 2))),
           (''title=vacation vacation;'', Number (Fin (2 + ln 2)))]"
    unfolding scoreDocuments_def example_index2_eq
    by (simp add: scoreToken_def addScore_def for_in_def get_property_def termScore_def
        ToNumber_def arr_get_def fieldBoosts_get_def example_plain)
  have idfs:
    "map (inverseDocumentFrequency example_index2) [''cooking'', ''vacation''] = [Fin 1, Fin 1]"
    unfolding example_index2_eq by (simp add: inverseDocumentFrequency_def get_property_def)
  have qc:
    "queryCoordination example_index2 [''cooking'', ''vacation''] ''title=cooking ideas;''
       = Some (Fin (1 / 2))"
    "queryCoordination example_index2 [''cooking'', ''vacation''] ''title=vacation vacation;''
       = Some (Fin (1 / 2))"
    unfolding example_index2_eq
    by (simp_all add: queryCoordination_def matchingTerm_def get_property_def example_plain)
  have qn: "queryNormalization [Fin 1, Fin 1] = Inr (Fin (1 / sqrt 2))"
    by (simp add: queryNormalization_def)
  have q: "(1::real) / (sqrt 2 * (sqrt 2 * 2)) = 1 / 4"
    by simp
  have f: "results_for_in example_index2 scores = scores" for scores
    by (simp add: results_for_in_def example_index2_eq)
  show ?thesis
    unfolding search_results_def Let_def tokenizeNormalize_def example_terms sc idfs
    by (simp add: f qn qc q ToNumber_def)
qed

lemma example_scores_order: "(1::real) / 4 < (2 + ln 2) / (2 * sqrt 2)"
proof -
  have s: "sqrt 2 < 2" by (rule real_less_lsqrt) simp_all
  have l: "0 < ln (2::real)" by simp
  have "(1::real) / 4 * (2 * sqrt 2) = sqrt 2 / 2" by simp
  also have "\<dots> < 2 + ln 2" using s l by linarith
  finally have "(1::real) / 4 * (2 * sqrt 2) < 2 + ln 2" .
  then show ?thesis by (simp add: pos_less_divide_eq)
qed

lemma example_search:
  "search example_env example_index2 ''cooking vacation'' =
     Some (Inr [Own [(''title'', Str ''vacation vacation'')],
                Own [(''title'', Str ''cooking ideas'')]])"
  unfolding search_def example_search_results
  using example_scores_order
  by (simp add: Array_sort_def compareResults_def results_get_def documentStore_get_def
      get_property_def example_index2_eq)

theorem search_sorted_stable_witness:
  "search_results example_env example_index2 ''cooking vacation'' =
     Some (Inr [(''title=cooking ideas;'', Fin (1 / 4)),
                (''title=vacation vacation;'', Fin ((2 + ln 2) / (2 * sqrt 2)))])
   \<and> Fin (1 / 4) \<noteq> NaN \<and> Fin ((2 + ln 2) / (2 * sqrt 2)) \<noteq> NaN
   \<and> (\<exists>ids. search example_env example_index2 ''cooking vacation''
               = Some (Inr (map (documentStore_get example_index2) ids))
           \<and> mset ids = mset [''title=cooking ideas;'', ''title=vacation vacation;'']
           \<and> sorted_wrt (\<lambda>a b. \<not> jslt
                 (results_get [(''title=cooking ideas;'', Fin (1 / 4)),
                    (''title=vacation vacation;'', Fin ((2 + ln 2) / (2 * sqrt 2)))] a)
                 (results_get [(''title=cooking ideas;'', Fin (1 / 4)),
                    (''title=vacation vacation;'', Fin ((2 + ln 2) / (2 * sqrt 2)))] b)) ids)"
proof -
  have nn: "\<forall>k\<in>set (map fst [(''title=cooking ideas;'', Fin (1 / 4)),
          (''title=vacation vacation;'', Fin ((2 + ln 2) / (2 * sqrt 2)))]).
     results_get [(''title=cooking ideas;'', Fin (1 / 4)),
          (''title=vacation vacation;'', Fin ((2 + ln 2) / (2 * sqrt 2)))] k \<noteq> NaN"
    by (simp add: results_get_def)
  show ?thesis
    using search_sorted_stable[OF example_search_results nn] example_search_results
    by auto
qed

subsection \<open>Indexing a document on plain keys\<close>

lemma tokenizeField_frame:
  "tokenizeField_own env (td0, st) entry = (td, st1) \<Longrightarrow>
   invertedIndex st1 = invertedIndex st \<and> documentStore st1 = documentStore st"
  by (cases entry) (auto simp: tokenizeField_own_def Let_def split: if_splits jsval.splits)

lemma tokenizeFields_foldl_frame:
  "foldl (tokenizeField_own env) (td0, st) document = (td, st1) \<Longrightarrow>
   invertedIndex st1 = invertedIndex st \<and> documentStore st1 = documentStore st"
proof (induction document arbitrary: td0 st)
  case Nil
  then show ?case by simp
next
  case (Cons p document)
  obtain td' st' where s: "tokenizeField_own env (td0, st) p = (td', st')"
    by fastforce
  from Cons.prems have "foldl (tokenizeField_own env) (td', st') document = (td, st1)"
    by (simp add: s)
  from Cons.IH[OF this] tokenizeField_frame[OF s] show ?case by simp
qed

lemma tokenizeFields_frame:
  "tokenizeFields_own env document st = (td, st1) \<Longrightarrow>
   invertedIndex st1 = invertedIndex st \<and> documentStore st1 = documentStore st"
  unfolding tokenizeFields_own_def by (rule tokenizeFields_foldl_frame)

lemma indexOccurrence_own_triple:
  "indexOccurrence_own env d st (field, tokens, token) = indexToken_own env d field tokens st token"
  by (simp add: indexOccurrence_own_def)

lemma foldl_occurrences:
  "foldl (\<lambda>s (field, tokens). foldl (indexToken_own env d field tokens) s tokens) st td
   = foldl (indexOccurrence_own env d) st (occurrences td)"
proof (induction td arbitrary: st)
  case Nil
  then show ?case by (simp add: occurrences_def)
next
  case (Cons p td)
  obtain field tokens where p: "p = (field, tokens)" by (cases p)
  have inner: "foldl (indexOccurrence_own env d) s (map (\<lambda>token. (field, tokens, token)) ts)
                 = foldl (indexToken_own env d field tokens) s ts" for s ts
    by (induction ts arbitrary: s) (simp_all add: indexOccurrence_own_triple)
  have "occurrences (p # td) = map (\<lambda>token. (field, tokens, token)) tokens @ occurrences td"
    by (simp add: occurrences_def p)
  then show ?case
    using Cons.IH by (simp add: p inner)
qed

lemma addDocument_occurrences:
  assumes "tokenizeFields_own env document
             (st\<lparr>documentStore := AList.update documentId document (documentStore st)\<rparr>)
           = (tokenizedDocument, st1)"
      and "documentId = md5 env (JSON_stringify env (Obj document))"
  shows "addDocument_own env document st
         = foldl (indexOccurrence_own env documentId) st1 (occurrences tokenizedDocument)"
  using assms by (simp add: addDocument_own_def indexDocument_own_def Let_def foldl_occurrences)

lemma indexToken_frame:
  "documentStore (indexToken_own env d field tokens st token) = documentStore st \<and>
   fields' (indexToken_own env d field tokens st token) = fields' st"
  by (simp add: indexToken_own_def Let_def split: option.splits)

lemma postings_of_indexToken:
  "postings_of (indexToken_own env d field tokens st token) t' d' =
     (if token \<notin> set (stopwords env) \<and> t' = token \<and> d' = d
      then postings_of st token d @
             [[Number (termFrequency token tokens), Number (inverseDocumentFrequency_own st token),
               Number (fieldLengthNormalization tokens), fields_get_own st field]]
      else postings_of st t' d')"
  by (auto simp: indexToken_own_def postings_of_def Let_def AList.update_conv' split: option.splits)

lemma wf_index_indexToken:
  "wf_index st \<Longrightarrow> wf_index (indexToken_own env d field tokens st token)"
  unfolding wf_index_def indexToken_own_def Let_def
  by (auto simp: AList.update_conv' AList.distinct_update split: option.splits if_splits)

lemma documents_holding_indexToken:
  "documents_holding (indexToken_own env d field tokens st token) t =
     documents_holding st t \<union> (if token \<notin> set (stopwords env) \<and> t = token then {d} else {})"
  unfolding documents_holding_def by (auto simp: postings_of_indexToken)

lemma foldl_indexOccurrence_frame:
  "documentStore (foldl (indexOccurrence_own env d) st occs) = documentStore st \<and>
   fields' (foldl (indexOccurrence_own env d) st occs) = fields' st"
  by (induction occs arbitrary: st) (auto simp: indexOccurrence_own_triple indexToken_frame)

lemma wf_index_foldl:
  "wf_index st \<Longrightarrow> wf_index (foldl (indexOccurrence_own env d) st occs)"
  by (induction occs arbitrary: st) (auto simp: indexOccurrence_own_triple wf_index_indexToken)

lemma documents_holding_foldl:
  "documents_holding (foldl (indexOccurrence_own env d) st occs) t =
     documents_holding st t \<union>
       (if t \<notin> set (stopwords env) \<and> t \<in> set (map (snd \<circ> snd) occs) then {d} else {})"
proof (induction occs arbitrary: st)
  case Nil
  then show ?case by simp
next
  case (Cons occ occs)
  obtain field tokens token where occ: "occ = (field, tokens, token)"
    using prod_cases3 by blast
  show ?case
    by (auto simp: Cons.IH occ indexOccurrence_own_triple documents_holding_indexToken)
qed

lemma numDocumentsContainTerm_card:
  assumes "wf_index st"
  shows "(case map_of (invertedIndex st) t of Some r \<Rightarrow> length r | None \<Rightarrow> 0)
         = card (documents_holding st t)"
proof cases
  assume "map_of (invertedIndex st) t = None"
  then show ?thesis by (simp add: documents_holding_def postings_of_def)
next
  assume "map_of (invertedIndex st) t \<noteq> None"
  then obtain r where Some: "map_of (invertedIndex st) t = Some r" by auto
  with assms have d: "distinct (map fst r)" and ne: "\<And>d ps. map_of r d = Some ps \<Longrightarrow> ps \<noteq> []"
    unfolding wf_index_def by blast+
  have "documents_holding st t = set (map fst r)"
  proof (rule set_eqI)
    fix x
    show "x \<in> documents_holding st t \<longleftrightarrow> x \<in> set (map fst r)"
    proof cases
      assume n: "map_of r x = None"
      then have "x \<notin> fst ` set r" by (simp add: map_of_eq_None_iff)
      with n show ?thesis by (simp add: documents_holding_def postings_of_def Some)
    next
      assume "map_of r x \<noteq> None"
      then obtain ps where ps: "map_of r x = Some ps" by auto
      then have "x \<in> fst ` set r" by (metis map_of_eq_None_iff option.distinct(1))
      with ps ne[OF ps] show ?thesis by (simp add: documents_holding_def postings_of_def Some)
    qed
  qed
  moreover from d have "length (map fst r) = card (set (map fst r))"
    by (simp only: distinct_card)
  ultimately show ?thesis by (simp add: Some)
qed

lemma Math_log_pos: "0 < a \<Longrightarrow> Math_log (Fin a) = Fin (ln a)"
  by simp

lemma idf_value:
  assumes "0 < n"
  shows "jsadd (Fin 1) (Math_log (jsdiv (Fin (real n)) (Fin (real (k + 1)))))
         = Fin (1 + ln (real n / real (k + 1)))"
proof -
  have p: "0 < real n / real (k + 1)" using assms by simp
  have "jsdiv (Fin (real n)) (Fin (real (k + 1))) = Fin (real n / real (k + 1))" by simp
  then show ?thesis by (simp only: Math_log_pos[OF p] jsadd.simps)
qed

lemma inverseDocumentFrequency_formula:
  assumes wf: "wf_index st" and ne: "documentStore st \<noteq> []"
  shows "inverseDocumentFrequency_own st t =
           Fin (1 + ln (real (card (fst ` set (documentStore st)))
                        / real (card (documents_holding st t) + 1)))"
proof -
  from wf have "distinct (map fst (documentStore st))" by (simp add: wf_index_def)
  then have n: "length (documentStore st) = card (fst ` set (documentStore st))"
    by (metis distinct_card length_map set_map)
  from ne have pos: "0 < length (documentStore st)" by simp
  show ?thesis
    unfolding inverseDocumentFrequency_own_def Let_def length_map
    unfolding numDocumentsContainTerm_card[OF wf] n[symmetric]
    by (rule idf_value[OF pos])
qed

lemma wf_index_cong:
  assumes "invertedIndex s' = invertedIndex s" and "documentStore s' = documentStore s"
  shows "wf_index s' = wf_index s"
  unfolding wf_index_def assms ..

lemma wf_index_constructor: "wf_index (constructor added)"
  by (simp add: wf_index_def constructor_def)

lemma wf_index_documentStore_update:
  assumes "wf_index st"
  shows "wf_index (st\<lparr>documentStore := AList.update d document (documentStore st)\<rparr>)"
proof -
  from assms have "distinct (map fst (AList.update d document (documentStore st)))"
    by (simp only: wf_index_def AList.distinct_update)
  with assms show ?thesis
    unfolding wf_index_def by simp
qed

lemma wf_index_addDocument:
  assumes "wf_index st"
  shows "wf_index (addDocument_own env document st)"
proof -
  define d where "d = md5 env (JSON_stringify env (Obj document))"
  obtain td st1 where tf:
    "tokenizeFields_own env document
       (st\<lparr>documentStore := AList.update d document (documentStore st)\<rparr>) = (td, st1)"
    by fastforce
  have "wf_index (st\<lparr>documentStore := AList.update d document (documentStore st)\<rparr>)"
    using assms by (rule wf_index_documentStore_update)
  moreover have "wf_index st1 =
      wf_index (st\<lparr>documentStore := AList.update d document (documentStore st)\<rparr>)"
    using tokenizeFields_frame[OF tf] by (intro wf_index_cong) blast+
  ultimately have "wf_index st1" by blast
  then have "wf_index (foldl (indexOccurrence_own env d) st1 (occurrences td))"
    by (rule wf_index_foldl)
  then show ?thesis
    by (simp only: addDocument_occurrences[OF tf d_def])
qed

lemma termFrequency_value:
  "termFrequency token tokens = Fin (sqrt (real (count_list tokens token)))"
proof -
  have "length (filter (\<lambda>t. t = token) tokens) = count_list tokens token"
    by (induction tokens) auto
  then show ?thesis by (simp add: termFrequency_def)
qed

lemma fieldLengthNormalization_value:
  "tokens \<noteq> [] \<Longrightarrow> fieldLengthNormalization tokens = Fin (1 / sqrt (real (length tokens)))"
  by (simp add: fieldLengthNormalization_def)

lemma tokenizeField_registered:
  assumes "\<forall>field\<in>fst ` set (fst acc). map_of (fields' (snd acc)) field \<noteq> None"
  shows "\<forall>field\<in>fst ` set (fst (tokenizeField_own env acc entry)).
           map_of (fields' (snd (tokenizeField_own env acc entry))) field \<noteq> None"
proof -
  obtain td s where acc: "acc = (td, s)" by fastforce
  obtain f v where entry: "entry = (f, v)" by fastforce
  show ?thesis
    using assms unfolding acc entry
    by (cases v)
       (auto simp: tokenizeField_own_def Let_def AList.update_conv' AList.dom_update
             split: if_splits)
qed

lemma tokenizeFields_foldl_registered:
  "\<forall>field\<in>fst ` set (fst acc). map_of (fields' (snd acc)) field \<noteq> None \<Longrightarrow>
   \<forall>field\<in>fst ` set (fst (foldl (tokenizeField_own env) acc document)).
      map_of (fields' (snd (foldl (tokenizeField_own env) acc document))) field \<noteq> None"
proof (induction document arbitrary: acc)
  case Nil
  then show ?case by simp
next
  case (Cons entry document)
  from tokenizeField_registered[OF Cons.prems]
  have "\<forall>field\<in>fst ` set (fst (tokenizeField_own env acc entry)).
           map_of (fields' (snd (tokenizeField_own env acc entry))) field \<noteq> None" .
  from Cons.IH[OF this] show ?case by simp
qed

lemma tokenizeFields_registered:
  assumes "tokenizeFields_own env document st = (td, st1)" and "(field, tokens) \<in> set td"
  shows "\<exists>i. map_of (fields' st1) field = Some i"
proof -
  have "\<forall>field\<in>fst ` set (fst (foldl (tokenizeField_own env) ([], st) document)).
      map_of (fields' (snd (foldl (tokenizeField_own env) ([], st) document))) field \<noteq> None"
    by (rule tokenizeFields_foldl_registered) simp
  with assms(1) have "\<forall>field\<in>fst ` set td. map_of (fields' st1) field \<noteq> None"
    by (simp add: tokenizeFields_own_def)
  with assms(2) show ?thesis by force
qed

lemma index_time_idf_own:
  assumes wf: "wf_index st"
      and id: "documentId = md5 env (JSON_stringify env (Obj document))"
      and tf: "tokenizeFields_own env document
                 (st\<lparr>documentStore := AList.update documentId document (documentStore st)\<rparr>)
               = (tokenizedDocument, st1)"
      and occ: "occurrences tokenizedDocument = pre @ (field, tokens, token) # post"
      and ns: "token \<notin> set (stopwords env)"
  defines "s \<equiv> foldl (indexOccurrence_own env documentId) st1 pre"
  shows "addDocument_own env document st
           = foldl (indexOccurrence_own env documentId)
               (indexToken_own env documentId field tokens s token) post
         \<and> (\<exists>tf fln fid.
               postings_of (indexToken_own env documentId field tokens s token) token documentId
               = postings_of s token documentId @
                   [[tf,
                     Number (Fin (1 + ln (real (card (insert documentId
                                                       (fst ` set (documentStore st))))
                                          / real (card (documents_holding st token \<union>
                                                        (if token \<in> set (map (snd \<circ> snd) pre)
                                                         then {documentId} else {})) + 1)))),
                     fln, fid]])"
proof -
  let ?st0 = "st\<lparr>documentStore := AList.update documentId document (documentStore st)\<rparr>"
  have wf0: "wf_index ?st0"
    using wf by (rule wf_index_documentStore_update)
  have fr0: "invertedIndex st1 = invertedIndex ?st0" "documentStore st1 = documentStore ?st0"
    using tokenizeFields_frame[OF tf] by blast+
  have fr: "invertedIndex st1 = invertedIndex st"
           "documentStore st1 = AList.update documentId document (documentStore st)"
    using fr0 by simp_all
  have wf1: "wf_index st1"
    using wf0 wf_index_cong[OF fr0] by blast
  have wfs: "wf_index s"
    unfolding s_def using wf1 by (rule wf_index_foldl)
  have ds: "documentStore s = AList.update documentId document (documentStore st)"
    unfolding s_def by (simp only: foldl_indexOccurrence_frame fr)
  then have ne: "documentStore s \<noteq> []" by simp
  have n: "fst ` set (documentStore s) = insert documentId (fst ` set (documentStore st))"
    by (simp add: ds AList.dom_update)
  have "documents_holding st1 token = documents_holding st token"
    unfolding documents_holding_def postings_of_def fr ..
  then have dh: "documents_holding s token =
             documents_holding st token \<union>
               (if token \<in> set (map (snd \<circ> snd) pre) then {documentId} else {})"
    unfolding s_def using ns by (simp add: documents_holding_foldl)
  have idf: "inverseDocumentFrequency_own s token =
               Fin (1 + ln (real (card (insert documentId (fst ` set (documentStore st))))
                            / real (card (documents_holding st token \<union>
                                          (if token \<in> set (map (snd \<circ> snd) pre)
                                           then {documentId} else {})) + 1)))"
    using inverseDocumentFrequency_formula[OF wfs ne, of token] by (simp only: n dh)
  have a: "addDocument_own env document st
           = foldl (indexOccurrence_own env documentId)
               (indexToken_own env documentId field tokens s token) post"
    using addDocument_occurrences[OF tf id]
    by (simp add: occ s_def indexOccurrence_own_triple)
  have p: "postings_of (indexToken_own env documentId field tokens s token) token documentId
               = postings_of s token documentId @
                   [[Number (termFrequency token tokens), Number (inverseDocumentFrequency_own s token),
                     Number (fieldLengthNormalization tokens), fields_get_own s field]]"
    using ns by (simp add: postings_of_indexToken)
  show ?thesis
    by (rule conjI[OF a]) (intro exI, rule p[unfolded idf])
qed

subsection \<open>Indexing a document: the engine agrees with its run on plain keys\<close>

lemma foreach_append:
  "foreach body s (xs @ ys) =
     (case foreach body s xs of None \<Rightarrow> None | Some s' \<Rightarrow> foreach body s' ys)"
  by (induction xs arbitrary: s) (simp_all split: option.splits)

lemma indexOccurrence_triple:
  "indexOccurrence env d st (field, tokens, token) = indexToken env d field tokens st token"
  by (simp add: indexOccurrence_def)

lemma foreach_occurrences:
  "foreach (\<lambda>s (field, tokens). foreach (indexToken env d field tokens) s tokens) st td
   = foreach (indexOccurrence env d) st (occurrences td)"
proof (induction td arbitrary: st)
  case Nil
  then show ?case by (simp add: occurrences_def)
next
  case (Cons p td)
  obtain field tokens where p: "p = (field, tokens)" by (cases p)
  have inner: "foreach (indexOccurrence env d) s (map (\<lambda>token. (field, tokens, token)) ts)
                 = foreach (indexToken env d field tokens) s ts" for s ts
    by (induction ts arbitrary: s) (simp_all add: indexOccurrence_triple split: option.splits)
  have "occurrences (p # td) = map (\<lambda>token. (field, tokens, token)) tokens @ occurrences td"
    by (simp add: occurrences_def p)
  then show ?case
    using Cons.IH by (simp add: p inner foreach_append split: option.splits)
qed

lemma inverseDocumentFrequency_plain:
  assumes "Object_prototype st = []"
      and "token \<notin> set Object_prototype_names"
  shows "inverseDocumentFrequency st token = inverseDocumentFrequency_own st token"
  using assms
  by (simp add: inverseDocumentFrequency_def inverseDocumentFrequency_own_def get_property_clean
      split: option.splits)

lemma tokenizeField_plain:
  assumes "Object_prototype s = []" and "field \<notin> set Object_prototype_names"
  shows "tokenizeField env (td, s) (field, v) = Some (tokenizeField_own env (td, s) (field, v))"
proof -
  have "(get_property s (fields' s) field = Absent) = (map_of (fields' s) field = None)"
    using assms by (simp add: get_property_clean split: option.splits)
  moreover have "field \<noteq> ''__proto__''"
    using assms(2) by (auto simp: Object_prototype_names_def)
  ultimately show ?thesis
    by (cases v) (simp_all add: tokenizeField_def tokenizeField_own_def Let_def)
qed

lemma tokenizeField_own_clean:
  "Object_prototype (snd (tokenizeField_own env (td, s) entry)) = Object_prototype s"
  by (cases entry) (auto simp: tokenizeField_own_def Let_def split: jsval.splits)

lemma tokenizeFields_foreach_plain:
  assumes "\<forall>field\<in>fst ` set document. field \<notin> set Object_prototype_names"
  shows "Object_prototype s = [] \<Longrightarrow>
         foreach (tokenizeField env) (td, s) document
           = Some (foldl (tokenizeField_own env) (td, s) document)"
  using assms
proof (induction document arbitrary: td s)
  case Nil
  then show ?case by simp
next
  case (Cons entry document)
  obtain field v where entry: "entry = (field, v)" by (cases entry)
  obtain td' s' where o: "tokenizeField_own env (td, s) (field, v) = (td', s')" by fastforce
  from Cons.prems have f: "field \<notin> set Object_prototype_names" by (simp add: entry)
  have c: "Object_prototype s' = []"
    using tokenizeField_own_clean[of env td s "(field, v)"] Cons.prems(1) by (simp add: o)
  from Cons.prems have r: "\<forall>field\<in>fst ` set document. field \<notin> set Object_prototype_names"
    by simp
  show ?case
    using Cons.IH[OF c r, of td'] tokenizeField_plain[OF Cons.prems(1) f, of env td v]
    by (simp add: entry o)
qed

lemma tokenizeFields_plain:
  assumes "Object_prototype st = []"
      and "\<forall>field\<in>fst ` set document. field \<notin> set Object_prototype_names"
  shows "tokenizeFields env document st = Some (tokenizeFields_own env document st)"
  unfolding tokenizeFields_def tokenizeFields_own_def
  by (rule tokenizeFields_foreach_plain[OF assms(2) assms(1)])

lemma tokenizeFields_own_clean:
  "tokenizeFields_own env document st = (td, st1) \<Longrightarrow> Object_prototype st1 = Object_prototype st"
proof -
  have "Object_prototype (snd (foldl (tokenizeField_own env) acc document))
        = Object_prototype (snd acc)" for acc
  proof (induction document arbitrary: acc)
    case Nil
    then show ?case by simp
  next
    case (Cons entry document)
    obtain td s where acc: "acc = (td, s)" by (cases acc)
    show ?case
      using Cons.IH[of "tokenizeField_own env acc entry"]
        tokenizeField_own_clean[of env td s entry]
      by (simp add: acc)
  qed
  from this[of "([], st)"] show "tokenizeFields_own env document st = (td, st1)
    \<Longrightarrow> Object_prototype st1 = Object_prototype st"
    by (simp add: tokenizeFields_own_def)
qed

lemma indexToken_plain:
  assumes c: "Object_prototype s = []"
      and t: "token \<in> set (stopwords env) \<or> token \<notin> set Object_prototype_names"
      and d: "d \<notin> set Object_prototype_names"
      and f: "map_of (fields' s) field = Some i"
  shows "indexToken env d field tokens s token = Some (indexToken_own env d field tokens s token)"
proof cases
  assume "token \<in> set (stopwords env)"
  then show ?thesis by (simp add: indexToken_def indexToken_own_def)
next
  assume ns: "token \<notin> set (stopwords env)"
  with t have p: "token \<notin> set Object_prototype_names" by blast
  have fg: "fields_get s field = Some (fields_get_own s field)"
    by (simp add: fields_get_def fields_get_own_def get_property_def f)
  show ?thesis
    using ns p d
    by (simp add: indexToken_def indexToken_own_def fg Let_def get_property_clean[OF c]
        inverseDocumentFrequency_plain[OF c p] split: option.splits)
qed

lemma indexToken_own_clean:
  "Object_prototype (indexToken_own env d field tokens s token) = Object_prototype s"
  by (simp add: indexToken_own_def Let_def split: option.splits)

lemma foreach_indexOccurrence_plain:
  assumes d: "d \<notin> set Object_prototype_names"
  shows "Object_prototype s = [] \<Longrightarrow>
         \<forall>(field, tokens, token)\<in>set occs.
            (token \<in> set (stopwords env) \<or> token \<notin> set Object_prototype_names) \<and>
            map_of (fields' s) field \<noteq> None \<Longrightarrow>
         foreach (indexOccurrence env d) s occs
           = Some (foldl (indexOccurrence_own env d) s occs)"
proof (induction occs arbitrary: s)
  case Nil
  then show ?case by simp
next
  case (Cons occ occs)
  obtain field tokens token where occ: "occ = (field, tokens, token)"
    using prod_cases3 by blast
  from Cons.prems(2) obtain i where
    t: "token \<in> set (stopwords env) \<or> token \<notin> set Object_prototype_names"
    and f: "map_of (fields' s) field = Some i"
    by (auto simp: occ)
  let ?s' = "indexToken_own env d field tokens s token"
  have c': "Object_prototype ?s' = []"
    using Cons.prems(1) by (simp add: indexToken_own_clean)
  have ff: "fields' ?s' = fields' s"
    by (simp add: indexToken_frame)
  have r: "\<forall>(field, tokens, token)\<in>set occs.
            (token \<in> set (stopwords env) \<or> token \<notin> set Object_prototype_names) \<and>
            map_of (fields' ?s') field \<noteq> None"
    using Cons.prems(2) by (simp add: ff)
  show ?case
    using Cons.IH[OF c' r] indexToken_plain[OF Cons.prems(1) t d f, of tokens]
    by (simp add: occ indexOccurrence_def indexOccurrence_own_def)
qed

lemma foldl_indexOccurrence_own_clean:
  "Object_prototype (foldl (indexOccurrence_own env d) st occs) = Object_prototype st"
  by (induction occs arbitrary: st)
     (auto simp: indexOccurrence_own_def indexToken_own_clean split: prod.splits)

lemma occurrences_fields:
  "(field, tokens, token) \<in> set (occurrences td) \<Longrightarrow> (field, tokens) \<in> set td"
  by (auto simp: occurrences_def)

text \<open>
  The run of \<^verbatim>\<open>addDocument\<close> on plain keys, cut at one token occurrence: the engine follows
  the run on own properties through the occurrences before it, at it and after it.
\<close>

lemma addDocument_plain:
  assumes clean: "Object_prototype st = []"
      and id: "documentId = md5 env (JSON_stringify env (Obj document))"
      and pid: "documentId \<notin> set Object_prototype_names"
      and pf: "\<forall>field\<in>fst ` set document. field \<notin> set Object_prototype_names"
      and tf: "tokenizeFields env document
                 (st\<lparr>documentStore := AList.update documentId document (documentStore st)\<rparr>)
               = Some (tokenizedDocument, st1)"
      and pt: "\<forall>(field, tokens, token)\<in>set (occurrences tokenizedDocument).
                 token \<in> set (stopwords env) \<or> token \<notin> set Object_prototype_names"
      and occ: "occurrences tokenizedDocument = pre @ (field, tokens, token) # post"
  defines "s \<equiv> foldl (indexOccurrence_own env documentId) st1 pre"
  shows "tokenizeFields_own env document
           (st\<lparr>documentStore := AList.update documentId document (documentStore st)\<rparr>)
         = (tokenizedDocument, st1)"
    and "Object_prototype s = []"
    and "foreach (indexOccurrence env documentId) st1 pre = Some s"
    and "indexToken env documentId field tokens s token
         = Some (indexToken_own env documentId field tokens s token)"
    and "foreach (indexOccurrence env documentId)
           (indexToken_own env documentId field tokens s token) post
         = Some (addDocument_own env document st)"
    and "addDocument env document st = Some (addDocument_own env document st)"
proof -
  let ?st0 = "st\<lparr>documentStore := AList.update documentId document (documentStore st)\<rparr>"
  let ?s' = "indexToken_own env documentId field tokens s token"
  have c0: "Object_prototype ?st0 = []" using clean by simp
  show own: "tokenizeFields_own env document ?st0 = (tokenizedDocument, st1)"
    using tokenizeFields_plain[OF c0 pf, of env] tf by simp
  have c1: "Object_prototype st1 = []"
    using tokenizeFields_own_clean[OF own] c0 by simp
  show cs: "Object_prototype s = []"
    unfolding s_def by (simp add: foldl_indexOccurrence_own_clean c1)
  have cs': "Object_prototype ?s' = []"
    by (simp add: indexToken_own_clean cs)
  have reg: "\<exists>i. map_of (fields' st1) f = Some i"
    if "(f, ts, t) \<in> set (occurrences tokenizedDocument)" for f ts t
    using tokenizeFields_registered[OF own occurrences_fields[OF that]] .
  have fs: "fields' s = fields' st1"
    unfolding s_def by (simp only: foldl_indexOccurrence_frame)
  have fs': "fields' ?s' = fields' st1"
    by (simp add: indexToken_frame fs)
  have h: "\<forall>(f, ts, t)\<in>set occs.
            (t \<in> set (stopwords env) \<or> t \<notin> set Object_prototype_names) \<and>
            map_of (fields' x) f \<noteq> None"
    if "set occs \<subseteq> set (occurrences tokenizedDocument)" "fields' x = fields' st1" for occs x
    using that pt reg by fastforce
  show pre: "foreach (indexOccurrence env documentId) st1 pre = Some s"
    unfolding s_def
    by (rule foreach_indexOccurrence_plain[OF pid c1 h]) (auto simp: occ)
  from reg[of field tokens token] obtain i where i: "map_of (fields' s) field = Some i"
    by (auto simp: occ fs)
  from pt have t: "token \<in> set (stopwords env) \<or> token \<notin> set Object_prototype_names"
    by (auto simp: occ)
  show at: "indexToken env documentId field tokens s token = Some ?s'"
    by (rule indexToken_plain[OF cs t pid i])
  have a: "addDocument_own env document st
           = foldl (indexOccurrence_own env documentId) ?s' post"
    using addDocument_occurrences[OF own id]
    by (simp add: occ s_def indexOccurrence_own_triple)
  show post: "foreach (indexOccurrence env documentId) ?s' post
              = Some (addDocument_own env document st)"
    unfolding a
    by (rule foreach_indexOccurrence_plain[OF pid cs' h]) (auto simp: occ fs')
  have np: "documentId \<noteq> ''__proto__''"
    using pid by (auto simp: Object_prototype_names_def)
  have "addDocument env document st
        = foreach (indexOccurrence env documentId) st1 (occurrences tokenizedDocument)"
    using np by (simp add: addDocument_def Let_def id[symmetric] indexDocument_def tf c1
        foreach_occurrences)
  then show "addDocument env document st = Some (addDocument_own env document st)"
    by (simp add: occ foreach_append pre indexOccurrence_triple at post)
qed

lemma wf_example_index1: "wf_index example_index1"
  by (auto simp: wf_index_def example_index1_eq split: if_splits)

lemma example_documents_holding:
  "documents_holding example_index1 ''vacation'' = {}"
  by (simp add: documents_holding_def postings_of_def example_index1_eq)

lemma example_tokenizeFields:
  "tokenizeFields example_env [(''title'', Str ''vacation vacation'')]
     (example_index1\<lparr>documentStore :=
        AList.update ''title=vacation vacation;'' [(''title'', Str ''vacation vacation'')]
          (documentStore example_index1)\<rparr>)
   = Some ([(''title'', [''vacation'', ''vacation''])],
      example_index1\<lparr>documentStore :=
        AList.update ''title=vacation vacation;'' [(''title'', Str ''vacation vacation'')]
          (documentStore example_index1)\<rparr>)"
  unfolding example_index1_eq
  by (simp add: tokenizeFields_def tokenizeField_def tokenizeNormalize_def example_terms
      get_property_def)

text \<open>
  C1, as the in-memory engine (index.bak.js) has it. \<^verbatim>\<open>addDocument\<close> stores the document
  and then visits the token occurrences of its string fields in order; the state \<open>s\<close> is
  the index when the loop reaches the occurrence \<open>(field, tokens, token)\<close>, after the
  occurrences \<open>pre\<close> and before the occurrences \<open>post\<close>. For a token that is not a
  stopword the loop appends one posting for the token and the document, and the IDF in it
  is \<open>1 + ln (N / (df + 1))\<close>, where \<open>N\<close> is the number of distinct documents in the
  document store, the document being added included, and \<open>df\<close> is the number of distinct
  documents holding a posting of the token at that moment: those that held one before this
  call, and the document being added itself once an earlier occurrence of the token in it
  has been indexed. So \<open>df\<close> is the document frequency from before the document's
  postings only at the token's first occurrence in the document. This is so when nothing
  has been added to \<^verbatim>\<open>Object.prototype\<close> and neither the document identifier nor a field
  name nor an indexed token of the document is the name of one of its built-in
  properties: the run then reads and writes own properties only, and \<^verbatim>\<open>addDocument\<close>
  returns. (The persistent engine's \<^verbatim>\<open>_inverseDocumentFrequency\<close> is not covered: see
  \<open>p_inverseDocumentFrequency_seen\<close>.)
\<close>

theorem index_time_idf:
  assumes clean: "Object_prototype st = []"
      and wf: "wf_index st"
      and id: "documentId = md5 env (JSON_stringify env (Obj document))"
      and pid: "documentId \<notin> set Object_prototype_names"
      and pf: "\<forall>field\<in>fst ` set document. field \<notin> set Object_prototype_names"
      and tf: "tokenizeFields env document
                 (st\<lparr>documentStore := AList.update documentId document (documentStore st)\<rparr>)
               = Some (tokenizedDocument, st1)"
      and pt: "\<forall>(field, tokens, token)\<in>set (occurrences tokenizedDocument).
                 token \<in> set (stopwords env) \<or> token \<notin> set Object_prototype_names"
      and occ: "occurrences tokenizedDocument = pre @ (field, tokens, token) # post"
      and ns: "token \<notin> set (stopwords env)"
  shows "\<exists>s s' final.
           foreach (indexOccurrence env documentId) st1 pre = Some s
         \<and> indexToken env documentId field tokens s token = Some s'
         \<and> foreach (indexOccurrence env documentId) s' post = Some final
         \<and> addDocument env document st = Some final
         \<and> (\<exists>tf fln fid.
               postings_of s' token documentId
               = postings_of s token documentId @
                   [[tf,
                     Number (Fin (1 + ln (real (card (insert documentId
                                                       (fst ` set (documentStore st))))
                                          / real (card (documents_holding st token \<union>
                                                        (if token \<in> set (map (snd \<circ> snd) pre)
                                                         then {documentId} else {})) + 1)))),
                     fln, fid]])"
proof -
  note p = addDocument_plain[OF clean id pid pf tf pt occ]
  note o = index_time_idf_own[OF wf id p(1) occ ns]
  show ?thesis
    using p(3) p(4) p(5) p(6) conjunct2[OF o] by blast
qed

text \<open>
  The document \<^verbatim>\<open>{title: 'vacation vacation'}\<close> added to the index holding
  \<^verbatim>\<open>{title: 'cooking ideas'}\<close>, at the second occurrence of \<^verbatim>\<open>vacation\<close>: two documents
  are stored, and one document, the one being added, holds the token.
\<close>

theorem index_time_idf_witness:
  "Object_prototype example_index1 = [] \<and> wf_index example_index1 \<and>
   ''title=vacation vacation;'' \<notin> set Object_prototype_names \<and>
   ''title'' \<notin> set Object_prototype_names \<and>
   ''vacation'' \<notin> set Object_prototype_names \<and>
   ''vacation'' \<notin> set (stopwords example_env) \<and>
   addDocument example_env [(''title'', Str ''vacation vacation'')] example_index1
     = Some example_index2 \<and>
   (\<exists>ps tf fln fid.
      postings_of example_index2 ''vacation'' ''title=vacation vacation;''
      = ps @ [[tf, Number (Fin (1 + ln (real (card {''title=vacation vacation;'',
                                                     ''title=cooking ideas;''})
                                        / real (card {''title=vacation vacation;''} + 1)))),
               fln, fid]])"
proof -
  have id: "''title=vacation vacation;'' =
            md5 example_env (JSON_stringify example_env (Obj [(''title'', Str ''vacation vacation'')]))"
    by (simp add: example_env_simps)
  have pf: "\<forall>field\<in>fst ` set [(''title'', Str ''vacation vacation'')].
              field \<notin> set Object_prototype_names"
    by (simp add: example_plain)
  have pt: "\<forall>(field, tokens, token)\<in>set (occurrences [(''title'', [''vacation'', ''vacation''])]).
                 token \<in> set (stopwords example_env) \<or> token \<notin> set Object_prototype_names"
    by (simp add: occurrences_def example_plain)
  have occ: "occurrences [(''title'', [''vacation'', ''vacation''])] =
             [(''title'', [''vacation'', ''vacation''], ''vacation'')]
             @ (''title'', [''vacation'', ''vacation''], ''vacation'') # []"
    by (simp add: occurrences_def)
  have ns: "''vacation'' \<notin> set (stopwords example_env)"
    by (simp add: example_env_simps)
  have ds: "fst ` set (documentStore example_index1) = {''title=cooking ideas;''}"
    by (simp add: example_index1_eq)
  have a2: "addDocument example_env [(''title'', Str ''vacation vacation'')] example_index1
              = Some example_index2"
    by (simp add: example_add2 example_index2_eq)
  from index_time_idf[OF example_index1_clean wf_example_index1 id example_plain(7) pf
      example_tokenizeFields pt occ ns]
  obtain s s' final tf fln fid where
    f: "foreach (indexOccurrence example_env ''title=vacation vacation;'') s' [] = Some final"
    and a: "addDocument example_env [(''title'', Str ''vacation vacation'')] example_index1
            = Some final"
    and p: "postings_of s' ''vacation'' ''title=vacation vacation;''
            = postings_of s ''vacation'' ''title=vacation vacation;'' @
              [[tf, Number (Fin (1 + ln (real (card (insert ''title=vacation vacation;''
                        (fst ` set (documentStore example_index1))))
                   / real (card (documents_holding example_index1 ''vacation'' \<union>
                        (if ''vacation'' \<in> set (map (snd \<circ> snd)
                               [(''title'', [''vacation'', ''vacation''], ''vacation'')])
                         then {''title=vacation vacation;''} else {})) + 1)))),
                fln, fid]]"
    by blast
  from f a a2 have "s' = example_index2" by simp
  with p have "\<exists>ps tf fln fid.
      postings_of example_index2 ''vacation'' ''title=vacation vacation;''
      = ps @ [[tf, Number (Fin (1 + ln (real (card {''title=vacation vacation;'',
                                                     ''title=cooking ideas;''})
                                        / real (card {''title=vacation vacation;''} + 1)))),
               fln, fid]]"
    unfolding ds example_documents_holding by auto
  then show ?thesis
    using example_index1_clean wf_example_index1 ns a2 by (simp add: example_plain)
qed

text \<open>
  C1 as stated fails there: no document held \<^verbatim>\<open>vacation\<close> before the call and two
  documents are stored, but the IDF of the posting of the second occurrence is
  \<open>1 = 1 + ln (2 / 2)\<close> and not \<open>1 + ln (2 / (0 + 1))\<close>.
\<close>

theorem idf_every_occurrence_counterexample:
  "arr_get (postings_of example_index2 ''vacation'' ''title=vacation vacation;'' ! 1) 1
   \<noteq> Number (Fin (1 + ln (real (length (documentStore example_index2))
                            / real (card (documents_holding example_index1 ''vacation'') + 1))))"
proof -
  have "arr_get (postings_of example_index2 ''vacation'' ''title=vacation vacation;'' ! 1) 1
        = Number (Fin 1)"
    by (simp add: postings_of_def example_index2_eq arr_get_def)
  moreover have "length (documentStore example_index2) = 2"
    by (simp add: example_index2_eq)
  moreover have "(1::real) \<noteq> 1 + ln 2" by simp
  ultimately show ?thesis
    by (simp add: example_documents_holding)
qed

subsection \<open>The persistent engine: what the store operations touch\<close>

lemma p_indexOccurrence_triple:
  "p_indexOccurrence env d st (field, tokens, token) = p_indexToken env d tokens st token"
  by (simp add: p_indexOccurrence_def)

lemma p_foldl_occurrences:
  "foldl (\<lambda>s (field, tokens). foldl (p_indexToken env d tokens) s tokens) st td
   = foldl (p_indexOccurrence env d) st (occurrences td)"
proof (induction td arbitrary: st)
  case Nil
  then show ?case by (simp add: occurrences_def)
next
  case (Cons p td)
  obtain field tokens where p: "p = (field, tokens)" by (cases p)
  have inner: "foldl (p_indexOccurrence env d) s (map (\<lambda>token. (field, tokens, token)) ts)
                 = foldl (p_indexToken env d tokens) s ts" for s ts
    by (induction ts arbitrary: s) (simp_all add: p_indexOccurrence_triple)
  have "occurrences (p # td) = map (\<lambda>token. (field, tokens, token)) tokens @ occurrences td"
    by (simp add: occurrences_def p)
  then show ?case
    using Cons.IH by (simp add: p inner)
qed

lemma p_indexDocument_occurrences:
  "p_indexDocument env d document st
   = foldl (p_indexOccurrence env d) st (occurrences (p_tokenizeFields env document))"
  by (simp add: p_indexDocument_def Let_def p_foldl_occurrences)

lemma key_distinct:
  "token_key token \<noteq> document_key documentId"
  "DOCUMENT_COUNT_KEY \<noteq> document_key documentId"
  "document_key documentId \<noteq> token_key token"
  "document_key documentId \<noteq> DOCUMENT_COUNT_KEY"
  "token_key token \<noteq> DOCUMENT_COUNT_KEY"
  "DOCUMENT_COUNT_KEY \<noteq> token_key token"
  by (simp_all add: INVERTED_INDEX_KEY_PREFIX_def DOCUMENT_STORE_KEY_PREFIX_def
      DOCUMENT_COUNT_KEY_def document_key_def token_key_def)

lemma document_key_inj: "(document_key a = document_key b) = (a = b)"
  by (simp add: document_key_def)

text \<open>An operation that does not fail leaves the fault schedule empty.\<close>

lemma next_fault_nil: "faults st = [] \<Longrightarrow> next_fault st = (False, st)"
  by (simp add: next_fault_def)

lemma store_get_frame:
  "store_get key st = (r, s) \<Longrightarrow> contents s = contents st \<and> console s = console st"
  by (auto simp: store_get_def next_fault_def split: list.splits bool.splits option.splits)

lemma store_get_faults_nil:
  "store_get key st = (r, s) \<Longrightarrow> faults st = [] \<Longrightarrow> faults s = []"
  by (auto simp: store_get_def next_fault_def split: option.splits)

lemma store_put_frame:
  "store_put env key v st = (r, s) \<Longrightarrow> k \<noteq> key \<Longrightarrow> contents s k = contents st k"
  by (auto simp: store_put_def next_fault_def
      split: list.splits bool.splits jsval.splits sum.splits)

lemma store_put_faults_nil:
  "store_put env key v st = (r, s) \<Longrightarrow> faults st = [] \<Longrightarrow> faults s = []"
  by (auto simp: store_put_def next_fault_def split: jsval.splits sum.splits)

lemma console_error_frame [simp]:
  "contents (console_error e st) = contents st" "faults (console_error e st) = faults st"
  by (simp_all add: console_error_def)

lemma getter_frame:
  "get documentId st = (v, s) \<Longrightarrow> contents s = contents st \<and> (faults st = [] \<longrightarrow> faults s = [])"
  "p_invertedIndexGetToken token st = (v, s) \<Longrightarrow>
     contents s = contents st \<and> (faults st = [] \<longrightarrow> faults s = [])"
  "p_getNumDocuments st = (v, s) \<Longrightarrow>
     contents s = contents st \<and> (faults st = [] \<longrightarrow> faults s = [])"
  by (auto simp: get_def p_invertedIndexGetToken_def p_getNumDocuments_def store_get_def
      next_fault_def split: list.splits bool.splits option.splits if_splits)

lemma index_frame_refl: "index_frame st st"
  by (simp add: index_frame_def)

lemma index_frame_trans: "index_frame a b \<Longrightarrow> index_frame b c \<Longrightarrow> index_frame a c"
  unfolding index_frame_def by metis

lemma index_frame_same:
  "contents s = contents st \<Longrightarrow> (faults st = [] \<longrightarrow> faults s = []) \<Longrightarrow> index_frame st s"
  unfolding index_frame_def by metis

lemma index_frame_console_error: "index_frame st (console_error e st)"
  by (simp add: index_frame_def)

lemma index_frame_SetToken: "index_frame st (p_invertedIndexSetToken env token r st)"
proof -
  obtain res s where p: "store_put env (token_key token) r st = (res, s)"
    by fastforce
  have "index_frame st s"
    unfolding index_frame_def
    using store_put_frame[OF p] store_put_faults_nil[OF p] by blast
  moreover have "p_invertedIndexSetToken env token r st = s \<or>
                 (\<exists>e. p_invertedIndexSetToken env token r st = console_error e s)"
    by (cases res) (auto simp: p_invertedIndexSetToken_def p)
  ultimately show ?thesis
    using index_frame_console_error index_frame_trans by metis
qed

lemma p_invertedIndexInsert_cases:
  assumes "p_invertedIndexGetToken token st = (r, s1)"
  shows "(\<exists>x. p_invertedIndexInsert env token d posting st
                = p_invertedIndexSetToken env token x s1) \<or>
         (\<exists>e. p_invertedIndexInsert env token d posting st = console_error e s1)"
  unfolding p_invertedIndexInsert_def assms
  by (auto simp: Let_def split: sum.split jsval.split option.split)

lemma index_frame_Insert: "index_frame st (p_invertedIndexInsert env token d posting st)"
proof -
  obtain r s1 where a: "p_invertedIndexGetToken token st = (r, s1)" by fastforce
  have "index_frame st s1"
    using getter_frame(2)[OF a] by (intro index_frame_same) blast+
  moreover have "index_frame s1 (p_invertedIndexInsert env token d posting st)"
    using p_invertedIndexInsert_cases[OF a, of env d posting]
      index_frame_SetToken[of s1] index_frame_console_error[of s1] by metis
  ultimately show ?thesis by (rule index_frame_trans)
qed

lemma index_frame_idf:
  assumes "p_inverseDocumentFrequency env term' st = (idf, s)"
  shows "index_frame st s"
proof -
  obtain n s1 where a: "p_getNumDocuments st = (n, s1)" by fastforce
  obtain raw s2 where b: "p_invertedIndexGetToken term' s1 = (raw, s2)" by fastforce
  have "index_frame st s1"
    using getter_frame(3)[OF a] by (intro index_frame_same) blast+
  moreover have "index_frame s1 s2"
    using getter_frame(2)[OF b] by (intro index_frame_same) blast+
  ultimately have "index_frame st s2" by (rule index_frame_trans)
  moreover have "s = s2 \<or> (\<exists>e. s = console_error e s2)"
    using assms by (auto simp: p_inverseDocumentFrequency_def a b Let_def split: sum.splits)
  ultimately show ?thesis
    using index_frame_console_error index_frame_trans by metis
qed

lemma index_frame_indexToken: "index_frame st (p_indexToken env d tokens st token)"
proof cases
  assume "token \<in> set (stopwords env)"
  then show ?thesis by (simp add: p_indexToken_def index_frame_refl)
next
  assume ns: "token \<notin> set (stopwords env)"
  obtain idf s1 where a: "p_inverseDocumentFrequency env token st = (idf, s1)" by fastforce
  have "p_indexToken env d tokens st token
        = p_invertedIndexInsert env token d (p_posting token tokens idf) s1"
    using ns by (simp add: p_indexToken_def a)
  then show ?thesis
    using index_frame_idf[OF a] index_frame_Insert[of s1] index_frame_trans by metis
qed

lemma index_frame_foldl:
  "index_frame st (foldl (p_indexOccurrence env d) st occs)"
proof (induction occs arbitrary: st)
  case Nil
  then show ?case by (simp add: index_frame_refl)
next
  case (Cons occ occs)
  obtain field tokens token where occ: "occ = (field, tokens, token)"
    using prod_cases3 by blast
  have "index_frame st (p_indexOccurrence env d st occ)"
    by (simp add: occ p_indexOccurrence_def index_frame_indexToken)
  with Cons.IH[of "p_indexOccurrence env d st occ"] show ?case
    using index_frame_trans by fastforce
qed

lemma index_frame_indexDocument: "index_frame st (p_indexDocument env d document st)"
  by (simp add: p_indexDocument_occurrences index_frame_foldl)

lemma index_frame_stored_document:
  "index_frame st s \<Longrightarrow> stored_document s = stored_document st"
  unfolding index_frame_def stored_document_def using key_distinct(3) by auto

lemma index_frame_count:
  "index_frame st s \<Longrightarrow> contents s DOCUMENT_COUNT_KEY = contents st DOCUMENT_COUNT_KEY"
  unfolding index_frame_def using key_distinct(6) by auto

lemma index_frame_faults: "index_frame st s \<Longrightarrow> faults st = [] \<Longrightarrow> faults s = []"
  unfolding index_frame_def by blast

text \<open>
  \<^verbatim>\<open>_incrementNumDocuments\<close> writes \<^verbatim>\<open>undefined\<close> under the count key: what is stored there
  is what \<^verbatim>\<open>level\<close> makes of that value, whatever the count was.
\<close>

lemma p_incrementNumDocuments_nofault:
  assumes "faults st = []"
  shows "p_incrementNumDocuments env num st =
           (case level_put_other env Undefined of
              Inl e \<Rightarrow> console_error e st
            | Inr x \<Rightarrow> st\<lparr>contents := (contents st)(DOCUMENT_COUNT_KEY \<mapsto> x)\<rparr>)"
  using assms
  by (simp add: p_incrementNumDocuments_def p_getNumDocuments_def store_get_def next_fault_def
      p_setNumDocuments_def store_put_def Let_def split: option.splits sum.splits)

lemma p_incrementNumDocuments_frame:
  "stored_document (p_incrementNumDocuments env num st) = stored_document st"
proof -
  obtain n s1 where a: "p_getNumDocuments st = (n, s1)" by fastforce
  obtain x where x: "p_incrementNumDocuments env num st = p_setNumDocuments env x Undefined s1"
    by (simp add: p_incrementNumDocuments_def a Let_def)
  obtain res s2 where p: "store_put env DOCUMENT_COUNT_KEY Undefined s1 = (res, s2)" by fastforce
  have "contents s2 (document_key d) = contents s1 (document_key d)" for d
    using store_put_frame[OF p] key_distinct(4) by blast
  then have "stored_document s2 = stored_document s1"
    by (simp add: stored_document_def fun_eq_iff)
  moreover have "stored_document s1 = stored_document st"
    using getter_frame(3)[OF a] by (auto simp: stored_document_def fun_eq_iff)
  moreover have "stored_document (p_setNumDocuments env x Undefined s1) = stored_document s2"
    by (cases res) (auto simp: p_setNumDocuments_def p stored_document_def fun_eq_iff)
  ultimately show ?thesis by (simp add: x)
qed

lemma add_completes: "fst (add env document st) = Inr ()"
  by (simp add: add_def catch_console_error_def Let_def split: prod.splits sum.splits)

lemma update_completes: "fst (update env documentId partial st) = Inr ()"
  by (simp add: update_def catch_console_error_def Let_def split: prod.splits sum.splits)

lemma delete_completes: "fst (delete documentId st) = Inr ()"
  by (simp add: delete_def catch_console_error_def split: prod.splits sum.splits)

lemma add_first_fault:
  "faults st = True # fs \<Longrightarrow>
   snd (add env document st) = console_error IOError (st\<lparr>faults := fs\<rparr>)"
  by (simp add: add_def catch_console_error_def Let_def store_put_def next_fault_def)

lemma delete_first_fault:
  "faults st = True # fs \<Longrightarrow>
   snd (delete documentId st) = console_error IOError (st\<lparr>faults := fs\<rparr>)"
  by (simp add: delete_def catch_console_error_def store_del_def next_fault_def)

lemma update_put_fault:
  "faults st = False # True # fs \<Longrightarrow>
   snd (update env documentId partial st) = console_error IOError (st\<lparr>faults := fs\<rparr>)"
  by (simp add: update_def catch_console_error_def Let_def get_def store_get_def store_put_def
      next_fault_def split: option.splits)

lemma add_nofault:
  assumes nf: "faults st = []"
  shows "stored_document (snd (add env document st))
           = (stored_document st)(p_generateDocumentId env document
                \<mapsto> JSON_stringify env (Obj document))
         \<and> faults (snd (add env document st)) = []
         \<and> contents (snd (add env document st)) DOCUMENT_COUNT_KEY
             = (case level_put_other env Undefined of
                  Inl e \<Rightarrow> contents st DOCUMENT_COUNT_KEY
                | Inr x \<Rightarrow> Some x)"
proof -
  define d where "d = p_generateDocumentId env document"
  define s1 where
    "s1 = st\<lparr>contents := (contents st)(document_key d \<mapsto> JSON_stringify env (Obj document))\<rparr>"
  define s2 where "s2 = p_incrementNumDocuments env (Number (Fin 1)) s1"
  have p: "store_put env (document_key d) (Str (JSON_stringify env (Obj document))) st
           = (Inr (), s1)"
    using nf by (simp add: store_put_def next_fault_def s1_def)
  have a: "snd (add env document st) = p_indexDocument env d document s2"
    by (simp add: add_def Let_def d_def[symmetric] p catch_console_error_def s2_def)
  have f1: "faults s1 = []" using nf by (simp add: s1_def)
  have s2_eq: "s2 = (case level_put_other env Undefined of
              Inl e \<Rightarrow> console_error e s1
            | Inr x \<Rightarrow> s1\<lparr>contents := (contents s1)(DOCUMENT_COUNT_KEY \<mapsto> x)\<rparr>)"
    unfolding s2_def by (rule p_incrementNumDocuments_nofault[OF f1])
  have f2: "faults s2 = []"
    unfolding s2_eq using f1 by (simp split: sum.splits)
  have c2: "contents s2 DOCUMENT_COUNT_KEY
             = (case level_put_other env Undefined of
                  Inl e \<Rightarrow> contents st DOCUMENT_COUNT_KEY
                | Inr x \<Rightarrow> Some x)"
    unfolding s2_eq using key_distinct(2)[of d]
    by (simp add: s1_def split: sum.splits)
  have d2: "stored_document s2 = stored_document s1"
    unfolding s2_def by (rule p_incrementNumDocuments_frame)
  have d1: "stored_document s1 = (stored_document st)(d \<mapsto> JSON_stringify env (Obj document))"
    by (simp add: stored_document_def s1_def fun_eq_iff document_key_inj)
  note fr = index_frame_indexDocument[of s2 env d document]
  show ?thesis
    unfolding a d_def[symmetric]
    using index_frame_stored_document[OF fr] index_frame_count[OF fr]
      index_frame_faults[OF fr f2] d1 d2 c2
    by simp
qed

subsection \<open>The persistent engine: the errors it prints\<close>

lemma errors_printed_refl: "errors_printed st st"
  unfolding errors_printed_def by (intro exI[of _ "[]"]) simp

lemma errors_printed_trans:
  assumes "errors_printed a b" and "errors_printed b c"
  shows "errors_printed a c"
proof -
  from assms(1) obtain f1 p1 where 1: "faults a = f1 @ faults b" "console b = console a @ p1"
    "count_list f1 True \<le> count_list p1 IOError"
    unfolding errors_printed_def by blast
  from assms(2) obtain f2 p2 where 2: "faults b = f2 @ faults c" "console c = console b @ p2"
    "count_list f2 True \<le> count_list p2 IOError"
    unfolding errors_printed_def by blast
  have "faults a = (f1 @ f2) @ faults c" "console c = console a @ (p1 @ p2)"
    "count_list (f1 @ f2) True \<le> count_list (p1 @ p2) IOError"
    using 1 2 by simp_all
  then show ?thesis unfolding errors_printed_def by blast
qed

lemma errors_printed_console_error: "errors_printed st (console_error e st)"
  unfolding errors_printed_def console_error_def
  by (intro exI[of _ "[]"] exI[of _ "[e]"]) simp

text \<open>A store operation: what it consumed of the schedule failed only if it returns the I/O error.\<close>

lemma store_get_result:
  assumes "store_get key st = (r, s)"
  shows "console s = console st \<and>
         ((faults st = faults s) \<or> (faults st = False # faults s) \<or>
          (faults st = True # faults s \<and> r = Inl IOError))"
  using assms
  by (auto simp: store_get_def next_fault_def split: list.splits bool.splits option.splits)

lemma store_put_result:
  assumes "store_put env key v st = (r, s)"
  shows "console s = console st \<and>
         ((faults st = faults s) \<or> (faults st = False # faults s) \<or>
          (faults st = True # faults s \<and> r = Inl IOError))"
  using assms
  by (auto simp: store_put_def next_fault_def split: list.splits bool.splits jsval.splits sum.splits)

lemma store_del_result:
  assumes "store_del key st = (r, s)"
  shows "console s = console st \<and>
         ((faults st = faults s) \<or> (faults st = False # faults s) \<or>
          (faults st = True # faults s \<and> r = Inl IOError))"
  using assms
  by (auto simp: store_del_def next_fault_def split: list.splits bool.splits)

lemma errors_printedI:
  "faults st = failed @ faults s \<Longrightarrow> console s = console st @ printed \<Longrightarrow>
   count_list failed True \<le> count_list printed IOError \<Longrightarrow> errors_printed st s"
  unfolding errors_printed_def by blast

lemma printed_after:
  assumes c: "console s = console st"
      and f: "(faults st = faults s) \<or> (faults st = False # faults s) \<or>
          (faults st = True # faults s \<and> r = Inl IOError)"
  shows "errors_printed st (console_error IOError s)"
    and "r \<noteq> Inl IOError \<Longrightarrow> errors_printed st s"
    and "r \<noteq> Inl IOError \<Longrightarrow> errors_printed st (console_error e s)"
proof -
  from f consider "faults st = faults s" | "faults st = False # faults s"
    | "faults st = True # faults s" "r = Inl IOError" by blast
  then show "errors_printed st (console_error IOError s)"
  proof cases
    case 1
    then show ?thesis
      by (intro errors_printedI[of _ "[]" _ "[IOError]"]) (simp_all add: console_error_def c)
  next
    case 2
    then show ?thesis
      by (intro errors_printedI[of _ "[False]" _ "[IOError]"]) (simp_all add: console_error_def c)
  next
    case 3
    then show ?thesis
      by (intro errors_printedI[of _ "[True]" _ "[IOError]"]) (simp_all add: console_error_def c)
  qed
  show b: "errors_printed st s" if "r \<noteq> Inl IOError"
  proof -
    from f that consider "faults st = faults s" | "faults st = False # faults s" by blast
    then show ?thesis
    proof cases
      case 1
      then show ?thesis by (intro errors_printedI[of _ "[]" _ "[]"]) (simp_all add: c)
    next
      case 2
      then show ?thesis by (intro errors_printedI[of _ "[False]" _ "[]"]) (simp_all add: c)
    qed
  qed
  show "errors_printed st (console_error e s)" if "r \<noteq> Inl IOError"
    using b[OF that] errors_printed_console_error errors_printed_trans by blast
qed

lemma errors_printed_getter:
  "get documentId st = (v, s) \<Longrightarrow> errors_printed st s"
  "p_invertedIndexGetToken token st = (v, s) \<Longrightarrow> errors_printed st s"
  "p_getNumDocuments st = (v, s) \<Longrightarrow> errors_printed st s"
proof -
  have g: "errors_printed st s"
    if "store_get key st = (r, s0)"
      and "(v, s) = (case (r, s0) of (Inr v, s) \<Rightarrow> (v, s)
        | (Inl e, s) \<Rightarrow> (if e = NotFoundError then (Null, s) else (Undefined, console_error e s)))"
    for key r s0
  proof -
    note p = printed_after[OF conjunct1[OF store_get_result[OF that(1)]]
        conjunct2[OF store_get_result[OF that(1)]]]
    show ?thesis
    proof (cases r)
      case (Inl e)
      then show ?thesis using that(2) p by (cases "e = IOError") (auto split: if_splits)
    next
      case (Inr x)
      then show ?thesis using that(2) p by auto
    qed
  qed
  show "get documentId st = (v, s) \<Longrightarrow> errors_printed st s"
    using g[of "document_key documentId"] unfolding get_def
    by (metis surj_pair)
  show "p_invertedIndexGetToken token st = (v, s) \<Longrightarrow> errors_printed st s"
    using g[of "token_key token"] unfolding p_invertedIndexGetToken_def
    by (metis surj_pair)
  show "p_getNumDocuments st = (v, s) \<Longrightarrow> errors_printed st s"
    using g[of DOCUMENT_COUNT_KEY] unfolding p_getNumDocuments_def
    by (metis surj_pair)
qed

lemma errors_printed_setter:
  "errors_printed st (p_invertedIndexSetToken env token record' st)"
  "errors_printed st (p_setNumDocuments env field num st)"
proof -
  have g: "errors_printed st (case (r, s0) of (Inr u, s) \<Rightarrow> s | (Inl e, s) \<Rightarrow> console_error e s)"
    if "store_put env key v st = (r, s0)" for key v r s0
  proof -
    note p = printed_after[OF conjunct1[OF store_put_result[OF that(1)]]
        conjunct2[OF store_put_result[OF that(1)]]]
    show ?thesis
    proof (cases r)
      case (Inl e)
      then show ?thesis using p by (cases "e = IOError") auto
    next
      case (Inr x)
      then show ?thesis using p by auto
    qed
  qed
  show "errors_printed st (p_invertedIndexSetToken env token record' st)"
    using g[of "token_key token" record'] unfolding p_invertedIndexSetToken_def
    by (metis surj_pair)
  show "errors_printed st (p_setNumDocuments env field num st)"
    using g[of DOCUMENT_COUNT_KEY num] unfolding p_setNumDocuments_def
    by (metis surj_pair)
qed

lemma errors_printed_increment: "errors_printed st (p_incrementNumDocuments env num st)"
proof -
  obtain n s1 where a: "p_getNumDocuments st = (n, s1)" by fastforce
  obtain x where x: "p_incrementNumDocuments env num st = p_setNumDocuments env x Undefined s1"
    by (simp add: p_incrementNumDocuments_def a Let_def)
  show ?thesis
    unfolding x using errors_printed_getter(3)[OF a] errors_printed_setter(2)
      errors_printed_trans by blast
qed

lemma errors_printed_Insert:
  "errors_printed st (p_invertedIndexInsert env token d posting st)"
proof -
  obtain r s1 where a: "p_invertedIndexGetToken token st = (r, s1)" by fastforce
  have "errors_printed s1 (p_invertedIndexInsert env token d posting st)"
    using p_invertedIndexInsert_cases[OF a, of env d posting]
      errors_printed_setter(1)[of s1] errors_printed_console_error[of s1] by metis
  with errors_printed_getter(2)[OF a] show ?thesis by (rule errors_printed_trans)
qed

lemma errors_printed_idf:
  assumes "p_inverseDocumentFrequency env term' st = (idf, s)"
  shows "errors_printed st s"
proof -
  obtain n s1 where a: "p_getNumDocuments st = (n, s1)" by fastforce
  obtain raw s2 where b: "p_invertedIndexGetToken term' s1 = (raw, s2)" by fastforce
  have "errors_printed st s2"
    using errors_printed_getter(3)[OF a] errors_printed_getter(2)[OF b]
    by (rule errors_printed_trans)
  moreover have "s = s2 \<or> (\<exists>e. s = console_error e s2)"
    using assms by (auto simp: p_inverseDocumentFrequency_def a b Let_def split: sum.splits)
  ultimately show ?thesis
    using errors_printed_console_error errors_printed_trans by metis
qed

lemma errors_printed_indexToken: "errors_printed st (p_indexToken env d tokens st token)"
proof cases
  assume "token \<in> set (stopwords env)"
  then show ?thesis by (simp add: p_indexToken_def errors_printed_refl)
next
  assume ns: "token \<notin> set (stopwords env)"
  obtain idf s1 where a: "p_inverseDocumentFrequency env token st = (idf, s1)" by fastforce
  have "p_indexToken env d tokens st token
        = p_invertedIndexInsert env token d (p_posting token tokens idf) s1"
    using ns by (simp add: p_indexToken_def a)
  then show ?thesis
    using errors_printed_idf[OF a] errors_printed_Insert[of s1] errors_printed_trans by metis
qed

lemma errors_printed_foldl:
  "errors_printed st (foldl (p_indexOccurrence env d) st occs)"
proof (induction occs arbitrary: st)
  case Nil
  then show ?case by (simp add: errors_printed_refl)
next
  case (Cons occ occs)
  obtain field tokens token where occ: "occ = (field, tokens, token)"
    using prod_cases3 by blast
  have "errors_printed st (p_indexOccurrence env d st occ)"
    by (simp add: occ p_indexOccurrence_def errors_printed_indexToken)
  with Cons.IH[of "p_indexOccurrence env d st occ"] show ?case
    using errors_printed_trans by fastforce
qed

lemma errors_printed_indexDocument: "errors_printed st (p_indexDocument env d document st)"
  by (simp add: p_indexDocument_occurrences errors_printed_foldl)

lemma errors_printed_add: "errors_printed st (snd (add env document st))"
proof -
  define d where "d = p_generateDocumentId env document"
  obtain r s1 where p:
    "store_put env (document_key d) (Str (JSON_stringify env (Obj document))) st = (r, s1)"
    by fastforce
  note pa = printed_after[OF conjunct1[OF store_put_result[OF p]]
      conjunct2[OF store_put_result[OF p]]]
  show ?thesis
  proof (cases r)
    case (Inl e)
    then have "snd (add env document st) = console_error e s1"
      by (simp add: add_def Let_def d_def[symmetric] p catch_console_error_def)
    then show ?thesis using pa Inl by (cases "e = IOError") auto
  next
    case (Inr u)
    then have "snd (add env document st)
        = p_indexDocument env d document (p_incrementNumDocuments env (Number (Fin 1)) s1)"
      by (simp add: add_def Let_def d_def[symmetric] p catch_console_error_def)
    moreover have "errors_printed st s1" using pa(2) Inr by simp
    ultimately show ?thesis
      using errors_printed_increment errors_printed_indexDocument errors_printed_trans
      by metis
  qed
qed

lemma errors_printed_update:
  "errors_printed st (snd (update env documentId partialUpdatedDocument st))"
proof -
  obtain v s1 where g: "get documentId st = (v, s1)" by fastforce
  obtain r s2 where p:
    "store_put env (document_key documentId)
       (Str (JSON_stringify env (Obj (update_newDocument v partialUpdatedDocument)))) s1 = (r, s2)"
    by fastforce
  note pa = printed_after[OF conjunct1[OF store_put_result[OF p]]
      conjunct2[OF store_put_result[OF p]]]
  have "errors_printed s1 (snd (update env documentId partialUpdatedDocument st))"
  proof (cases r)
    case (Inl e)
    then have "snd (update env documentId partialUpdatedDocument st) = console_error e s2"
      by (simp add: update_def Let_def g p catch_console_error_def)
    then show ?thesis using pa Inl by (cases "e = IOError") auto
  next
    case (Inr u)
    then have "snd (update env documentId partialUpdatedDocument st) = s2"
      by (simp add: update_def Let_def g p catch_console_error_def)
    then show ?thesis using pa(2) Inr by simp
  qed
  with errors_printed_getter(1)[OF g] show ?thesis by (rule errors_printed_trans)
qed

lemma errors_printed_delete: "errors_printed st (snd (delete documentId st))"
proof -
  obtain r s1 where p: "store_del (document_key documentId) st = (r, s1)" by fastforce
  note pa = printed_after[OF conjunct1[OF store_del_result[OF p]]
      conjunct2[OF store_del_result[OF p]]]
  show ?thesis
  proof (cases r)
    case (Inl e)
    then have "snd (delete documentId st) = console_error e s1"
      by (simp add: delete_def p catch_console_error_def)
    then show ?thesis using pa Inl by (cases "e = IOError") auto
  next
    case (Inr u)
    then have "snd (delete documentId st) = s1"
      by (simp add: delete_def p catch_console_error_def)
    then show ?thesis using pa(2) Inr by simp
  qed
qed

subsection \<open>The components of a posting\<close>

lemma p_tokenizeField_fst:
  "fst (tokenizeField_own env (td, st) entry) = p_tokenizeField env td entry"
proof -
  obtain f v where entry: "entry = (f, v)" by fastforce
  show ?thesis
    unfolding entry
    by (cases v)
       (simp_all add: tokenizeField_own_def p_tokenizeField_def Let_def p_tokenizeNormalize_def
          tokenizeNormalize_def)
qed

lemma p_tokenizeFields_foldl:
  "fst (foldl (tokenizeField_own env) (td0, st) document) = foldl (p_tokenizeField env) td0 document"
proof (induction document arbitrary: td0 st)
  case Nil
  then show ?case by simp
next
  case (Cons entry document)
  obtain td' st' where s: "tokenizeField_own env (td0, st) entry = (td', st')" by fastforce
  with p_tokenizeField_fst[of env td0 st entry] have "td' = p_tokenizeField env td0 entry"
    by simp
  then show ?case
    using Cons.IH[of td' st'] by (simp add: s)
qed

lemma p_tokenizeFields_eq:
  "tokenizeFields_own env document st = (td, st1) \<Longrightarrow> p_tokenizeFields env document = td"
  using p_tokenizeFields_foldl[of env "[]" st document]
  by (simp add: tokenizeFields_own_def p_tokenizeFields_def)

lemma p_posting_value:
  assumes "tokens \<noteq> []"
  shows "p_posting token tokens idf =
     [Number (Fin (sqrt (real (count_list tokens token)))), idf,
      Number (Fin (1 / sqrt (real (length tokens))))]"
proof -
  have "length (filter (\<lambda>t. t = token) tokens) = count_list tokens token"
    by (induction tokens) auto
  with assms show ?thesis
    by (simp add: p_posting_def p_termFrequency_def p_fieldLengthNormalization_def)
qed

lemma getNumDocuments_nofault:
  "faults st = [] \<Longrightarrow> \<exists>n. p_getNumDocuments st = (n, st)"
  by (simp add: p_getNumDocuments_def store_get_def next_fault_def split: option.splits)

lemma GetToken_nofault:
  "faults st = [] \<Longrightarrow>
   p_invertedIndexGetToken token st
     = ((case contents st (token_key token) of None \<Rightarrow> Null | Some raw \<Rightarrow> Str raw), st)"
  by (simp add: p_invertedIndexGetToken_def store_get_def next_fault_def split: option.splits)

lemma SetToken_nofault:
  "faults st = [] \<Longrightarrow>
   p_invertedIndexSetToken env token (Str x) st
     = st\<lparr>contents := (contents st)(token_key token \<mapsto> x)\<rparr>"
  by (simp add: p_invertedIndexSetToken_def store_put_def next_fault_def)

lemma Insert_writes:
  assumes nf: "faults st = []"
  shows "contents st (token_key token) = None \<Longrightarrow>
           p_invertedIndexInsert env token d posting st
           = st\<lparr>contents := (contents st)(token_key token \<mapsto>
                   JSON_stringify env (Obj [(d, Arr [Arr posting])]))\<rparr>"
    and "contents st (token_key token) = Some raw \<Longrightarrow> raw \<noteq> [] \<Longrightarrow>
         JSON_parse env (Str raw) = Inr (Obj r) \<Longrightarrow> map_of r d = None \<Longrightarrow>
           p_invertedIndexInsert env token d posting st
           = st\<lparr>contents := (contents st)(token_key token \<mapsto>
                   JSON_stringify env (Obj (AList.update d (Arr [Arr posting]) r)))\<rparr>"
    and "contents st (token_key token) = Some raw \<Longrightarrow> raw \<noteq> [] \<Longrightarrow>
         JSON_parse env (Str raw) = Inr (Obj r) \<Longrightarrow> map_of r d = Some (Arr ps) \<Longrightarrow>
           p_invertedIndexInsert env token d posting st
           = st\<lparr>contents := (contents st)(token_key token \<mapsto>
                   JSON_stringify env (Obj (AList.update d (Arr (ps @ [Arr posting])) r)))\<rparr>"
    and "contents st (token_key token) = Some raw \<Longrightarrow> raw \<noteq> [] \<Longrightarrow>
         JSON_parse env (Str raw) = Inl e \<Longrightarrow>
           p_invertedIndexInsert env token d posting st = console_error e st"
  using nf
  by (simp_all add: p_invertedIndexInsert_def GetToken_nofault SetToken_nofault truthy_def Let_def)

lemma idf_nofault:
  assumes nf: "faults st = []"
  shows "\<exists>idf s1. p_inverseDocumentFrequency env token st = (idf, s1) \<and>
           contents s1 = contents st \<and> faults s1 = []"
    and "contents st (token_key token) = Some raw \<Longrightarrow> JSON_parse env (Str raw) = Inl e \<Longrightarrow>
         p_inverseDocumentFrequency env token st = (Undefined, console_error e st)"
proof -
  from getNumDocuments_nofault[OF nf] obtain n where n: "p_getNumDocuments st = (n, st)" by blast
  show "\<exists>idf s1. p_inverseDocumentFrequency env token st = (idf, s1) \<and>
           contents s1 = contents st \<and> faults s1 = []"
    using nf
    by (cases "JSON_parse env (case contents st (token_key token) of
                                   None \<Rightarrow> Null | Some raw \<Rightarrow> Str raw)")
       (simp_all add: p_inverseDocumentFrequency_def n GetToken_nofault Let_def)
  show "p_inverseDocumentFrequency env token st = (Undefined, console_error e st)"
    if "contents st (token_key token) = Some raw" "JSON_parse env (Str raw) = Inl e"
    using nf that by (simp add: p_inverseDocumentFrequency_def n GetToken_nofault)
qed

lemma p_indexToken_writes:
  assumes nf: "faults ls = []" and ns: "token \<notin> set (stopwords env)" and ne: "tokens \<noteq> []"
  shows "\<exists>idf ls1.
           p_inverseDocumentFrequency env token ls = (idf, ls1) \<and> contents ls1 = contents ls \<and>
           (let posting = [Number (Fin (sqrt (real (count_list tokens token)))), idf,
                           Number (Fin (1 / sqrt (real (length tokens))))]
            in p_indexToken env documentId tokens ls token
                 = p_invertedIndexInsert env token documentId posting ls1 \<and>
               (contents ls (token_key token) = None \<longrightarrow>
                  contents (p_indexToken env documentId tokens ls token)
                    = (contents ls)(token_key token \<mapsto>
                         JSON_stringify env (Obj [(documentId, Arr [Arr posting])]))) \<and>
               (\<forall>raw r. contents ls (token_key token) = Some raw \<and> raw \<noteq> [] \<and>
                    JSON_parse env (Str raw) = Inr (Obj r) \<and>
                    (map_of r documentId = None \<or> (\<exists>ps. map_of r documentId = Some (Arr ps))) \<longrightarrow>
                  contents (p_indexToken env documentId tokens ls token)
                    = (contents ls)(token_key token \<mapsto>
                         JSON_stringify env
                           (Obj (AList.update documentId
                                   (Arr ((case map_of r documentId of
                                            Some (Arr ps) \<Rightarrow> ps | _ \<Rightarrow> []) @ [Arr posting]))
                                   r)))))"
proof -
  from idf_nofault(1)[OF nf, of env token] obtain idf ls1 where
    i: "p_inverseDocumentFrequency env token ls = (idf, ls1)"
    and c: "contents ls1 = contents ls" and f: "faults ls1 = []" by blast
  define posting where "posting = [Number (Fin (sqrt (real (count_list tokens token)))), idf,
                           Number (Fin (1 / sqrt (real (length tokens))))]"
  have t: "p_indexToken env documentId tokens ls token
           = p_invertedIndexInsert env token documentId posting ls1"
    using ns by (simp add: p_indexToken_def i p_posting_value[OF ne] posting_def)
  have n: "contents (p_indexToken env documentId tokens ls token)
             = (contents ls)(token_key token \<mapsto>
                  JSON_stringify env (Obj [(documentId, Arr [Arr posting])]))"
    if "contents ls (token_key token) = None"
    using Insert_writes(1)[OF f, of token env documentId posting] that
    by (simp add: t c)
  have s: "contents (p_indexToken env documentId tokens ls token)
             = (contents ls)(token_key token \<mapsto>
                  JSON_stringify env
                    (Obj (AList.update documentId
                            (Arr ((case map_of r documentId of
                                     Some (Arr ps) \<Rightarrow> ps | _ \<Rightarrow> []) @ [Arr posting]))
                            r)))"
    if h: "contents ls (token_key token) = Some raw" "raw \<noteq> []"
       "JSON_parse env (Str raw) = Inr (Obj r)"
       and m: "map_of r documentId = None \<or> (\<exists>ps. map_of r documentId = Some (Arr ps))"
    for raw r
  proof -
    from m show ?thesis
    proof (elim disjE exE)
      assume "map_of r documentId = None"
      then show ?thesis
        using Insert_writes(2)[OF f, of token raw env r documentId posting] h
        by (simp add: t c)
    next
      fix ps assume "map_of r documentId = Some (Arr ps)"
      then show ?thesis
        using Insert_writes(3)[OF f, of token raw env r documentId ps posting] h
        by (simp add: t c)
    qed
  qed
  show ?thesis
    unfolding Let_def
  proof (intro exI[of _ idf] exI[of _ ls1] conjI impI allI)
    fix raw r
    assume "contents ls (token_key token) = Some raw \<and> raw \<noteq> [] \<and>
              JSON_parse env (Str raw) = Inr (Obj r) \<and>
              (map_of r documentId = None \<or> (\<exists>ps. map_of r documentId = Some (Arr ps)))"
    then show "contents (p_indexToken env documentId tokens ls token)
                    = (contents ls)(token_key token \<mapsto>
                         JSON_stringify env
                           (Obj (AList.update documentId
                                   (Arr ((case map_of r documentId of
                                            Some (Arr ps) \<Rightarrow> ps | _ \<Rightarrow> []) @
                                    [Arr [Number (Fin (sqrt (real (count_list tokens token)))), idf,
                                          Number (Fin (1 / sqrt (real (length tokens))))]]))
                                   r)))"
      using s[unfolded posting_def, of raw r] by simp
  qed (use i c t[unfolded posting_def] n[unfolded posting_def] in simp_all)
qed

text \<open>
  C9, as the code has it. In the in-memory engine (\<^verbatim>\<open>indexDocument\<close> of index.bak.js) the
  loop appends, for a token occurrence that is not a stopword, one posting of four
  components: the term frequency, the square root of the number of occurrences of that
  exact token in the field's token sequence; the inverse document frequency that
  \<^verbatim>\<open>inverseDocumentFrequency\<close> gives at that moment; the field length normalization, one
  over the square root of the length of the field's token sequence; and the id the field
  registry holds for the field. \<open>s\<close> is the index when the loop reaches the occurrence
  \<open>(field, tokens, token)\<close>, after the occurrences \<open>pre\<close>. This is so when nothing has been
  added to \<^verbatim>\<open>Object.prototype\<close> and neither the document identifier nor a field name nor
  an indexed token of the document is the name of one of its built-in properties.

  The persistent engine (\<^verbatim>\<open>_indexDocument\<close> of index.js) tokenizes the document into the
  same fields and has no field registry. One iteration of its loop, in a database \<open>ls\<close>
  whose operations do not fail, builds a posting of three components, the same term
  frequency, what \<^verbatim>\<open>_inverseDocumentFrequency\<close> returned, and the same field length
  normalization, and hands it to \<^verbatim>\<open>_invertedIndexInsert\<close>. Once that call has run, with no
  other write to the token's record in between, the record is the serialization of: the
  one document with the one posting, when the token had no record; otherwise the parsed
  record with the posting appended to the document's postings (or as the first posting of
  a document the record did not have).
\<close>

theorem posting_components:
  fixes ls :: level
  assumes clean: "Object_prototype st = []"
      and id: "documentId = md5 env (JSON_stringify env (Obj document))"
      and pid: "documentId \<notin> set Object_prototype_names"
      and pf: "\<forall>field\<in>fst ` set document. field \<notin> set Object_prototype_names"
      and tf: "tokenizeFields env document
                 (st\<lparr>documentStore := AList.update documentId document (documentStore st)\<rparr>)
               = Some (tokenizedDocument, st1)"
      and pt: "\<forall>(field, tokens, token)\<in>set (occurrences tokenizedDocument).
                 token \<in> set (stopwords env) \<or> token \<notin> set Object_prototype_names"
      and occ: "occurrences tokenizedDocument = pre @ (field, tokens, token) # post"
      and ns: "token \<notin> set (stopwords env)"
      and nf: "faults ls = []"
  shows "(\<exists>s s' i.
            foreach (indexOccurrence env documentId) st1 pre = Some s
          \<and> indexToken env documentId field tokens s token = Some s'
          \<and> map_of (fields' s) field = Some i
          \<and> postings_of s' token documentId
              = postings_of s token documentId @
                  [[Number (Fin (sqrt (real (count_list tokens token)))),
                    Number (inverseDocumentFrequency s token),
                    Number (Fin (1 / sqrt (real (length tokens)))),
                    Number (Fin (real i))]])
       \<and> p_tokenizeFields env document = tokenizedDocument
       \<and> (\<exists>idf ls1.
             p_inverseDocumentFrequency env token ls = (idf, ls1) \<and> contents ls1 = contents ls \<and>
             (let posting = [Number (Fin (sqrt (real (count_list tokens token)))), idf,
                             Number (Fin (1 / sqrt (real (length tokens))))]
              in p_indexToken env documentId tokens ls token
                   = p_invertedIndexInsert env token documentId posting ls1 \<and>
                 (contents ls (token_key token) = None \<longrightarrow>
                    contents (p_indexToken env documentId tokens ls token)
                      = (contents ls)(token_key token \<mapsto>
                           JSON_stringify env (Obj [(documentId, Arr [Arr posting])]))) \<and>
                 (\<forall>raw r. contents ls (token_key token) = Some raw \<and> raw \<noteq> [] \<and>
                      JSON_parse env (Str raw) = Inr (Obj r) \<and>
                      (map_of r documentId = None \<or>
                       (\<exists>ps. map_of r documentId = Some (Arr ps))) \<longrightarrow>
                    contents (p_indexToken env documentId tokens ls token)
                      = (contents ls)(token_key token \<mapsto>
                           JSON_stringify env
                             (Obj (AList.update documentId
                                     (Arr ((case map_of r documentId of
                                              Some (Arr ps) \<Rightarrow> ps | _ \<Rightarrow> []) @ [Arr posting]))
                                     r))))))"
proof -
  have mem: "(field, tokens, token) \<in> set (occurrences tokenizedDocument)"
    by (simp add: occ)
  then have tok: "token \<in> set tokens" and ft: "(field, tokens) \<in> set tokenizedDocument"
    by (auto simp: occurrences_def)
  from tok have ne: "tokens \<noteq> []" by auto
  from pt mem ns have ptok: "token \<notin> set Object_prototype_names" by fastforce
  note p = addDocument_plain[OF clean id pid pf tf pt occ]
  define s where "s = foldl (indexOccurrence_own env documentId) st1 pre"
  note q = p[folded s_def]
  from tokenizeFields_registered[OF q(1) ft]
  obtain i where i: "map_of (fields' st1) field = Some i" by blast
  have fs: "fields' s = fields' st1"
    unfolding s_def by (simp only: foldl_indexOccurrence_frame)
  have fg: "fields_get_own s field = Number (Fin (real i))"
    by (simp add: fields_get_own_def fs i)
  have po: "postings_of (indexToken_own env documentId field tokens s token) token documentId
               = postings_of s token documentId @
                   [[Number (Fin (sqrt (real (count_list tokens token)))),
                     Number (inverseDocumentFrequency s token),
                     Number (Fin (1 / sqrt (real (length tokens)))),
                     Number (Fin (real i))]]"
    using ns
    by (simp add: postings_of_indexToken termFrequency_value
        fieldLengthNormalization_value[OF ne] fg inverseDocumentFrequency_plain[OF q(2) ptok])
  have a: "\<exists>s s' i.
            foreach (indexOccurrence env documentId) st1 pre = Some s
          \<and> indexToken env documentId field tokens s token = Some s'
          \<and> map_of (fields' s) field = Some i
          \<and> postings_of s' token documentId
              = postings_of s token documentId @
                  [[Number (Fin (sqrt (real (count_list tokens token)))),
                    Number (inverseDocumentFrequency s token),
                    Number (Fin (1 / sqrt (real (length tokens)))),
                    Number (Fin (real i))]]"
    using q(3) q(4) i[folded fs] po by (intro exI conjI)
  have b: "p_tokenizeFields env document = tokenizedDocument"
    using q(1) by (rule p_tokenizeFields_eq)
  show ?thesis
    by (intro conjI a b p_indexToken_writes[OF nf ns ne])
qed

lemma example_tokenizeFields1:
  "tokenizeFields example_env [(''title'', Str ''cooking ideas'')]
     ((constructor [])\<lparr>documentStore :=
        AList.update ''title=cooking ideas;'' [(''title'', Str ''cooking ideas'')]
          (documentStore (constructor []))\<rparr>)
   = Some ([(''title'', [''cooking'', ''ideas''])],
      \<lparr>invertedIndex = [],
       documentStore = [(''title=cooking ideas;'', [(''title'', Str ''cooking ideas'')])],
       fields' = [(''title'', 0)], fieldsCount = 1,
       fieldBoosts = (\<lambda>i. Undefined)(0 := Number (Fin 1)),
       Object_prototype = []\<rparr>)"
  by (simp add: tokenizeFields_def tokenizeField_def tokenizeNormalize_def example_terms
      constructor_def truthy_def get_property_def example_plain)

lemma example_p_idf:
  "p_inverseDocumentFrequency example_env token example_store = (Number NInf, example_store)"
  by (simp add: p_inverseDocumentFrequency_def p_getNumDocuments_def p_invertedIndexGetToken_def
      store_get_def next_fault_def example_store_def example_env_def truthy_def ToNumber_def
      js_plus_def)

text \<open>
  The document \<^verbatim>\<open>{title: 'cooking ideas'}\<close> added to a new engine, and to the empty
  database, at its last token \<^verbatim>\<open>ideas\<close>.
\<close>

theorem posting_components_witness:
  "Object_prototype (constructor []) = [] \<and>
   ''title=cooking ideas;'' \<notin> set Object_prototype_names \<and>
   ''title'' \<notin> set Object_prototype_names \<and>
   ''cooking'' \<notin> set Object_prototype_names \<and>
   ''ideas'' \<notin> set Object_prototype_names \<and>
   ''ideas'' \<notin> set (stopwords example_env) \<and>
   faults example_store = [] \<and>
   contents example_store (token_key ''ideas'') = None \<and>
   (\<exists>s s' i.
      foreach (indexOccurrence example_env ''title=cooking ideas;'')
        \<lparr>invertedIndex = [],
         documentStore = [(''title=cooking ideas;'', [(''title'', Str ''cooking ideas'')])],
         fields' = [(''title'', 0)], fieldsCount = 1,
         fieldBoosts = (\<lambda>i. Undefined)(0 := Number (Fin 1)),
         Object_prototype = []\<rparr>
        [(''title'', [''cooking'', ''ideas''], ''cooking'')] = Some s \<and>
      indexToken example_env ''title=cooking ideas;'' ''title'' [''cooking'', ''ideas''] s ''ideas''
        = Some s' \<and>
      map_of (fields' s) ''title'' = Some i \<and>
      postings_of s' ''ideas'' ''title=cooking ideas;''
      = postings_of s ''ideas'' ''title=cooking ideas;'' @
          [[Number (Fin 1), Number (inverseDocumentFrequency s ''ideas''),
            Number (Fin (1 / sqrt 2)), Number (Fin (real i))]]) \<and>
   p_tokenizeFields example_env [(''title'', Str ''cooking ideas'')]
     = [(''title'', [''cooking'', ''ideas''])] \<and>
   contents (p_indexToken example_env ''title=cooking ideas;'' [''cooking'', ''ideas'']
               example_store ''ideas'')
     = (contents example_store)(token_key ''ideas'' \<mapsto>
          JSON_stringify example_env
            (Obj [(''title=cooking ideas;'',
                   Arr [Arr [Number (Fin 1), Number NInf, Number (Fin (1 / sqrt 2))]])]))"
proof -
  have c: "Object_prototype (constructor []) = []"
    by (simp add: constructor_def)
  have id: "''title=cooking ideas;'' =
            md5 example_env (JSON_stringify example_env (Obj [(''title'', Str ''cooking ideas'')]))"
    by (simp add: example_env_simps)
  have pf: "\<forall>field\<in>fst ` set [(''title'', Str ''cooking ideas'')].
              field \<notin> set Object_prototype_names"
    by (simp add: example_plain)
  have pt: "\<forall>(field, tokens, token)\<in>set (occurrences [(''title'', [''cooking'', ''ideas''])]).
                 token \<in> set (stopwords example_env) \<or> token \<notin> set Object_prototype_names"
    by (simp add: occurrences_def example_plain)
  have occ: "occurrences [(''title'', [''cooking'', ''ideas''])] =
             [(''title'', [''cooking'', ''ideas''], ''cooking'')]
             @ (''title'', [''cooking'', ''ideas''], ''ideas'') # []"
    by (simp add: occurrences_def)
  have ns: "''ideas'' \<notin> set (stopwords example_env)"
    by (simp add: example_env_simps)
  have nf: "faults example_store = []" and n: "contents example_store (token_key ''ideas'') = None"
    by (simp_all add: example_store_def)
  note t = posting_components[OF c id example_plain(6) pf example_tokenizeFields1 pt occ ns nf]
  from t have a: "\<exists>s s' i.
      foreach (indexOccurrence example_env ''title=cooking ideas;'')
        \<lparr>invertedIndex = [],
         documentStore = [(''title=cooking ideas;'', [(''title'', Str ''cooking ideas'')])],
         fields' = [(''title'', 0)], fieldsCount = 1,
         fieldBoosts = (\<lambda>i. Undefined)(0 := Number (Fin 1)),
         Object_prototype = []\<rparr>
        [(''title'', [''cooking'', ''ideas''], ''cooking'')] = Some s \<and>
      indexToken example_env ''title=cooking ideas;'' ''title'' [''cooking'', ''ideas''] s ''ideas''
        = Some s' \<and>
      map_of (fields' s) ''title'' = Some i \<and>
      postings_of s' ''ideas'' ''title=cooking ideas;''
      = postings_of s ''ideas'' ''title=cooking ideas;'' @
          [[Number (Fin 1), Number (inverseDocumentFrequency s ''ideas''),
            Number (Fin (1 / sqrt 2)), Number (Fin (real i))]]"
    by simp
  from t have b: "p_tokenizeFields example_env [(''title'', Str ''cooking ideas'')]
     = [(''title'', [''cooking'', ''ideas''])]"
    by simp
  from t[unfolded Let_def] obtain idf ls1 where
    i: "p_inverseDocumentFrequency example_env ''ideas'' example_store = (idf, ls1)"
    and w: "contents example_store (token_key ''ideas'') = None \<longrightarrow>
       contents (p_indexToken example_env ''title=cooking ideas;'' [''cooking'', ''ideas'']
                   example_store ''ideas'')
       = (contents example_store)(token_key ''ideas'' \<mapsto>
            JSON_stringify example_env
              (Obj [(''title=cooking ideas;'',
                     Arr [Arr [Number (Fin (sqrt (real (count_list [''cooking'', ''ideas'']
                                                          ''ideas'')))),
                               idf,
                               Number (Fin (1 / sqrt (real (length [''cooking'', ''ideas'']))))]])]))"
    by (elim conjE exE) (rule that; assumption)
  from i have "idf = Number NInf" by (simp add: example_p_idf)
  with w n have d: "contents (p_indexToken example_env ''title=cooking ideas;''
               [''cooking'', ''ideas''] example_store ''ideas'')
     = (contents example_store)(token_key ''ideas'' \<mapsto>
          JSON_stringify example_env
            (Obj [(''title=cooking ideas;'',
                   Arr [Arr [Number (Fin 1), Number NInf, Number (Fin (1 / sqrt 2))]])]))"
    by simp
  show ?thesis
    using c ns nf n a b d by (simp add: example_plain)
qed

text \<open>
  C9 as stated fails in the persistent engine: indexing the token \<^verbatim>\<open>cooking\<close> of the
  field \<^verbatim>\<open>'cooking ideas'\<close> into the empty database writes a record whose one posting has
  three components.
\<close>

theorem posting_three_components_counterexample:
  "p_indexToken example_env ''title=cooking ideas;'' [''cooking'', ''ideas''] example_store
     ''cooking''
   = p_invertedIndexInsert example_env ''cooking'' ''title=cooking ideas;''
       [Number (Fin 1), Number NInf, Number (Fin (1 / sqrt 2))] example_store
   \<and> contents (p_indexToken example_env ''title=cooking ideas;'' [''cooking'', ''ideas'']
                  example_store ''cooking'') (token_key ''cooking'')
       = Some (JSON_stringify example_env
                 (Obj [(''title=cooking ideas;'',
                        Arr [Arr [Number (Fin 1), Number NInf, Number (Fin (1 / sqrt 2))]])]))
   \<and> length [Number (Fin 1), Number NInf, Number (Fin (1 / sqrt 2))] \<noteq> 4"
proof -
  have a: "p_indexToken example_env ''title=cooking ideas;'' [''cooking'', ''ideas''] example_store
     ''cooking''
   = p_invertedIndexInsert example_env ''cooking'' ''title=cooking ideas;''
       [Number (Fin 1), Number NInf, Number (Fin (1 / sqrt 2))] example_store"
    by (simp add: p_indexToken_def example_p_idf example_env_simps p_posting_def
        p_termFrequency_def p_fieldLengthNormalization_def)
  have nf: "faults example_store = []" and n: "contents example_store (token_key ''cooking'') = None"
    by (simp_all add: example_store_def)
  show ?thesis
    unfolding a using Insert_writes(1)[OF nf n] by simp
qed

subsection \<open>Adding, updating and deleting documents\<close>

lemma foreach_invariant:
  assumes "\<And>s x s'. body s x = Some s' \<Longrightarrow> P s \<Longrightarrow> P s'"
  shows "foreach body s xs = Some s' \<Longrightarrow> P s \<Longrightarrow> P s'"
proof (induction xs arbitrary: s)
  case Nil
  then show ?case by simp
next
  case (Cons x xs)
  from Cons.prems(1) obtain s1 where s1: "body s x = Some s1" and r: "foreach body s1 xs = Some s'"
    by (auto split: option.splits)
  from assms[OF s1 Cons.prems(2)] Cons.IH[OF r] show ?case by blast
qed

lemma tokenizeField_documentStore:
  "tokenizeField env acc entry = Some acc' \<Longrightarrow> documentStore (snd acc') = documentStore (snd acc)"
  by (cases acc; cases entry)
     (auto simp: tokenizeField_def Let_def split: if_splits jsval.splits)

lemma indexToken_documentStore:
  "indexToken env d field tokens st token = Some s \<Longrightarrow> documentStore s = documentStore st"
  by (auto simp: indexToken_def Let_def split: if_splits option.splits property.splits)

text \<open>
  \<^verbatim>\<open>addDocument\<close> changes the document store at line 17 only, whatever
  \<^verbatim>\<open>Object.prototype\<close> holds.
\<close>

lemma documentStore_addDocument:
  assumes "addDocument env document st = Some s"
  shows "documentStore s
         = AList.update (md5 env (JSON_stringify env (Obj document))) document (documentStore st)"
proof -
  define d where "d = md5 env (JSON_stringify env (Obj document))"
  let ?st0 = "st\<lparr>documentStore := AList.update d document (documentStore st)\<rparr>"
  from assms obtain td st1 where
    tf: "tokenizeFields env document ?st0 = Some (td, st1)"
    and ix: "foreach (indexOccurrence env d) st1 (occurrences td) = Some s"
    by (auto simp: addDocument_def Let_def d_def[symmetric] indexDocument_def foreach_occurrences
        split: if_splits option.splits)
  have "documentStore (snd (td, st1)) = documentStore (snd ([], ?st0))"
    using tf unfolding tokenizeFields_def
    by (rule foreach_invariant[where P = "\<lambda>acc. documentStore (snd acc) = documentStore (snd ([], ?st0))",
          rotated])
       (simp_all add: tokenizeField_documentStore)
  then have 1: "documentStore st1 = AList.update d document (documentStore st)" by simp
  have "documentStore s = AList.update d document (documentStore st)"
    using ix
    by (rule foreach_invariant[where P = "\<lambda>x. documentStore x = AList.update d document (documentStore st)",
          rotated])
       (auto simp: 1 indexOccurrence_def indexToken_documentStore split: prod.splits)
  then show ?thesis by (simp add: d_def)
qed

text \<open>
  On plain keys \<^verbatim>\<open>addDocument\<close> returns, and leaves \<^verbatim>\<open>Object.prototype\<close> as it was.
\<close>

lemma set_AList_update:
  "set (AList.update k v al) \<subseteq> insert (k, v) (set al)"
  by (induction al) auto

lemma p_tokenizeFields_tokens:
  "(field, tokens) \<in> set (foldl (p_tokenizeField env) td document) \<Longrightarrow>
   (field, tokens) \<in> set td \<or>
   (\<exists>s. (field, Str s) \<in> set document \<and> tokens = tokenizeNormalize env s)"
proof (induction document arbitrary: td)
  case Nil
  then show ?case by simp
next
  case (Cons entry document)
  obtain k v where entry: "entry = (k, v)" by (cases entry)
  from Cons.IH[OF Cons.prems[simplified]] show ?case
  proof
    assume m: "(field, tokens) \<in> set (p_tokenizeField env td entry)"
    show ?thesis
    proof (cases v)
      case (Str s)
      with m have "(field, tokens) \<in> set (AList.update k (tokenizeNormalize env s) td)"
        by (simp add: entry p_tokenizeField_def p_tokenizeNormalize_def tokenizeNormalize_def)
      with set_AList_update[of k "tokenizeNormalize env s" td]
      have "(field, tokens) = (k, tokenizeNormalize env s) \<or> (field, tokens) \<in> set td" by auto
      then show ?thesis using Str by (auto simp: entry)
    qed (use m in \<open>simp_all add: entry p_tokenizeField_def\<close>)
  next
    assume "\<exists>s. (field, Str s) \<in> set document \<and> tokens = tokenizeNormalize env s"
    then show ?thesis by auto
  qed
qed

lemma addDocument_returns:
  assumes clean: "Object_prototype st = []" and pk: "plain_keys env document"
  shows "addDocument env document st = Some (addDocument_own env document st)"
    and "Object_prototype (addDocument_own env document st) = []"
proof -
  define d where "d = md5 env (JSON_stringify env (Obj document))"
  let ?st0 = "st\<lparr>documentStore := AList.update d document (documentStore st)\<rparr>"
  obtain td st1 where own: "tokenizeFields_own env document ?st0 = (td, st1)" by fastforce
  from pk have pid: "d \<notin> set Object_prototype_names"
    and pf: "\<forall>field\<in>fst ` set document. field \<notin> set Object_prototype_names"
    by (auto simp: plain_keys_def d_def)
  have c0: "Object_prototype ?st0 = []" using clean by simp
  have tf: "tokenizeFields env document ?st0 = Some (td, st1)"
    using tokenizeFields_plain[OF c0 pf, of env] own by simp
  have c1: "Object_prototype st1 = []"
    using tokenizeFields_own_clean[OF own] c0 by simp
  have td: "p_tokenizeFields env document = td" using own by (rule p_tokenizeFields_eq)
  have h: "\<forall>(f, ts, t)\<in>set (occurrences td).
            (t \<in> set (stopwords env) \<or> t \<notin> set Object_prototype_names) \<and>
            map_of (fields' st1) f \<noteq> None"
  proof (clarify, intro conjI)
    fix f ts t assume o: "(f, ts, t) \<in> set (occurrences td)"
    then have m: "(f, ts) \<in> set td" and t: "t \<in> set ts" by (auto simp: occurrences_def)
    from tokenizeFields_registered[OF own m] show "map_of (fields' st1) f \<noteq> None" by auto
    from m have "(f, ts) \<in> set (foldl (p_tokenizeField env) [] document)"
      by (simp add: td[symmetric] p_tokenizeFields_def)
    from p_tokenizeFields_tokens[OF this] obtain s where
      s: "(f, Str s) \<in> set document" "ts = tokenizeNormalize env s" by auto
    with pk t show "t \<in> set (stopwords env) \<or> t \<notin> set Object_prototype_names"
      by (fastforce simp: plain_keys_def)
  qed
  have np: "d \<noteq> ''__proto__''"
    using pid by (auto simp: Object_prototype_names_def)
  have a: "addDocument_own env document st
           = foldl (indexOccurrence_own env d) st1 (occurrences td)"
    using addDocument_occurrences[OF own d_def] .
  have "addDocument env document st
        = foreach (indexOccurrence env d) st1 (occurrences td)"
    using np by (simp add: addDocument_def Let_def d_def[symmetric] indexDocument_def tf c1
        foreach_occurrences)
  also have "\<dots> = Some (foldl (indexOccurrence_own env d) st1 (occurrences td))"
    by (rule foreach_indexOccurrence_plain[OF pid c1 h])
  finally show "addDocument env document st = Some (addDocument_own env document st)"
    by (simp add: a)
  show "Object_prototype (addDocument_own env document st) = []"
    by (simp add: a foldl_indexOccurrence_own_clean c1)
qed

lemma addDocument_twice_returns:
  assumes "Object_prototype ix = []" and "plain_keys env a" and "plain_keys env b"
  shows "\<exists>ix1 ix2. addDocument env a ix = Some ix1 \<and> addDocument env b ix1 = Some ix2"
  using addDocument_returns[OF assms(1,2)]
    addDocument_returns(1)[OF addDocument_returns(2)[OF assms(1,2)] assms(3)]
  by simp

lemma example_plain_keys: "plain_keys example_env [(''title'', Str ''cooking ideas'')]"
  by (simp add: plain_keys_def example_env_simps tokenizeNormalize_def example_terms
      Object_prototype_names_def)

text \<open>
  C6. In a database that does not fail: two documents of the same serialized content get the
  same identifier; the first \<^verbatim>\<open>add\<close> stores the serialized content under that identifier
  and the second \<^verbatim>\<open>add\<close> leaves the stored documents as they are (one stored document;
  the count and the index are not part of this statement). The in-memory \<^verbatim>\<open>addDocument\<close>
  likewise keeps one key: both calls return when nothing has been added to
  \<^verbatim>\<open>Object.prototype\<close> and the documents are on plain keys, and whenever both return the
  document store has the keys it had after the first. Two documents whose serialized
  contents have different MD5 digests (no collision) get different identifiers, and both
  are stored.
\<close>

theorem add_content_addressed:
  assumes nf: "faults st = []"
  shows "(JSON_stringify env (Obj a) = JSON_stringify env (Obj b) \<longrightarrow>
            p_generateDocumentId env a = p_generateDocumentId env b \<and>
            stored_document (snd (add env a st))
              = (stored_document st)(p_generateDocumentId env a \<mapsto> JSON_stringify env (Obj a)) \<and>
            stored_document (snd (add env b (snd (add env a st))))
              = stored_document (snd (add env a st)) \<and>
            (Object_prototype ix = [] \<and> plain_keys env a \<and> plain_keys env b \<longrightarrow>
               (\<exists>ix1 ix2. addDocument env a ix = Some ix1 \<and> addDocument env b ix1 = Some ix2)) \<and>
            (\<forall>ix1 ix2. addDocument env a ix = Some ix1 \<and> addDocument env b ix1 = Some ix2 \<longrightarrow>
               map fst (documentStore ix2) = map fst (documentStore ix1)))
       \<and> (md5 env (JSON_stringify env (Obj a)) \<noteq> md5 env (JSON_stringify env (Obj b)) \<longrightarrow>
            p_generateDocumentId env a \<noteq> p_generateDocumentId env b \<and>
            stored_document (snd (add env b (snd (add env a st))))
              = (stored_document st)
                  (p_generateDocumentId env a \<mapsto> JSON_stringify env (Obj a),
                   p_generateDocumentId env b \<mapsto> JSON_stringify env (Obj b)))"
proof -
  note a1 = add_nofault[OF nf, of env a]
  from a1 have nf1: "faults (snd (add env a st)) = []" by blast
  note a2 = add_nofault[OF nf1, of env b]
  have same: "stored_document (snd (add env b (snd (add env a st))))
              = stored_document (snd (add env a st))"
    if "JSON_stringify env (Obj a) = JSON_stringify env (Obj b)"
    using a1 a2 that by (simp add: p_generateDocumentId_def)
  have ret: "Object_prototype ix = [] \<and> plain_keys env a \<and> plain_keys env b \<longrightarrow>
               (\<exists>ix1 ix2. addDocument env a ix = Some ix1 \<and> addDocument env b ix1 = Some ix2)"
    using addDocument_twice_returns[of ix env a b] by blast
  have keys: "\<forall>ix1 ix2. addDocument env a ix = Some ix1 \<and> addDocument env b ix1 = Some ix2 \<longrightarrow>
               map fst (documentStore ix2) = map fst (documentStore ix1)"
    if "JSON_stringify env (Obj a) = JSON_stringify env (Obj b)"
    using that by (auto simp: documentStore_addDocument AList.update_keys)
  have both: "stored_document (snd (add env b (snd (add env a st))))
              = (stored_document st)
                  (p_generateDocumentId env a \<mapsto> JSON_stringify env (Obj a),
                   p_generateDocumentId env b \<mapsto> JSON_stringify env (Obj b))"
    using a1 a2 by simp
  show ?thesis
    using a1 same ret keys both by (simp add: p_generateDocumentId_def)
qed

text \<open>
  The document \<^verbatim>\<open>{title: 'cooking ideas'}\<close> added twice to the empty database, and added
  before \<^verbatim>\<open>{title: 'vacation'}\<close>; and added twice to a new in-memory engine.
\<close>

theorem add_content_addressed_witness:
  "faults example_store = [] \<and>
   JSON_stringify example_env (Obj [(''title'', Str ''cooking ideas'')])
     = JSON_stringify example_env (Obj [(''title'', Str ''cooking ideas'')]) \<and>
   md5 example_env (JSON_stringify example_env (Obj [(''title'', Str ''cooking ideas'')]))
     \<noteq> md5 example_env (JSON_stringify example_env (Obj [(''title'', Str ''vacation'')])) \<and>
   stored_document
     (snd (add example_env [(''title'', Str ''cooking ideas'')]
        (snd (add example_env [(''title'', Str ''cooking ideas'')] example_store))))
     = (stored_document example_store)(''title=cooking ideas;'' \<mapsto> ''title=cooking ideas;'') \<and>
   stored_document
     (snd (add example_env [(''title'', Str ''vacation'')]
        (snd (add example_env [(''title'', Str ''cooking ideas'')] example_store))))
     = (stored_document example_store)
         (''title=cooking ideas;'' \<mapsto> ''title=cooking ideas;'',
          ''title=vacation;'' \<mapsto> ''title=vacation;'') \<and>
   Object_prototype (constructor []) = [] \<and>
   plain_keys example_env [(''title'', Str ''cooking ideas'')] \<and>
   (\<exists>ix1 ix2.
      addDocument example_env [(''title'', Str ''cooking ideas'')] (constructor []) = Some ix1 \<and>
      addDocument example_env [(''title'', Str ''cooking ideas'')] ix1 = Some ix2 \<and>
      map fst (documentStore ix2) = map fst (documentStore ix1))"
proof -
  have nf: "faults example_store = []" by (simp add: example_store_def)
  have c: "Object_prototype (constructor []) = []" by (simp add: constructor_def)
  note t = add_content_addressed[OF nf, of example_env "[(''title'', Str ''cooking ideas'')]"
        "[(''title'', Str ''cooking ideas'')]" "constructor []"]
  from t c example_plain_keys obtain ix1 ix2 where
    r: "addDocument example_env [(''title'', Str ''cooking ideas'')] (constructor []) = Some ix1"
       "addDocument example_env [(''title'', Str ''cooking ideas'')] ix1 = Some ix2"
    by auto
  from t r have k: "map fst (documentStore ix2) = map fst (documentStore ix1)" by auto
  have e: "\<exists>ix1 ix2.
      addDocument example_env [(''title'', Str ''cooking ideas'')] (constructor []) = Some ix1 \<and>
      addDocument example_env [(''title'', Str ''cooking ideas'')] ix1 = Some ix2 \<and>
      map fst (documentStore ix2) = map fst (documentStore ix1)"
    using r k by blast
  show ?thesis
    using t
      add_content_addressed[OF nf, of example_env "[(''title'', Str ''cooking ideas'')]"
        "[(''title'', Str ''vacation'')]"] e c example_plain_keys
    by (simp add: nf p_generateDocumentId_def example_env_simps)
qed

lemma p_indexToken_parse_error:
  assumes nf: "faults st = []" and ns: "token \<notin> set (stopwords env)"
      and raw: "contents st (token_key token) = Some raw" "raw \<noteq> []"
      and e: "JSON_parse env (Str raw) = Inl e"
  shows "p_indexToken env documentId tokens st token = console_error e (console_error e st)"
proof -
  have i: "p_inverseDocumentFrequency env token st = (Undefined, console_error e st)"
    by (rule idf_nofault(2)[OF nf raw(1) e])
  have "p_invertedIndexInsert env token documentId posting (console_error e st)
        = console_error e (console_error e st)" for posting
    by (rule Insert_writes(4)[where raw = raw]) (simp_all add: nf raw e)
  then show ?thesis
    using ns by (simp add: p_indexToken_def i)
qed

text \<open>
  C8, as the code has it. The body of \<^verbatim>\<open>add\<close>, \<^verbatim>\<open>update\<close> and \<^verbatim>\<open>delete\<close>, and of every
  private method they call, is wrapped in \<^verbatim>\<open>try { ... } catch (error) { console.error(error); }\<close>:
  each of the three completes normally whatever the store does, and no error reaches the
  caller. Every store operation that fails during one of them, the reads and writes of
  the document count and of the index records included, is printed: the console gains at
  least one I/O error for each failure used up from the fault schedule
  (\<open>errors_printed\<close>). When the write of \<^verbatim>\<open>add\<close>, the deletion of \<^verbatim>\<open>delete\<close> or the write
  of \<^verbatim>\<open>update\<close> fails, the error is printed and the database is left as it was. A stored
  index record that does not parse is printed as well, by \<^verbatim>\<open>_inverseDocumentFrequency\<close> and
  by \<^verbatim>\<open>_invertedIndexInsert\<close>, and the record is left as it was. The state after \<^verbatim>\<open>add\<close>
  is the one in which the insertions it started, which it does not await, have run to
  their end.
\<close>

theorem store_errors_logged_not_surfaced:
  "fst (add env document st) = Inr () \<and>
   fst (update env documentId partialUpdatedDocument st) = Inr () \<and>
   fst (delete documentId st) = Inr () \<and>
   errors_printed st (snd (add env document st)) \<and>
   errors_printed st (snd (update env documentId partialUpdatedDocument st)) \<and>
   errors_printed st (snd (delete documentId st)) \<and>
   (faults st = True # fs \<longrightarrow>
      snd (add env document st) = console_error IOError (st\<lparr>faults := fs\<rparr>) \<and>
      snd (delete documentId st) = console_error IOError (st\<lparr>faults := fs\<rparr>)) \<and>
   (faults st = False # True # fs \<longrightarrow>
      snd (update env documentId partialUpdatedDocument st)
        = console_error IOError (st\<lparr>faults := fs\<rparr>)) \<and>
   (faults st = [] \<and> token \<notin> set (stopwords env) \<and>
    contents st (token_key token) = Some raw \<and> raw \<noteq> [] \<and>
    JSON_parse env (Str raw) = Inl e \<longrightarrow>
      p_indexToken env documentId tokens st token = console_error e (console_error e st))"
  by (simp add: add_completes update_completes delete_completes add_first_fault
      delete_first_fault update_put_fault errors_printed_add errors_printed_update
      errors_printed_delete p_indexToken_parse_error)

lemma example_add_count_fault:
  "console (snd (add example_env [(''title'', Str ''the'')]
                   (example_store\<lparr>faults := [False, True]\<rparr>))) = [IOError, TypeError]"
  "faults (snd (add example_env [(''title'', Str ''the'')]
                   (example_store\<lparr>faults := [False, True]\<rparr>))) = []"
  by (simp_all add: add_def Let_def store_put_def next_fault_def example_store_def
      catch_console_error_def p_incrementNumDocuments_def p_getNumDocuments_def store_get_def
      console_error_def truthy_def p_setNumDocuments_def example_env_def
      p_indexDocument_def p_tokenizeFields_def p_tokenizeField_def p_tokenizeNormalize_def
      p_indexToken_def p_generateDocumentId_def js_plus_def)

text \<open>
  The three operations on an empty database whose write (or deletion) fails;
  \<^verbatim>\<open>add({title: 'the'})\<close> on an empty database whose second operation, the read of the
  document count, fails; and the token \<^verbatim>\<open>cooking\<close> indexed into a database whose record
  for it does not parse.
\<close>

theorem store_errors_logged_not_surfaced_witness:
  "faults (example_store\<lparr>faults := [True]\<rparr>) = True # [] \<and>
   add example_env [(''title'', Str ''cooking ideas'')] (example_store\<lparr>faults := [True]\<rparr>)
     = (Inr (), example_store\<lparr>console := [IOError]\<rparr>) \<and>
   delete ''title=cooking ideas;'' (example_store\<lparr>faults := [True]\<rparr>)
     = (Inr (), example_store\<lparr>console := [IOError]\<rparr>) \<and>
   faults (example_store\<lparr>faults := [False, True]\<rparr>) = False # True # [] \<and>
   update example_env ''title=cooking ideas;'' [(''title'', Str ''ideas'')]
       (example_store\<lparr>faults := [False, True]\<rparr>)
     = (Inr (), example_store\<lparr>console := [IOError]\<rparr>) \<and>
   errors_printed (example_store\<lparr>faults := [False, True]\<rparr>)
     (snd (add example_env [(''title'', Str ''the'')] (example_store\<lparr>faults := [False, True]\<rparr>))) \<and>
   console (snd (add example_env [(''title'', Str ''the'')]
                   (example_store\<lparr>faults := [False, True]\<rparr>))) = [IOError, TypeError] \<and>
   faults (example_store\<lparr>contents := [token_key ''cooking'' \<mapsto> ''x'']\<rparr>) = [] \<and>
   ''cooking'' \<notin> set (stopwords example_env) \<and>
   JSON_parse example_env (Str ''x'') = Inl SyntaxError \<and>
   p_indexToken example_env ''title=cooking ideas;'' [''cooking'', ''ideas'']
       (example_store\<lparr>contents := [token_key ''cooking'' \<mapsto> ''x'']\<rparr>) ''cooking''
     = example_store\<lparr>contents := [token_key ''cooking'' \<mapsto> ''x''],
                      console := [SyntaxError, SyntaxError]\<rparr>"
proof -
  have f: "faults (example_store\<lparr>faults := [True]\<rparr>) = True # []"
    "faults (example_store\<lparr>faults := [False, True]\<rparr>) = False # True # []"
    by simp_all
  have e: "console_error IOError (example_store\<lparr>faults := []\<rparr>)
           = example_store\<lparr>console := [IOError]\<rparr>"
    by (simp add: console_error_def example_store_def)
  have p: "faults (example_store\<lparr>contents := [token_key ''cooking'' \<mapsto> ''x'']\<rparr>) = []"
    "''cooking'' \<notin> set (stopwords example_env)"
    "JSON_parse example_env (Str ''x'') = Inl SyntaxError"
    "contents (example_store\<lparr>contents := [token_key ''cooking'' \<mapsto> ''x'']\<rparr>)
       (token_key ''cooking'') = Some ''x''"
    by (simp_all add: example_store_def example_env_def)
  have c: "console_error SyntaxError (console_error SyntaxError
             (example_store\<lparr>contents := [token_key ''cooking'' \<mapsto> ''x'']\<rparr>))
           = example_store\<lparr>contents := [token_key ''cooking'' \<mapsto> ''x''],
                      console := [SyntaxError, SyntaxError]\<rparr>"
    by (simp add: console_error_def example_store_def)
  note t1 = store_errors_logged_not_surfaced[of example_env "[(''title'', Str ''cooking ideas'')]"
        "example_store\<lparr>faults := [True]\<rparr>" "''title=cooking ideas;''"
        "[(''title'', Str ''ideas'')]" "[]"]
  note t2 = store_errors_logged_not_surfaced[of example_env "[(''title'', Str ''cooking ideas'')]"
        "example_store\<lparr>faults := [False, True]\<rparr>" "''title=cooking ideas;''"
        "[(''title'', Str ''ideas'')]" "[]"]
  note t3 = store_errors_logged_not_surfaced[of example_env "[(''title'', Str ''the'')]"
        "example_store\<lparr>faults := [False, True]\<rparr>"]
  note t4 = store_errors_logged_not_surfaced[of example_env _
        "example_store\<lparr>contents := [token_key ''cooking'' \<mapsto> ''x'']\<rparr>"
        "''title=cooking ideas;''" _ _ "''cooking''" "''x''" SyntaxError "[''cooking'', ''ideas'']"]
  have a: "add example_env [(''title'', Str ''cooking ideas'')] (example_store\<lparr>faults := [True]\<rparr>)
     = (Inr (), example_store\<lparr>console := [IOError]\<rparr>)"
    "delete ''title=cooking ideas;'' (example_store\<lparr>faults := [True]\<rparr>)
     = (Inr (), example_store\<lparr>console := [IOError]\<rparr>)"
    using t1 by (simp_all add: prod_eq_iff e)
  have b: "update example_env ''title=cooking ideas;'' [(''title'', Str ''ideas'')]
       (example_store\<lparr>faults := [False, True]\<rparr>)
     = (Inr (), example_store\<lparr>console := [IOError]\<rparr>)"
    using t2 by (simp add: prod_eq_iff e)
  have d: "errors_printed (example_store\<lparr>faults := [False, True]\<rparr>)
     (snd (add example_env [(''title'', Str ''the'')] (example_store\<lparr>faults := [False, True]\<rparr>)))"
    using t3 by blast
  have g: "p_indexToken example_env ''title=cooking ideas;'' [''cooking'', ''ideas'']
       (example_store\<lparr>contents := [token_key ''cooking'' \<mapsto> ''x'']\<rparr>) ''cooking''
     = example_store\<lparr>contents := [token_key ''cooking'' \<mapsto> ''x''],
                      console := [SyntaxError, SyntaxError]\<rparr>"
    using t4 p by (simp add: c)
  show ?thesis
    using f a b d g p(1-3) example_add_count_fault(1) by simp
qed

text \<open>
  C8 as stated fails: the write of \<^verbatim>\<open>add\<close> fails, and the caller gets a normal completion;
  the error is on the console only.
\<close>

theorem store_error_swallowed_counterexample:
  "fst (add example_env [(''title'', Str ''cooking ideas'')] (example_store\<lparr>faults := [True]\<rparr>))
     \<noteq> Inl IOError
   \<and> console (snd (add example_env [(''title'', Str ''cooking ideas'')]
                      (example_store\<lparr>faults := [True]\<rparr>))) = [IOError]"
  by (simp add: add_completes add_first_fault console_error_def example_store_def)

lemma jsdiv_NaN: "jsdiv x NaN = NaN"
  by (cases x) simp_all

text \<open>
  \<^verbatim>\<open>_inverseDocumentFrequency\<close> of the persistent engine reads \<^verbatim>\<open>.length\<close> of the parsed
  index record. The record \<^verbatim>\<open>_invertedIndexInsert\<close> writes is an object keyed by document
  identifiers, which has no such property: for a token that has a record the result is NaN,
  whatever the document count.
\<close>

lemma p_inverseDocumentFrequency_seen:
  assumes "p_getNumDocuments st = (numDocuments, s1)"
      and "p_invertedIndexGetToken term' s1 = (raw, s2)"
      and "JSON_parse env raw = Inr (Obj r)"
      and "map_of r ''length'' = None"
  shows "p_inverseDocumentFrequency env term' st = (Number NaN, s2)"
  using assms
  by (simp add: p_inverseDocumentFrequency_def truthy_def get_length_def js_plus_def
      ToNumber_def jsdiv_NaN)

text \<open>
  C10 at a failing input: \<^verbatim>\<open>{title: 'cooking ideas'}\<close> is added to the empty database.
  One document is stored; under the count key is what \<^verbatim>\<open>level\<close> makes of \<^verbatim>\<open>undefined\<close>
  (nothing, when it rejects the value), not the count 1:
  \<^verbatim>\<open>_setNumDocuments(field, num)\<close> is called with the count alone.
\<close>

theorem add_count_not_persisted:
  "\<forall>other.
     contents (snd (add (example_env\<lparr>level_put_other := other\<rparr>)
                      [(''title'', Str ''cooking ideas'')] example_store)) DOCUMENT_COUNT_KEY
       = (case other Undefined of Inl e \<Rightarrow> None | Inr x \<Rightarrow> Some x)
     \<and> stored_document (snd (add (example_env\<lparr>level_put_other := other\<rparr>)
                      [(''title'', Str ''cooking ideas'')] example_store)) ''title=cooking ideas;''
       = Some ''title=cooking ideas;''"
proof
  fix other
  define env where "env = example_env\<lparr>level_put_other := other\<rparr>"
  have env: "md5 env = md5 example_env" "JSON_stringify env = JSON_stringify example_env"
    "level_put_other env = other"
    by (simp_all add: env_def)
  have nf: "faults example_store = []" by (simp add: example_store_def)
  have c: "contents example_store DOCUMENT_COUNT_KEY = None"
    "stored_document example_store = Map.empty"
    by (simp_all add: example_store_def stored_document_def fun_eq_iff)
  show "contents (snd (add (example_env\<lparr>level_put_other := other\<rparr>)
                      [(''title'', Str ''cooking ideas'')] example_store)) DOCUMENT_COUNT_KEY
       = (case other Undefined of Inl e \<Rightarrow> None | Inr x \<Rightarrow> Some x)
     \<and> stored_document (snd (add (example_env\<lparr>level_put_other := other\<rparr>)
                      [(''title'', Str ''cooking ideas'')] example_store)) ''title=cooking ideas;''
       = Some ''title=cooking ideas;''"
    unfolding env_def[symmetric]
    using add_nofault[OF nf, of env "[(''title'', Str ''cooking ideas'')]"]
    by (simp add: p_generateDocumentId_def env c example_env_simps split: sum.split)
qed

lemma update_nofault:
  assumes nf: "faults st = []" and x: "stored_document st documentId = Some x"
  shows "stored_document (snd (update env documentId partialUpdatedDocument st))
         = (stored_document st)
             (documentId \<mapsto>
                JSON_stringify env (Obj (update_newDocument (Str x) partialUpdatedDocument)))"
  using nf x
  by (simp add: update_def get_def store_get_def next_fault_def stored_document_def Let_def
      store_put_def catch_console_error_def fun_eq_iff document_key_inj)

lemma string_of_nat_digits:
  "string_of_nat 0 = ''0''" "string_of_nat 1 = ''1''" "string_of_nat 2 = ''2''"
  "string_of_nat 3 = ''3''" "string_of_nat 4 = ''4''"
  by (simp_all add: digit_char_def char_of_def bit_0)

lemma example_newDocument:
  "update_newDocument (Str ''t=ab;'') [(''n'', Str ''x'')]
   = [(''0'', Str ''t''), (''1'', Str ''=''), (''2'', Str ''a''), (''3'', Str ''b''),
      (''4'', Str '';''), (''n'', Str ''x'')]"
  by code_simp

text \<open>
  C7 at a failing input. The document \<^verbatim>\<open>{t: 'ab'}\<close> is stored as the string \<^verbatim>\<open>t=ab;\<close>
  (the serialization of the example). \<^verbatim>\<open>update\<close> with \<^verbatim>\<open>{n: 'x'}\<close> hands the stored
  string, unparsed, to \<^verbatim>\<open>Object.assign\<close>, which copies its characters as properties
  \<^verbatim>\<open>0\<close> to \<^verbatim>\<open>4\<close>: the document written back has no field \<^verbatim>\<open>t\<close>.
\<close>

theorem update_spreads_stored_string:
  "stored_document (snd (add example_env [(''t'', Str ''ab'')] example_store)) ''t=ab;''
     = Some ''t=ab;''
   \<and> update_newDocument (Str ''t=ab;'') [(''n'', Str ''x'')]
     = [(''0'', Str ''t''), (''1'', Str ''=''), (''2'', Str ''a''), (''3'', Str ''b''),
        (''4'', Str '';''), (''n'', Str ''x'')]
   \<and> stored_document
       (snd (update example_env ''t=ab;'' [(''n'', Str ''x'')]
          (snd (add example_env [(''t'', Str ''ab'')] example_store)))) ''t=ab;''
     = Some ''0=t;1==;2=a;3=b;4=;;n=x;''"
proof -
  have nf: "faults example_store = []" by (simp add: example_store_def)
  note a = add_nofault[OF nf, of example_env "[(''t'', Str ''ab'')]"]
  have id: "p_generateDocumentId example_env [(''t'', Str ''ab'')] = ''t=ab;''"
    by (simp add: p_generateDocumentId_def example_env_simps)
  from a have s: "stored_document (snd (add example_env [(''t'', Str ''ab'')] example_store))
                    ''t=ab;'' = Some ''t=ab;''"
    by (simp add: id example_env_simps)
  from a have nf1: "faults (snd (add example_env [(''t'', Str ''ab'')] example_store)) = []"
    by blast
  show ?thesis
    using s update_nofault[OF nf1 s, of example_env "[(''n'', Str ''x'')]"]
    by (simp add: example_newDocument example_env_simps)
qed

end
